theory Spec2Isabelle
  imports Main "HOL-Library.Multiset"
begin

section \<open>Promises\<close>

text \<open>
  The service is written with \<^verbatim>\<open>async\<close> functions. A promise is modelled by the
  instant at which it settles (milliseconds after the call) and by how it settles:
  fulfilled with a value, or rejected (the \<^verbatim>\<open>throw\<close> of an async function).
\<close>

datatype 'a settled = Fulfilled 'a | Rejected

type_synonym 'a promise = "nat \<times> 'a settled"

text \<open>
  \<^verbatim>\<open>Promise.all\<close>: fulfilled with all the values, in the order of the array, once the
  last promise is fulfilled; rejected as soon as the first promise rejects.
\<close>

fun Promise_all :: "'a promise list \<Rightarrow> 'a list promise" where
  "Promise_all [] = (0, Fulfilled [])"
| "Promise_all ((t, Rejected) # ps) =
     (case Promise_all ps of
        (t', Rejected) \<Rightarrow> (min t t', Rejected)
      | (t', Fulfilled _) \<Rightarrow> (t, Rejected))"
| "Promise_all ((t, Fulfilled x) # ps) =
     (case Promise_all ps of
        (t', Rejected) \<Rightarrow> (t', Rejected)
      | (t', Fulfilled xs) \<Rightarrow> (max t t', Fulfilled (x # xs)))"

section \<open>Image providers (providers/interface.ts)\<close>

type_synonym bytes = "nat list"

text \<open>\<^verbatim>\<open>interface ImageResult\<close>; an optional field is an option.\<close>

record ImageResult =
  url :: "string option"
  buffer :: "bytes option"
  provider :: string
  extension :: string
  path :: "string option"

text \<open>What \<^verbatim>\<open>getImageFromS3\<close> resolves to when the object exists.\<close>

record StoredImage =
  stored_buffer :: bytes
  stored_contentType :: string
  stored_extension :: "string option"

text \<open>
  A provider is either a direct one (local files, CoinGecko, 1inch, Alchemy, Sim Dune,
  Pendle, token lists), given by its name, what \<^verbatim>\<open>isAvailable()\<close> returns and the
  settlement of its \<^verbatim>\<open>fetchImage(chainId, address)\<close>, or the
  \<^verbatim>\<open>PendlePTUnderlyingProvider\<close>, given by whether the callback
  \<^verbatim>\<open>fetchUnderlyingImage\<close> is set and by the settlements of \<^verbatim>\<open>isPendlePT\<close>,
  \<^verbatim>\<open>getUnderlyingAssetAddress\<close> and \<^verbatim>\<open>getImageFromS3\<close>.
\<close>

datatype ImageProvider =
    Direct string bool "int \<Rightarrow> string \<Rightarrow> ImageResult option promise"
  | PendlePTUnderlying bool
      "int \<Rightarrow> string \<Rightarrow> bool promise"
      "int \<Rightarrow> string \<Rightarrow> string option promise"
      "int \<Rightarrow> string \<Rightarrow> StoredImage option promise"

fun name :: "ImageProvider \<Rightarrow> string" where
  "name (Direct n _ _) = n"
| "name (PendlePTUnderlying _ _ _ _) = ''pendle-pt-underlying''"

fun isAvailable :: "ImageProvider \<Rightarrow> bool" where
  "isAvailable (Direct _ available _) = available"
| "isAvailable (PendlePTUnderlying fetchUnderlyingImageSet _ _ _) = fetchUnderlyingImageSet"

section \<open>ImageProviderManager (services/fetch-image-service.ts)\<close>

text \<open>
  The body of the \<^verbatim>\<open>async (provider) => { try { ... } catch { ... } }\<close> that
  \<^verbatim>\<open>fetchImage\<close> and \<^verbatim>\<open>fetchImageForUnderlying\<close> map over the providers; the second
  argument is the settlement of \<^verbatim>\<open>provider.fetchImage(chainId, address)\<close>, awaited only
  when the provider is available.
\<close>

definition providerPromise ::
  "ImageProvider \<Rightarrow> ImageResult option promise \<Rightarrow> (ImageResult option \<times> string) promise" where
  "providerPromise p fetched =
     (if \<not> isAvailable p then (0, Fulfilled (None, name p))
      else (case fetched of
              (t, Fulfilled result) \<Rightarrow> (t, Fulfilled (result, name p))
            | (t, Rejected) \<Rightarrow> (t, Fulfilled (None, name p))))"

text \<open>\<^verbatim>\<open>for (const { result } of results) { if (result) return result; } return null;\<close>\<close>

fun firstResult :: "(ImageResult option \<times> string) list \<Rightarrow> ImageResult option" where
  "firstResult [] = None"
| "firstResult ((Some r, _) # rest) = Some r"
| "firstResult ((None, _) # rest) = firstResult rest"

text \<open>\<^verbatim>\<open>this.providers.filter(p => p.name !== "pendle-pt-underlying")\<close>\<close>

definition providersForUnderlying :: "ImageProvider list \<Rightarrow> ImageProvider list" where
  "providersForUnderlying ps = filter (\<lambda>p. name p \<noteq> ''pendle-pt-underlying'') ps"

text \<open>A JavaScript string is truthy when it is not empty.\<close>

definition truthy :: "string option \<Rightarrow> bool" where
  "truthy s = (case s of None \<Rightarrow> False | Some v \<Rightarrow> v \<noteq> [])"

text \<open>
  \<^verbatim>\<open>provider.fetchImage(chainId, address)\<close> as the manager whose list is \<open>ps\<close> calls it,
  and the manager's \<^verbatim>\<open>fetchImageForUnderlying\<close>, which the constructor hands to the
  \<^verbatim>\<open>PendlePTUnderlyingProvider\<close> as its callback. The two call each other in the
  source; the awaits of one call run one after the other, so their times add up.
\<close>

function provider_fetchImage ::
    "ImageProvider list \<Rightarrow> ImageProvider \<Rightarrow> int \<Rightarrow> string \<Rightarrow> ImageResult option promise"
  and fetchImageForUnderlying ::
    "ImageProvider list \<Rightarrow> int \<Rightarrow> string \<Rightarrow> ImageResult option promise"
where
  "provider_fetchImage ps (Direct n available fetch) chainId address = fetch chainId address"
| "provider_fetchImage ps
      (PendlePTUnderlying fetchUnderlyingImageSet isPendlePT getUnderlyingAssetAddress getImageFromS3)
      chainId address =
     (if \<not> fetchUnderlyingImageSet then (0, Fulfilled None)
      else (case isPendlePT chainId address of
          (t1, Rejected) \<Rightarrow> (t1, Fulfilled None)
        | (t1, Fulfilled isPT) \<Rightarrow>
          if \<not> isPT then (t1, Fulfilled None)
          else (case getUnderlyingAssetAddress chainId address of
              (t2, Rejected) \<Rightarrow> (t1 + t2, Fulfilled None)
            | (t2, Fulfilled None) \<Rightarrow> (t1 + t2, Fulfilled None)
            | (t2, Fulfilled (Some underlyingAddress)) \<Rightarrow>
              if underlyingAddress = [] then (t1 + t2, Fulfilled None)
              else (case getImageFromS3 chainId underlyingAddress of
                  (t3, Rejected) \<Rightarrow> (t1 + t2 + t3, Fulfilled None)
                | (t3, Fulfilled (Some existingImage)) \<Rightarrow>
                    (t1 + t2 + t3, Fulfilled (Some \<lparr>
                       url = None,
                       buffer = Some (stored_buffer existingImage),
                       provider = ''pendle-pt-underlying'',
                       extension = (if truthy (stored_extension existingImage)
                                    then the (stored_extension existingImage) else ''png''),
                       path = None \<rparr>))
                | (t3, Fulfilled None) \<Rightarrow>
                  (case fetchImageForUnderlying ps chainId underlyingAddress of
                      (t4, Rejected) \<Rightarrow> (t1 + t2 + t3 + t4, Fulfilled None)
                    | (t4, Fulfilled None) \<Rightarrow> (t1 + t2 + t3 + t4, Fulfilled None)
                    | (t4, Fulfilled (Some result)) \<Rightarrow>
                        (t1 + t2 + t3 + t4,
                         Fulfilled (Some (result\<lparr> provider := ''pendle-pt-underlying'' \<rparr>))))))))"
| "fetchImageForUnderlying ps chainId address =
     (case Promise_all
             (map (\<lambda>p. providerPromise p (provider_fetchImage ps p chainId address))
                  (providersForUnderlying ps)) of
        (t, Rejected) \<Rightarrow> (t, Rejected)
      | (t, Fulfilled results) \<Rightarrow> (t, Fulfilled (firstResult results)))"
  by pat_completeness auto
termination
proof (relation "measure (\<lambda>x. case x of
          Inl (ps, p, c, a) \<Rightarrow> (case p of Direct _ _ _ \<Rightarrow> 0 | PendlePTUnderlying _ _ _ _ \<Rightarrow> 2)
        | Inr (ps, c, a) \<Rightarrow> 1)", goal_cases)
  case 1
  show ?case by simp
next
  case 2
  show ?case by simp
next
  case (3 ps chainId address p)
  then have "name p \<noteq> ''pendle-pt-underlying''"
    by (simp add: providersForUnderlying_def)
  then show ?case by (cases p) simp_all
qed

text \<open>\<^verbatim>\<open>ImageProviderManager.fetchImage\<close>, for the manager whose list is \<open>ps\<close>.\<close>

definition fetchImage :: "ImageProvider list \<Rightarrow> int \<Rightarrow> string \<Rightarrow> ImageResult option promise" where
  "fetchImage ps chainId address =
     (case Promise_all
             (map (\<lambda>p. providerPromise p (provider_fetchImage ps p chainId address)) ps) of
        (t, Rejected) \<Rightarrow> (t, Rejected)
      | (t, Fulfilled results) \<Rightarrow> (t, Fulfilled (firstResult results)))"

text \<open>
  What a provider contributes to the ranking: its result when it is available and its
  fetch is fulfilled, absent otherwise.
\<close>

definition answer :: "ImageProvider list \<Rightarrow> int \<Rightarrow> string \<Rightarrow> ImageProvider \<Rightarrow> ImageResult option" where
  "answer ps chainId address p =
     (if isAvailable p
      then (case snd (provider_fetchImage ps p chainId address) of
              Fulfilled r \<Rightarrow> r | Rejected \<Rightarrow> None)
      else None)"

text \<open>The same provider answering after \<open>d\<close> milliseconds at every await.\<close>

fun withLatency :: "nat \<Rightarrow> ImageProvider \<Rightarrow> ImageProvider" where
  "withLatency d (Direct n available fetch) =
     Direct n available (\<lambda>c a. (d, snd (fetch c a)))"
| "withLatency d (PendlePTUnderlying cb isPendlePT getUnderlyingAssetAddress getImageFromS3) =
     PendlePTUnderlying cb
       (\<lambda>c a. (d, snd (isPendlePT c a)))
       (\<lambda>c a. (d, snd (getUnderlyingAssetAddress c a)))
       (\<lambda>c a. (d, snd (getImageFromS3 c a)))"

text \<open>The result built from an image already stored for the underlying asset.\<close>

definition storedResult :: "StoredImage \<Rightarrow> ImageResult" where
  "storedResult existingImage = \<lparr> url = None, buffer = Some (stored_buffer existingImage),
      provider = ''pendle-pt-underlying'',
      extension = (if truthy (stored_extension existingImage)
                   then the (stored_extension existingImage) else ''png''),
      path = None \<rparr>"


section \<open>Strings (String.prototype.toLowerCase)\<close>

text \<open>
  Addresses are hexadecimal strings; \<^verbatim>\<open>toLowerCase\<close> is modelled on the ASCII letters
  and leaves every other character as it is.
\<close>

definition lowerChar :: "char \<Rightarrow> char" where
  "lowerChar ch =
     (case map_of (zip ''ABCDEFGHIJKLMNOPQRSTUVWXYZ'' ''abcdefghijklmnopqrstuvwxyz'') ch of
        Some l \<Rightarrow> l | None \<Rightarrow> ch)"

definition toLowerCase :: "string \<Rightarrow> string" where
  "toLowerCase s = map lowerChar s"

section \<open>SyncService: data (services/sync-service.ts)\<close>

record TokenInfo =
  address :: string
  symbol :: string
  token_name :: string
  decimals :: int

datatype DetailStatus = Exists | Migrated | Downloaded | FailedDetail

record Detail =
  detail_address :: string
  detail_status :: DetailStatus
  detail_provider :: "string option"

record SyncResult =
  result_chainId :: int
  totalTokens :: int
  existingImages :: int
  migratedFromLocal :: int
  downloadedImages :: int
  failedDownloads :: int
  duration :: int
  details :: "Detail list"

datatype SyncState = Running | Completed | Failed

record Progress =
  phase :: string
  current :: int
  total :: int

record SyncStatus =
  chainId :: int
  status :: SyncState
  startTime :: int
  endTime :: "int option"
  progress :: "Progress option"
  result :: "SyncResult option"
  error :: "string option"
  remainingTime :: "int option"

text \<open>
  The message of a \<^verbatim>\<open>RateLimitError\<close> is a template string; the model keeps the numbers
  it interpolates.
\<close>

datatype RateLimitMessage =
    SyncCurrentlyRunning int
  | RateLimitExceeded SyncState int int

record RateLimitError =
  rateLimited :: bool
  limited_chainId :: int
  limited_remainingTime :: int
  message :: RateLimitMessage

text \<open>\<^verbatim>\<open>Partial<SyncStatus>\<close>, with the fields the service passes to \<^verbatim>\<open>updateSyncStatus\<close>.\<close>

record SyncStatusUpdate =
  upd_status :: "SyncState option"
  upd_endTime :: "int option"
  upd_progress :: "Progress option"
  upd_result :: "SyncResult option"
  upd_error :: "string option"

text \<open>
  The service: the map \<^verbatim>\<open>syncStatuses\<close>, and the \<^verbatim>\<open>performSync\<close> calls that
  \<^verbatim>\<open>startSync\<close> has launched and that have not finished, each with the chain and the
  status updates it has still to make.
\<close>

record SyncService =
  syncStatuses :: "int \<rightharpoonup> SyncStatus"
  pending :: "(int \<times> SyncStatusUpdate list) list"

section \<open>SyncService: the environment of one sync\<close>

text \<open>A \<^verbatim>\<open>fetch\<close> response: \<^verbatim>\<open>response.ok\<close> and the settlement of reading its body.\<close>

record 'a Response =
  ok :: bool
  body :: "'a settled"

text \<open>
  What \<^verbatim>\<open>response.json()\<close> of the token registry yields: an array of tokens, or
  \<^verbatim>\<open>null\<close> (other values that are not arrays are left out of the model).
\<close>

datatype TokensJson = TokenArray "TokenInfo list" | JsonNull

text \<open>The \<^verbatim>\<open>{ chainId, address }\<close> objects of \<^verbatim>\<open>tokenList\<close>.\<close>

record TokenRef =
  ref_chainId :: int
  ref_address :: string

text \<open>
  What the collaborators answer while one token of the list is processed: the storage
  check of \<^verbatim>\<open>bulkCheckImagesInStorage\<close>, the local provider's \<^verbatim>\<open>fetchImage\<close> in
  \<^verbatim>\<open>bulkCheckLocalImages\<close> and again in \<^verbatim>\<open>migrateLocalImages\<close>, the upload of the
  migration and the instant at which the token's migration callback finishes, then for
  the download the provider chain's \<^verbatim>\<open>fetchImage\<close>, the \<^verbatim>\<open>fetch\<close> of the image URL and
  the upload.
\<close>

record TokenWorld =
  storageCheck :: "bool settled"
  localCheck :: "ImageResult option settled"
  localImage :: "ImageResult option settled"
  migrationUpload :: "bool settled"
  migrationSettledAt :: nat
  resolved :: "ImageResult option settled"
  imageFetch :: "bytes Response settled"
  downloadUpload :: "bool settled"

text \<open>
  The environment of one \<^verbatim>\<open>performSync\<close>: \<^verbatim>\<open>STORAGE_MODE\<close>, whether
  \<^verbatim>\<open>getLocalProvider()\<close> finds a provider, the registry's response, the message of the
  \<^verbatim>\<open>TypeError\<close> the engine throws, the answers for the i-th token of the registry's
  list, and the readings of \<^verbatim>\<open>Date.now()\<close> (at the start, in \<^verbatim>\<open>duration\<close>, in
  \<^verbatim>\<open>endTime\<close>).
\<close>

record SyncWorld =
  storageMode :: string
  hasLocalProvider :: bool
  registry :: "TokensJson Response settled"
  typeErrorMessage :: string
  tokenWorld :: "nat \<Rightarrow> TokenWorld"
  now_performSync :: int
  now_duration :: int
  now_endTime :: int

section \<open>SyncService: rate limit and status\<close>

definition RATE_LIMIT_MINUTES :: int where
  "RATE_LIMIT_MINUTES = 1"

definition rateLimitMs :: int where
  "rateLimitMs = RATE_LIMIT_MINUTES * 60 * 1000"

text \<open>\<^verbatim>\<open>Math.ceil(x / (60 * 1000))\<close> and \<^verbatim>\<open>Math.floor(x / (60 * 1000))\<close> on integers.\<close>

definition ceilMinutes :: "int \<Rightarrow> int" where
  "ceilMinutes x = - ((- x) div (60 * 1000))"

definition floorMinutes :: "int \<Rightarrow> int" where
  "floorMinutes x = x div (60 * 1000)"

text \<open>\<^verbatim>\<open>currentStatus.endTime || currentStatus.startTime\<close>: 0 and undefined are falsy.\<close>

definition relevantTime :: "SyncStatus \<Rightarrow> int" where
  "relevantTime currentStatus =
     (case endTime currentStatus of
        None \<Rightarrow> startTime currentStatus
      | Some e \<Rightarrow> if e = 0 then startTime currentStatus else e)"

definition checkRateLimit :: "(int \<rightharpoonup> SyncStatus) \<Rightarrow> int \<Rightarrow> int \<Rightarrow> RateLimitError option" where
  "checkRateLimit statuses c now =
     (case statuses c of
        None \<Rightarrow> None
      | Some currentStatus \<Rightarrow>
          if status currentStatus = Running \<and> now - startTime currentStatus < rateLimitMs
          then Some \<lparr> rateLimited = True, limited_chainId = c,
                       limited_remainingTime = rateLimitMs - (now - startTime currentStatus),
                       message = SyncCurrentlyRunning (floorMinutes (now - startTime currentStatus)) \<rparr>
          else if (status currentStatus = Completed \<or> status currentStatus = Failed)
                  \<and> now - relevantTime currentStatus < rateLimitMs
          then Some \<lparr> rateLimited = True, limited_chainId = c,
                       limited_remainingTime = rateLimitMs - (now - relevantTime currentStatus),
                       message = RateLimitExceeded (status currentStatus)
                         (floorMinutes (now - relevantTime currentStatus))
                         (ceilMinutes (rateLimitMs - (now - relevantTime currentStatus))) \<rparr>
          else None)"

definition calculateRemainingTime :: "(int \<rightharpoonup> SyncStatus) \<Rightarrow> int \<Rightarrow> int \<Rightarrow> int" where
  "calculateRemainingTime statuses c now =
     (case statuses c of
        None \<Rightarrow> 0
      | Some currentStatus \<Rightarrow>
          if status currentStatus = Running
          then max 0 (rateLimitMs - (now - startTime currentStatus))
          else max 0 (rateLimitMs - (now - relevantTime currentStatus)))"

definition getSyncStatus :: "SyncService \<Rightarrow> int \<Rightarrow> int \<Rightarrow> SyncStatus option" where
  "getSyncStatus s c now =
     (case syncStatuses s c of
        None \<Rightarrow> None
      | Some st \<Rightarrow> Some (st\<lparr> remainingTime := Some (calculateRemainingTime (syncStatuses s) c now) \<rparr>))"

text \<open>\<^verbatim>\<open>{ ...current, ...updates }\<close>\<close>

definition mergeUpdate :: "SyncStatus \<Rightarrow> SyncStatusUpdate \<Rightarrow> SyncStatus" where
  "mergeUpdate cur u = cur\<lparr>
     status := (case upd_status u of Some v \<Rightarrow> v | None \<Rightarrow> status cur),
     endTime := (case upd_endTime u of Some v \<Rightarrow> Some v | None \<Rightarrow> endTime cur),
     progress := (case upd_progress u of Some v \<Rightarrow> Some v | None \<Rightarrow> progress cur),
     result := (case upd_result u of Some v \<Rightarrow> Some v | None \<Rightarrow> result cur),
     error := (case upd_error u of Some v \<Rightarrow> Some v | None \<Rightarrow> error cur) \<rparr>"

definition updateSyncStatus ::
  "(int \<rightharpoonup> SyncStatus) \<Rightarrow> int \<Rightarrow> SyncStatusUpdate \<Rightarrow> (int \<rightharpoonup> SyncStatus)" where
  "updateSyncStatus statuses c updates =
     (case statuses c of
        None \<Rightarrow> statuses
      | Some cur \<Rightarrow> statuses(c \<mapsto> mergeUpdate cur updates))"

definition progressUpdate :: "string \<Rightarrow> int \<Rightarrow> int \<Rightarrow> SyncStatusUpdate" where
  "progressUpdate ph cur tot = \<lparr> upd_status = None, upd_endTime = None,
     upd_progress = Some \<lparr> phase = ph, current = cur, total = tot \<rparr>,
     upd_result = None, upd_error = None \<rparr>"

section \<open>SyncService: the pipeline\<close>

definition fetchTokensFromEuler :: "TokensJson Response settled \<Rightarrow> TokensJson" where
  "fetchTokensFromEuler fetched =
     (case fetched of
        Rejected \<Rightarrow> TokenArray []
      | Fulfilled response \<Rightarrow>
          if \<not> ok response then TokenArray []
          else (case body response of
                  Rejected \<Rightarrow> TokenArray []
                | Fulfilled tokens \<Rightarrow> tokens))"

text \<open>\<^verbatim>\<open>bulkCheckImagesInStorage\<close> (services/image-storage-service.ts)\<close>

definition bulkCheckImagesInStorage ::
  "(TokenRef \<times> TokenWorld) list \<Rightarrow> ((TokenRef \<times> TokenWorld) \<times> bool) list" where
  "bulkCheckImagesInStorage tokens =
     map (\<lambda>token. (token, case storageCheck (snd token) of
                              Fulfilled exists \<Rightarrow> exists | Rejected \<Rightarrow> False)) tokens"

text \<open>\<^verbatim>\<open>LocalImagesProvider.bulkCheckLocalImages\<close> (providers/local-images-provider.ts)\<close>

definition bulkCheckLocalImages ::
  "(TokenRef \<times> TokenWorld) list \<Rightarrow> ((TokenRef \<times> TokenWorld) \<times> bool) list" where
  "bulkCheckLocalImages tokens =
     map (\<lambda>token. (token, case localCheck (snd token) of
                              Fulfilled found \<Rightarrow> found \<noteq> None | Rejected \<Rightarrow> False)) tokens"

definition failedDetail :: "TokenRef \<Rightarrow> string option \<Rightarrow> Detail" where
  "failedDetail token p =
     \<lparr> detail_address = ref_address token, detail_status = FailedDetail, detail_provider = p \<rparr>"

text \<open>
  The callback \<^verbatim>\<open>batch.map(async (token) => ...)\<close> of \<^verbatim>\<open>migrateLocalImages\<close>: the detail
  it pushes and the \<^verbatim>\<open>success\<close> it returns.
\<close>

definition migrateToken :: "bool \<Rightarrow> TokenRef \<times> TokenWorld \<Rightarrow> Detail \<times> bool" where
  "migrateToken localProvider tw =
     (let token = fst tw; w = snd tw in
      if \<not> localProvider then (failedDetail token None, False)
      else (case localImage w of
          Rejected \<Rightarrow> (failedDetail token (Some ''local-migration''), False)
        | Fulfilled None \<Rightarrow> (failedDetail token None, False)
        | Fulfilled (Some img) \<Rightarrow>
            (case buffer img of
               None \<Rightarrow> (failedDetail token None, False)
             | Some buf \<Rightarrow>
                 (case migrationUpload w of
                    Rejected \<Rightarrow> (failedDetail token (Some ''local-migration''), False)
                  | Fulfilled uploadSuccess \<Rightarrow>
                      if uploadSuccess
                      then (\<lparr> detail_address = ref_address token, detail_status = Migrated,
                               detail_provider = Some ''local-migration'' \<rparr>, True)
                      else (failedDetail token (Some ''local-migration''), False)))))"

record MigrationResult =
  migrated :: int
  migration_failed :: int
  migration_details :: "Detail list"

text \<open>
  The loop of \<^verbatim>\<open>migrateLocalImages\<close> from index \<open>i\<close>: a batch is
  \<^verbatim>\<open>tokensWithLocal.slice(i, i + 20)\<close>; its callbacks push their details in the order
  in which they finish; the counters are read off the settled batch.
\<close>

function migrateLoop ::
  "bool \<Rightarrow> (TokenRef \<times> TokenWorld) list \<Rightarrow> nat \<Rightarrow> MigrationResult \<Rightarrow> MigrationResult" where
  "migrateLoop localProvider tokensWithLocal i acc =
     (if i < length tokensWithLocal then
        (let batch = take 20 (drop i tokensWithLocal);
             pushed = map (\<lambda>tw. fst (migrateToken localProvider tw))
                          (sort_key (\<lambda>tw. migrationSettledAt (snd tw)) batch);
             batchResults = map (\<lambda>tw. snd (migrateToken localProvider tw)) batch
         in migrateLoop localProvider tokensWithLocal (i + 20)
              \<lparr> migrated = migrated acc + int (length (filter (\<lambda>success. success) batchResults)),
                migration_failed = migration_failed acc
                   + int (length (filter (\<lambda>success. \<not> success) batchResults)),
                migration_details = migration_details acc @ pushed \<rparr>)
      else acc)"
  by pat_completeness auto
termination
  by (relation "measure (\<lambda>(localProvider, tokensWithLocal, i, acc). length tokensWithLocal - i)") auto

definition migrateLocalImages :: "bool \<Rightarrow> (TokenRef \<times> TokenWorld) list \<Rightarrow> MigrationResult" where
  "migrateLocalImages localProvider tokensWithLocal =
     migrateLoop localProvider tokensWithLocal 0
       \<lparr> migrated = 0, migration_failed = 0, migration_details = [] \<rparr>"

definition downloadImageBuffer :: "bytes Response settled \<Rightarrow> bytes option" where
  "downloadImageBuffer fetched =
     (case fetched of
        Rejected \<Rightarrow> None
      | Fulfilled response \<Rightarrow>
          if \<not> ok response then None
          else (case body response of Rejected \<Rightarrow> None | Fulfilled arrayBuffer \<Rightarrow> Some arrayBuffer))"

text \<open>
  One turn of the loop of \<^verbatim>\<open>downloadMissingImages\<close>: the detail pushed and whether
  \<^verbatim>\<open>downloaded\<close> (rather than \<^verbatim>\<open>failed\<close>) is incremented.
\<close>

definition downloadToken :: "TokenRef \<times> TokenWorld \<Rightarrow> Detail \<times> bool" where
  "downloadToken tw =
     (let token = fst tw; w = snd tw in
      case resolved w of
        Rejected \<Rightarrow> (failedDetail token None, False)
      | Fulfilled None \<Rightarrow> (failedDetail token None, False)
      | Fulfilled (Some imageResult) \<Rightarrow>
          (let imageBuffer =
                 (case buffer imageResult of
                    Some b \<Rightarrow> Some b
                  | None \<Rightarrow> if truthy (url imageResult)
                             then downloadImageBuffer (imageFetch w) else None)
           in case imageBuffer of
                None \<Rightarrow> (failedDetail token (Some (provider imageResult)), False)
              | Some buf \<Rightarrow>
                  (case downloadUpload w of
                     Rejected \<Rightarrow> (failedDetail token None, False)
                   | Fulfilled uploadSuccess \<Rightarrow>
                       if uploadSuccess
                       then (\<lparr> detail_address = ref_address token, detail_status = Downloaded,
                                detail_provider = Some (provider imageResult) \<rparr>, True)
                       else (failedDetail token (Some (provider imageResult)), False))))"

record DownloadResult =
  downloaded :: int
  download_failed :: int
  download_details :: "Detail list"

fun downloadLoop :: "(TokenRef \<times> TokenWorld) list \<Rightarrow> DownloadResult \<Rightarrow> DownloadResult" where
  "downloadLoop [] acc = acc"
| "downloadLoop (tw # rest) acc =
     downloadLoop rest
       (if snd (downloadToken tw)
        then acc\<lparr> downloaded := downloaded acc + 1,
                   download_details := download_details acc @ [fst (downloadToken tw)] \<rparr>
        else acc\<lparr> download_failed := download_failed acc + 1,
                   download_details := download_details acc @ [fst (downloadToken tw)] \<rparr>)"

definition downloadMissingImages :: "(TokenRef \<times> TokenWorld) list \<Rightarrow> DownloadResult" where
  "downloadMissingImages missingTokens =
     downloadLoop missingTokens \<lparr> downloaded = 0, download_failed = 0, download_details = [] \<rparr>"

text \<open>
  \<^verbatim>\<open>tokens.map(token => ({ chainId, address: token.address.toLowerCase() }))\<close>, each
  token with the answers the environment gives for it.
\<close>

definition tokenList :: "SyncWorld \<Rightarrow> int \<Rightarrow> TokenInfo list \<Rightarrow> (TokenRef \<times> TokenWorld) list" where
  "tokenList w c tokens =
     map (\<lambda>(i, token). (\<lparr> ref_chainId = c, ref_address = toLowerCase (address token) \<rparr>,
                          tokenWorld w i))
         (enumerate 0 tokens)"

text \<open>
  The constants that \<^verbatim>\<open>performSync\<close> computes from a token list that is not empty, each
  under the name it has in the source.
\<close>

definition existenceChecks ::
  "SyncWorld \<Rightarrow> int \<Rightarrow> TokenInfo list \<Rightarrow> ((TokenRef \<times> TokenWorld) \<times> bool) list" where
  "existenceChecks w c tokens = bulkCheckImagesInStorage (tokenList w c tokens)"

definition missingFromStorage ::
  "SyncWorld \<Rightarrow> int \<Rightarrow> TokenInfo list \<Rightarrow> ((TokenRef \<times> TokenWorld) \<times> bool) list" where
  "missingFromStorage w c tokens = filter (\<lambda>check. \<not> snd check) (existenceChecks w c tokens)"

definition existingInStorageCount :: "SyncWorld \<Rightarrow> int \<Rightarrow> TokenInfo list \<Rightarrow> int" where
  "existingInStorageCount w c tokens =
     int (length (existenceChecks w c tokens)) - int (length (missingFromStorage w c tokens))"

definition localChecks ::
  "SyncWorld \<Rightarrow> int \<Rightarrow> TokenInfo list \<Rightarrow> ((TokenRef \<times> TokenWorld) \<times> bool) list" where
  "localChecks w c tokens =
     (if hasLocalProvider w
      then bulkCheckLocalImages (map fst (missingFromStorage w c tokens))
      else map (\<lambda>token. (fst token, False)) (missingFromStorage w c tokens))"

definition hasLocalImages ::
  "SyncWorld \<Rightarrow> int \<Rightarrow> TokenInfo list \<Rightarrow> ((TokenRef \<times> TokenWorld) \<times> bool) list" where
  "hasLocalImages w c tokens = filter (\<lambda>check. snd check) (localChecks w c tokens)"

definition stillMissingTokens ::
  "SyncWorld \<Rightarrow> int \<Rightarrow> TokenInfo list \<Rightarrow> ((TokenRef \<times> TokenWorld) \<times> bool) list" where
  "stillMissingTokens w c tokens = filter (\<lambda>check. \<not> snd check) (localChecks w c tokens)"

definition migrationResults :: "SyncWorld \<Rightarrow> int \<Rightarrow> TokenInfo list \<Rightarrow> MigrationResult" where
  "migrationResults w c tokens =
     migrateLocalImages (hasLocalProvider w) (map fst (hasLocalImages w c tokens))"

definition downloadResults :: "SyncWorld \<Rightarrow> int \<Rightarrow> TokenInfo list \<Rightarrow> DownloadResult" where
  "downloadResults w c tokens = downloadMissingImages (map fst (stillMissingTokens w c tokens))"

text \<open>The \<^verbatim>\<open>SyncResult\<close> that \<^verbatim>\<open>performSync\<close> compiles (step 6).\<close>

definition compileResult :: "SyncWorld \<Rightarrow> int \<Rightarrow> TokenInfo list \<Rightarrow> SyncResult" where
  "compileResult w c tokens =
     \<lparr> result_chainId = c,
       totalTokens = int (length tokens),
       existingImages = existingInStorageCount w c tokens,
       migratedFromLocal = migrated (migrationResults w c tokens),
       downloadedImages = downloaded (downloadResults w c tokens),
       failedDownloads = migration_failed (migrationResults w c tokens)
                          + download_failed (downloadResults w c tokens),
       duration = now_duration w - now_performSync w,
       details =
         map (\<lambda>check. \<lparr> detail_address = ref_address (fst (fst check)),
                          detail_status = Exists, detail_provider = None \<rparr>)
             (filter (\<lambda>check. snd check) (existenceChecks w c tokens))
         @ migration_details (migrationResults w c tokens)
         @ download_details (downloadResults w c tokens) \<rparr>"

text \<open>
  The status updates of one \<^verbatim>\<open>performSync(chainId)\<close>, in order. The first is made
  before the first \<^verbatim>\<open>await\<close>, that is inside the call; the others follow as the awaited
  promises settle. \<^verbatim>\<open>tokens.length\<close> throws a \<^verbatim>\<open>TypeError\<close> on \<^verbatim>\<open>null\<close>. Every exception
  is caught inside, so the promise that \<^verbatim>\<open>performSync\<close> returns is never rejected and the
  handler that \<^verbatim>\<open>startSync\<close> attaches to it never runs.
\<close>

definition performSync :: "SyncWorld \<Rightarrow> int \<Rightarrow> SyncStatusUpdate list" where
  "performSync w c =
     progressUpdate ''fetching tokens'' 0 1 #
     (case fetchTokensFromEuler (registry w) of
        JsonNull \<Rightarrow>
          [\<lparr> upd_status = Some Failed, upd_endTime = Some (now_endTime w), upd_progress = None,
              upd_result = None, upd_error = Some (typeErrorMessage w) \<rparr>]
      | TokenArray tokens \<Rightarrow>
          if length tokens = 0 then
            [\<lparr> upd_status = Some Completed, upd_endTime = Some (now_endTime w),
                upd_progress = None,
                upd_result = Some \<lparr> result_chainId = c, totalTokens = 0, existingImages = 0,
                  migratedFromLocal = 0, downloadedImages = 0, failedDownloads = 0,
                  duration = now_duration w - now_performSync w, details = [] \<rparr>,
                upd_error = None \<rparr>]
          else
            [progressUpdate (''checking '' @ storageMode w @ '' storage'') 0 (int (length tokens)),
             progressUpdate ''checking local source images'' 0
               (int (length (missingFromStorage w c tokens))),
             progressUpdate ''migrating local source images'' 0
               (int (length (hasLocalImages w c tokens))),
             progressUpdate ''downloading missing images'' 0
               (int (length (stillMissingTokens w c tokens))),
             \<lparr> upd_status = Some Completed, upd_endTime = Some (now_endTime w),
               upd_progress = Some \<lparr> phase = ''completed'', current = int (length tokens),
                                      total = int (length tokens) \<rparr>,
               upd_result = Some (compileResult w c tokens), upd_error = None \<rparr>])"

section \<open>SyncService: startSync and the background work\<close>

text \<open>
  \<^verbatim>\<open>startSync(chainId)\<close>. \<open>now\<close> is what \<^verbatim>\<open>Date.now()\<close> returns inside
  \<^verbatim>\<open>checkRateLimit\<close>, \<open>now'\<close> what it returns next (in \<^verbatim>\<open>calculateRemainingTime\<close>, or as
  the start time of the new sync); \<open>w\<close> is the environment of the sync that is launched.
\<close>

definition startSync ::
  "SyncService \<Rightarrow> int \<Rightarrow> int \<Rightarrow> int \<Rightarrow> SyncWorld \<Rightarrow> (RateLimitError + SyncStatus) \<times> SyncService" where
  "startSync s c now now' w =
     (case checkRateLimit (syncStatuses s) c now of
        Some rateLimitCheck \<Rightarrow> (Inl rateLimitCheck, s)
      | None \<Rightarrow>
          (case (case syncStatuses s c of
                   None \<Rightarrow> None
                 | Some existingStatus \<Rightarrow>
                     if status existingStatus = Running then Some existingStatus else None) of
             Some existingStatus \<Rightarrow>
               (Inr (existingStatus\<lparr> remainingTime :=
                        Some (calculateRemainingTime (syncStatuses s) c now') \<rparr>), s)
           | None \<Rightarrow>
               (let syncStatus = \<lparr> chainId = c, status = Running, startTime = now',
                      endTime = None,
                      progress = Some \<lparr> phase = ''initializing'', current = 0, total = 0 \<rparr>,
                      result = None, error = None,
                      remainingTime = Some (RATE_LIMIT_MINUTES * 60 * 1000) \<rparr>;
                    statuses = (syncStatuses s)(c \<mapsto> syncStatus);
                    updates = performSync w c
                in (Inr syncStatus,
                    \<lparr> syncStatuses = updateSyncStatus statuses c (hd updates),
                      pending = pending s @ [(c, tl updates)] \<rparr>))))"

text \<open>
  The i-th pending \<^verbatim>\<open>performSync\<close> resumes and makes its next status update; it leaves
  the list with its last one.
\<close>

definition resume :: "SyncService \<Rightarrow> nat \<Rightarrow> SyncService" where
  "resume s i =
     (case pending s ! i of
        (c, []) \<Rightarrow> s\<lparr> pending := take i (pending s) @ drop (Suc i) (pending s) \<rparr>
      | (c, u # us) \<Rightarrow>
          \<lparr> syncStatuses = updateSyncStatus (syncStatuses s) c u,
            pending = (if us = [] then take i (pending s) @ drop (Suc i) (pending s)
                       else (pending s)[i := (c, us)]) \<rparr>)"

text \<open>The states of the service: calls of \<^verbatim>\<open>startSync\<close> interleaved with the background work.\<close>

inductive reachable :: "SyncService \<Rightarrow> bool" where
  initial: "reachable \<lparr> syncStatuses = Map.empty, pending = [] \<rparr>"
| start: "reachable s \<Longrightarrow> reachable (snd (startSync s c now now' w))"
| background: "reachable s \<Longrightarrow> i < length (pending s) \<Longrightarrow> reachable (resume s i)"

section \<open>SyncService: the shape of the background work\<close>

text \<open>
  An update that touches the progress only, and an update that ends a sync: completed
  with a result and no error, or failed with an error and no result.
\<close>

definition progressOnly :: "SyncStatusUpdate \<Rightarrow> bool" where
  "progressOnly u \<longleftrightarrow> upd_status u = None \<and> upd_result u = None \<and> upd_error u = None"

definition terminal :: "SyncStatusUpdate \<Rightarrow> bool" where
  "terminal u \<longleftrightarrow>
     (upd_status u = Some Completed \<and> upd_result u \<noteq> None \<and> upd_error u = None)
     \<or> (upd_status u = Some Failed \<and> upd_result u = None \<and> upd_error u \<noteq> None)"

text \<open>What a pending \<^verbatim>\<open>performSync\<close> has still to do: progress updates, then one terminal update.\<close>

fun pipeline :: "SyncStatusUpdate list \<Rightarrow> bool" where
  "pipeline [] = False"
| "pipeline [u] = terminal u"
| "pipeline (u # v # us) = (progressOnly u \<and> pipeline (v # us))"

text \<open>
  The invariant of the service: one pending \<^verbatim>\<open>performSync\<close> per chain at most; the status
  of a chain is running, with neither result nor error, exactly while its
  \<^verbatim>\<open>performSync\<close> is pending; otherwise it is completed with a result or failed with an
  error.
\<close>

definition launched :: "SyncService \<Rightarrow> int set" where
  "launched s = fst ` set (pending s)"

definition settledStatus :: "SyncStatus \<Rightarrow> bool" where
  "settledStatus st \<longleftrightarrow>
     (status st = Completed \<and> result st \<noteq> None \<and> error st = None)
     \<or> (status st = Failed \<and> result st = None \<and> error st \<noteq> None)"

definition runningStatus :: "SyncStatus \<Rightarrow> bool" where
  "runningStatus st \<longleftrightarrow> status st = Running \<and> result st = None \<and> error st = None"

definition invariant :: "SyncService \<Rightarrow> bool" where
  "invariant s \<longleftrightarrow>
     distinct (map fst (pending s))
     \<and> (\<forall>c us. (c, us) \<in> set (pending s) \<longrightarrow> pipeline us \<and> syncStatuses s c \<noteq> None)
     \<and> (\<forall>c st. syncStatuses s c = Some st \<longrightarrow>
           (if c \<in> launched s then runningStatus st else settledStatus st))"

section \<open>Storage in S3 (services/image-s3-service.ts, image-storage-service.ts)\<close>

text \<open>\<^verbatim>\<open>Number.prototype.toString\<close> on an integer, as the template strings use it.\<close>

definition digitChar :: "nat \<Rightarrow> char" where
  "digitChar d = ''0123456789'' ! d"

function natToString :: "nat \<Rightarrow> string" where
  "natToString n = (if n < 10 then [digitChar n] else natToString (n div 10) @ [digitChar (n mod 10)])"
  by pat_completeness auto
termination
  by (relation "measure (\<lambda>n. n)") auto

definition toString :: "int \<Rightarrow> string" where
  "toString i = (if i < 0 then CHR ''-'' # natToString (nat (- i)) else natToString (nat i))"

text \<open>The key \<^verbatim>\<open>`${chainId}/${address.toLowerCase()}/image`\<close> of the three S3 functions.\<close>

definition storageKey :: "int \<Rightarrow> string \<Rightarrow> string" where
  "storageKey c a = toString c @ ''/'' @ toLowerCase a @ ''/image''"

definition getMimeType :: "string \<Rightarrow> string" where
  "getMimeType ext =
     (let cleanExtension = (if take 1 ext = ''.'' then drop 1 ext else ext) in
      case map_of [(''png'', ''image/png''), (''jpg'', ''image/jpeg''), (''jpeg'', ''image/jpeg''),
                   (''webp'', ''image/webp''), (''svg'', ''image/svg+xml''), (''gif'', ''image/gif''),
                   (''bmp'', ''image/bmp''), (''ico'', ''image/x-icon''), (''tiff'', ''image/tiff''),
                   (''tif'', ''image/tiff'')]
             (toLowerCase cleanExtension) of
        Some mime \<Rightarrow> mime
      | None \<Rightarrow> ''application/octet-stream'')"

text \<open>
  An object of the bucket, and the bucket behind \<^verbatim>\<open>s3Client\<close> (\<^verbatim>\<open>null\<close> without
  credentials). \<open>sendFails\<close> below says that \<^verbatim>\<open>s3Client.send\<close> throws for a reason other
  than a missing key (network, credentials).
\<close>

record S3Object =
  Body :: bytes
  ContentType :: string
  Metadata :: "string \<rightharpoonup> string"

record S3 =
  s3Client :: bool
  bucket :: "string \<rightharpoonup> S3Object"

record UploadMetadata =
  meta_provider :: string
  meta_downloadDate :: string
  meta_originalUrl :: "string option"

definition getImageFromS3 :: "S3 \<Rightarrow> bool \<Rightarrow> int \<Rightarrow> string \<Rightarrow> StoredImage option" where
  "getImageFromS3 s3 sendFails c a =
     (if \<not> s3Client s3 then None
      else if sendFails then None
      else (case bucket s3 (storageKey c a) of
              None \<Rightarrow> None
            | Some response \<Rightarrow>
                Some (if truthy (Metadata response ''extension'')
                      then \<lparr> stored_buffer = Body response,
                             stored_contentType = getMimeType (the (Metadata response ''extension'')),
                             stored_extension = Metadata response ''extension'' \<rparr>
                      else \<lparr> stored_buffer = Body response,
                             stored_contentType = (if ContentType response = []
                                                   then ''application/octet-stream''
                                                   else ContentType response),
                             stored_extension = None \<rparr>)))"

definition checkImageExistsInS3 :: "S3 \<Rightarrow> bool \<Rightarrow> int \<Rightarrow> string \<Rightarrow> bool" where
  "checkImageExistsInS3 s3 sendFails c a =
     (if \<not> s3Client s3 then False
      else if sendFails then False
      else (case bucket s3 (storageKey c a) of None \<Rightarrow> False | Some response \<Rightarrow> True))"

text \<open>The parameters of the \<^verbatim>\<open>PutObjectCommand\<close>, the key and the bucket apart.\<close>

definition putCommand :: "bytes \<Rightarrow> string \<Rightarrow> UploadMetadata \<Rightarrow> S3Object" where
  "putCommand imageBuffer ext metadata =
     \<lparr> Body = imageBuffer,
       ContentType = getMimeType ext,
       Metadata =
         (if truthy (meta_originalUrl metadata)
          then [''extension'' \<mapsto> ext, ''provider'' \<mapsto> meta_provider metadata,
                ''downloadDate'' \<mapsto> meta_downloadDate metadata,
                ''originalUrl'' \<mapsto> the (meta_originalUrl metadata)]
          else [''extension'' \<mapsto> ext, ''provider'' \<mapsto> meta_provider metadata,
                ''downloadDate'' \<mapsto> meta_downloadDate metadata]) \<rparr>"

definition uploadImageToS3 ::
  "S3 \<Rightarrow> bool \<Rightarrow> int \<Rightarrow> string \<Rightarrow> bytes \<Rightarrow> string \<Rightarrow> UploadMetadata \<Rightarrow> bool \<times> S3" where
  "uploadImageToS3 s3 sendFails c a imageBuffer ext metadata =
     (if \<not> s3Client s3 then (False, s3)
      else if sendFails then (False, s3)
      else (True, s3\<lparr> bucket := (bucket s3)(storageKey c a \<mapsto> putCommand imageBuffer ext metadata) \<rparr>))"

text \<open>
  What \<^verbatim>\<open>performSync\<close> reports for the i-th token after the bulk check: the
  \<^verbatim>\<open>{ chainId, address, exists }\<close> object.
\<close>

definition existenceEntry :: "SyncWorld \<Rightarrow> int \<Rightarrow> TokenInfo list \<Rightarrow> nat \<Rightarrow> TokenRef \<times> bool" where
  "existenceEntry w c tokens i =
     (fst (fst (existenceChecks w c tokens ! i)), snd (existenceChecks w c tokens ! i))"

section \<open>LocalImagesProvider and CoinGeckoProvider\<close>

text \<open>\<^verbatim>\<open>path.join\<close> on segments that need no normalisation.\<close>

fun join :: "string list \<Rightarrow> string" where
  "join [] = ''.''"
| "join [p] = p"
| "join (p # q # ps) = p @ ''/'' @ join (q # ps)"

definition startsWith :: "string \<Rightarrow> string \<Rightarrow> bool" where
  "startsWith s prefix = (take (length prefix) s = prefix)"

text \<open>\<^verbatim>\<open>String.prototype.split\<close> with a separator of one character, and \<^verbatim>\<open>Array.prototype.pop\<close>.\<close>

fun split :: "char \<Rightarrow> string \<Rightarrow> string list" where
  "split sep [] = [[]]"
| "split sep (ch # rest) =
     (if ch = sep then [] # split sep rest
      else (case split sep rest of
              [] \<Rightarrow> [[ch]]
            | word # ws \<Rightarrow> (ch # word) # ws))"

definition pop :: "'a list \<Rightarrow> 'a option" where
  "pop xs = (case rev xs of [] \<Rightarrow> None | x # _ \<Rightarrow> Some x)"

text \<open>The file system as the provider reads it.\<close>

record FileSystem =
  existsSync :: "string \<Rightarrow> bool"
  readdir :: "string \<Rightarrow> string list settled"
  readFile :: "string \<Rightarrow> bytes settled"

text \<open>
  \<^verbatim>\<open>LocalImagesProvider.fetchImage\<close>; the promise is always fulfilled, with the value
  given here.
\<close>

definition LocalImagesProvider_fetchImage ::
  "string \<Rightarrow> FileSystem \<Rightarrow> int \<Rightarrow> string \<Rightarrow> ImageResult option" where
  "LocalImagesProvider_fetchImage baseImagePath fs c a =
     (let tokenDir = join [baseImagePath, toString c, toLowerCase a] in
      if \<not> existsSync fs tokenDir then None
      else (case readdir fs tokenDir of
          Rejected \<Rightarrow> None
        | Fulfilled files \<Rightarrow>
            (case List.find (\<lambda>file. startsWith file ''image.'') files of
               None \<Rightarrow> None
             | Some imageFile \<Rightarrow>
                 (case pop (split CHR ''.'' imageFile) of
                    None \<Rightarrow> None
                  | Some ext \<Rightarrow>
                      if ext = [] then None
                      else (let imagePath = join [tokenDir, imageFile] in
                            case readFile fs imagePath of
                              Rejected \<Rightarrow> None
                            | Fulfilled contents \<Rightarrow>
                                Some \<lparr> url = None, buffer = Some contents, provider = ''local'',
                                       extension = ext, path = Some imagePath \<rparr>)))))"

definition chainIdToCoingeckoId :: "int \<Rightarrow> string option" where
  "chainIdToCoingeckoId =
     map_of [(1, ''ethereum''), (56, ''binance-smart-chain''), (146, ''sonic''), (8453, ''base''),
             (42161, ''arbitrum-one''), (43114, ''avalanche''), (1923, ''sonic''), (60808, ''bob''),
             (80094, ''berachain''), (130, ''unichain'')]"

text \<open>
  \<^verbatim>\<open>CoinGeckoProvider.getExtensionFromUrl\<close>; \<open>pathnameOf\<close> is \<^verbatim>\<open>new URL(url).pathname\<close>,
  \<open>None\<close> when the constructor throws.
\<close>

definition getExtensionFromUrl :: "(string \<Rightarrow> string option) \<Rightarrow> string \<Rightarrow> string" where
  "getExtensionFromUrl pathnameOf u =
     (case pathnameOf u of
        None \<Rightarrow> ''png''
      | Some pathname \<Rightarrow>
          (case pop (split CHR ''.'' pathname) of
             None \<Rightarrow> ''png''
           | Some e \<Rightarrow>
               if toLowerCase e \<in> set [''png'', ''jpg'', ''jpeg'', ''webp'', ''svg'']
               then toLowerCase e else ''png''))"

text \<open>The part of the response body that the provider reads: \<^verbatim>\<open>data.image?.large\<close>.\<close>

record CoinGeckoData =
  image_large :: "string option"

text \<open>
  \<^verbatim>\<open>CoinGeckoProvider.fetchImage\<close>, with the API key, the URL parser and the answer of
  \<^verbatim>\<open>fetch\<close> to a request; the promise is always fulfilled, with the value given here.
\<close>

definition CoinGeckoProvider_fetchImage ::
  "string \<Rightarrow> (string \<Rightarrow> string option) \<Rightarrow> (string \<Rightarrow> CoinGeckoData Response settled)
     \<Rightarrow> int \<Rightarrow> string \<Rightarrow> ImageResult option" where
  "CoinGeckoProvider_fetchImage apiKey pathnameOf fetch c a =
     (if apiKey = [] then None
      else (case chainIdToCoingeckoId c of
          None \<Rightarrow> None
        | Some coingeckoChainId \<Rightarrow>
            if coingeckoChainId = [] then None
            else (case fetch (''https://pro-api.coingecko.com/api/v3/coins'' @ ''/'' @ coingeckoChainId
                               @ ''/contract/'' @ toLowerCase a) of
                Rejected \<Rightarrow> None
              | Fulfilled response \<Rightarrow>
                  if \<not> ok response then None
                  else (case body response of
                      Rejected \<Rightarrow> None
                    | Fulfilled data \<Rightarrow>
                        if \<not> truthy (image_large data) then None
                        else Some \<lparr> url = image_large data, buffer = None,
                                    provider = ''coingecko'',
                                    extension = getExtensionFromUrl pathnameOf (the (image_large data)),
                                    path = None \<rparr>))))"

text \<open>The closed set of extensions of the specification, with \<^verbatim>\<open>jpeg\<close>.\<close>

definition closedExtensions :: "string list" where
  "closedExtensions = [''png'', ''jpg'', ''webp'', ''svg'', ''gif'', ''bmp'', ''ico'', ''tiff'', ''jpeg'']"


section \<open>The remote providers\<close>

text \<open>
  The private \<^verbatim>\<open>getExtensionFromUrl\<close> of the 1inch, Alchemy, Sim Dune, Pendle and token
  list providers: the switch of the CoinGecko provider with the case \<^verbatim>\<open>gif\<close> added; the
  value of the \<^verbatim>\<open>default\<close> branch and of the \<^verbatim>\<open>catch\<close> is \<open>fallback\<close>.
\<close>

definition getExtensionFromUrlOr :: "string \<Rightarrow> (string \<Rightarrow> string option) \<Rightarrow> string \<Rightarrow> string" where
  "getExtensionFromUrlOr fallback pathnameOf u =
     (case pathnameOf u of
        None \<Rightarrow> fallback
      | Some pathname \<Rightarrow>
          (case pop (split CHR ''.'' pathname) of
             None \<Rightarrow> fallback
           | Some e \<Rightarrow>
               if toLowerCase e \<in> set [''png'', ''jpg'', ''jpeg'', ''webp'', ''svg'', ''gif'']
               then toLowerCase e else fallback))"

text \<open>
  An entry of the \<^verbatim>\<open>cache\<close> map of a provider, and the test
  \<^verbatim>\<open>cached && (now - cached.timestamp) < this.cacheExpiry\<close> with the data it then returns.
\<close>

record 'a CacheEntry =
  cache_data :: 'a
  cache_timestamp :: int

definition cacheHit :: "int \<Rightarrow> int \<Rightarrow> 'a CacheEntry option \<Rightarrow> 'a option" where
  "cacheHit cacheExpiry now cached =
     (case cached of
        None \<Rightarrow> None
      | Some entry \<Rightarrow> if now - cache_timestamp entry < cacheExpiry then Some (cache_data entry) else None)"

subsection \<open>OneInchProvider (providers/oneinch-provider.ts)\<close>

text \<open>
  The field of \<^verbatim>\<open>OneInchToken\<close> that the provider reads. A \<^verbatim>\<open>OneInchTokenList\<close> is an
  object keyed by address, here the list of its entries in the order of
  \<^verbatim>\<open>Object.entries\<close>; the body of the response is such an object or something that fails
  the test \<^verbatim>\<open>!tokenList || typeof tokenList !== 'object'\<close>.
\<close>

record OneInchToken =
  oneInch_logoURI :: "string option"

type_synonym OneInchTokenList = "(string \<times> OneInchToken) list"

datatype OneInchJson = OneInchObject OneInchTokenList | OneInchNoObject

type_synonym OneInchCache = "int \<rightharpoonup> OneInchTokenList CacheEntry"

definition OneInchProvider_fetchTokenList ::
  "OneInchCache \<Rightarrow> int \<Rightarrow> (string \<Rightarrow> OneInchJson Response settled) \<Rightarrow> int
     \<Rightarrow> OneInchTokenList option \<times> OneInchCache" where
  "OneInchProvider_fetchTokenList cache now fetch c =
     (case cacheHit (5 * 60 * 1000) now (cache c) of
        Some theList \<Rightarrow> (Some theList, cache)
      | None \<Rightarrow>
          (case fetch (''https://tokens.1inch.io/v1.2'' @ ''/'' @ toString c) of
             Rejected \<Rightarrow> (None, cache)
           | Fulfilled response \<Rightarrow>
               if \<not> ok response then (None, cache)
               else (case body response of
                       Rejected \<Rightarrow> (None, cache)
                     | Fulfilled OneInchNoObject \<Rightarrow> (None, cache)
                     | Fulfilled (OneInchObject theList) \<Rightarrow>
                         (Some theList,
                          cache(c \<mapsto> \<lparr> cache_data = theList, cache_timestamp = now \<rparr>)))))"

text \<open>
  \<^verbatim>\<open>OneInchProvider.fetchImage\<close>, with the cache of the provider, the reading of the clock
  in \<^verbatim>\<open>fetchTokenList\<close>, the URL parser and the answer of \<^verbatim>\<open>fetch\<close>; the promise is always
  fulfilled, with the first component; the second is the cache afterwards.
\<close>

definition OneInchProvider_fetchImage ::
  "OneInchCache \<Rightarrow> int \<Rightarrow> (string \<Rightarrow> string option) \<Rightarrow> (string \<Rightarrow> OneInchJson Response settled)
     \<Rightarrow> int \<Rightarrow> string \<Rightarrow> ImageResult option \<times> OneInchCache" where
  "OneInchProvider_fetchImage cache now pathnameOf fetch c a =
     (if c \<in> set [239, 80094, 60808, 1923] then (None, cache)
      else (case OneInchProvider_fetchTokenList cache now fetch c of
          (None, cache') \<Rightarrow> (None, cache')
        | (Some theList, cache') \<Rightarrow>
            (let normalizedAddress = toLowerCase a;
                 token = (case map_of theList normalizedAddress of
                            Some exact \<Rightarrow> Some exact
                          | None \<Rightarrow>
                              map_option snd
                                (List.find (\<lambda>entry. toLowerCase (fst entry) = normalizedAddress)
                                   theList))
             in case token of
                  None \<Rightarrow> (None, cache')
                | Some found \<Rightarrow>
                    if \<not> truthy (oneInch_logoURI found) then (None, cache')
                    else (Some \<lparr> url = oneInch_logoURI found, buffer = None, provider = ''1inch'',
                                 extension = getExtensionFromUrlOr ''png'' pathnameOf
                                               (the (oneInch_logoURI found)),
                                 path = None \<rparr>, cache'))))"

subsection \<open>AlchemyProvider (providers/alchemy-provider.ts)\<close>

record AlchemyTokenMetadata =
  alchemy_logo :: "string option"

record AlchemyResponse =
  alchemy_result :: "AlchemyTokenMetadata option"
  alchemy_error :: "(int \<times> string) option"

definition chainIdToNetwork :: "int \<Rightarrow> string option" where
  "chainIdToNetwork =
     map_of [(1, ''eth-mainnet''), (42161, ''arb-mainnet''), (141, ''sonic-mainnet''),
             (80094, ''berachain-mainnet''), (5000, ''mantle-mainnet''), (59144, ''linea-mainnet''),
             (9745, ''plasma-mainnet''), (60808, ''bob-mainnet''), (999, ''hyperliquid-mainnet''),
             (8453, ''base-mainnet''), (43114, ''avax-mainnet''), (56, ''bnb-mainnet'')]"

text \<open>
  \<^verbatim>\<open>AlchemyProvider.fetchImage\<close>. The request is given to \<open>fetch\<close> by its URL, which is
  \<^verbatim>\<open>baseUrl\<close> with the network and the key filled in, and by the one parameter of its
  body, the lowercased address. The promise is always fulfilled, with the value given here.
\<close>

definition AlchemyProvider_fetchImage ::
  "string \<Rightarrow> (string \<Rightarrow> string option) \<Rightarrow> (string \<Rightarrow> string \<Rightarrow> AlchemyResponse Response settled)
     \<Rightarrow> int \<Rightarrow> string \<Rightarrow> ImageResult option" where
  "AlchemyProvider_fetchImage apiKey pathnameOf fetch c a =
     (if apiKey = [] then None
      else if c \<in> set [80094, 43114] then None
      else (case chainIdToNetwork c of
          None \<Rightarrow> None
        | Some network \<Rightarrow>
            if network = [] then None
            else (case fetch (''https://'' @ network @ ''.g.alchemy.com/v2/'' @ apiKey) (toLowerCase a) of
                Rejected \<Rightarrow> None
              | Fulfilled response \<Rightarrow>
                  if \<not> ok response then None
                  else (case body response of
                      Rejected \<Rightarrow> None
                    | Fulfilled data \<Rightarrow>
                        if alchemy_error data \<noteq> None then None
                        else (case alchemy_result data of
                            None \<Rightarrow> None
                          | Some metadata \<Rightarrow>
                              if \<not> truthy (alchemy_logo metadata) then None
                              else Some \<lparr> url = alchemy_logo metadata, buffer = None,
                                          provider = ''alchemy'',
                                          extension = getExtensionFromUrlOr ''png'' pathnameOf
                                                        (the (alchemy_logo metadata)),
                                          path = None \<rparr>)))))"

subsection \<open>SimDuneProvider (providers/sim-dune-provider.ts)\<close>

text \<open>
  The fields of \<^verbatim>\<open>SimDuneTokenInfo\<close> that the provider reads, and \<^verbatim>\<open>data.data\<close>, which is
  one such object or an array of them.
\<close>

record SimDuneTokenInfo =
  simDune_logo_uri :: "string option"
  simDune_chain_id :: "int option"

datatype SimDuneData = OneTokenInfo SimDuneTokenInfo | TokenInfoArray "SimDuneTokenInfo list"

record SimDuneResponse =
  simDune_data :: "SimDuneData option"
  simDune_error :: "string option"

text \<open>
  \<^verbatim>\<open>SimDuneProvider.fetchImage\<close>. \<^verbatim>\<open>new URL\<close> throws where \<open>pathnameOf\<close> is \<open>None\<close>; the
  request is given to \<open>fetch\<close> by \<^verbatim>\<open>url.toString()\<close>, written out for an address that
  needs no escaping. The promise is always fulfilled, with the value given here.
\<close>

definition SimDuneProvider_fetchImage ::
  "string \<Rightarrow> (string \<Rightarrow> string option) \<Rightarrow> (string \<Rightarrow> SimDuneResponse Response settled)
     \<Rightarrow> int \<Rightarrow> string \<Rightarrow> ImageResult option" where
  "SimDuneProvider_fetchImage apiKey pathnameOf fetch c a =
     (if apiKey = [] then None
      else (case pathnameOf (''https://api.sim.dune.com/v1/evm/token-info'' @ ''/'' @ toLowerCase a) of
          None \<Rightarrow> None
        | Some pathname \<Rightarrow>
            (case fetch (''https://api.sim.dune.com/v1/evm/token-info'' @ ''/'' @ toLowerCase a
                          @ ''?chain_ids='' @ toString c) of
               Rejected \<Rightarrow> None
             | Fulfilled response \<Rightarrow>
                 if \<not> ok response then None
                 else (case body response of
                     Rejected \<Rightarrow> None
                   | Fulfilled data \<Rightarrow>
                       if truthy (simDune_error data) then None
                       else (let tokenInfo =
                                   (case simDune_data data of
                                      None \<Rightarrow> None
                                    | Some (OneTokenInfo info) \<Rightarrow> Some info
                                    | Some (TokenInfoArray infos) \<Rightarrow>
                                        (case List.find (\<lambda>token. simDune_chain_id token = Some c) infos of
                                           Some info \<Rightarrow> Some info
                                         | None \<Rightarrow> (case infos of [] \<Rightarrow> None | info # _ \<Rightarrow> Some info)))
                             in case tokenInfo of
                                  None \<Rightarrow> None
                                | Some info \<Rightarrow>
                                    if \<not> truthy (simDune_logo_uri info) then None
                                    else Some \<lparr> url = simDune_logo_uri info, buffer = None,
                                                provider = ''sim-dune'',
                                                extension = getExtensionFromUrlOr ''png'' pathnameOf
                                                              (the (simDune_logo_uri info)),
                                                path = None \<rparr>)))))"

subsection \<open>PendleProvider (providers/pendle-provider.ts)\<close>

text \<open>
  The fields of \<^verbatim>\<open>PendleAsset\<close> that the provider reads; \<^verbatim>\<open>data.assets\<close> is \<open>None\<close> when
  it is missing or no array.
\<close>

record PendleAsset =
  pendle_address :: string
  pendle_proIcon :: "string option"

record PendleResponse =
  pendle_assets :: "PendleAsset list option"

type_synonym PendleCache = "int \<rightharpoonup> PendleAsset list CacheEntry"

definition PendleProvider_fetchPendleAssets ::
  "PendleCache \<Rightarrow> int \<Rightarrow> (string \<Rightarrow> PendleResponse Response settled) \<Rightarrow> int
     \<Rightarrow> PendleAsset list option \<times> PendleCache" where
  "PendleProvider_fetchPendleAssets cache now fetch c =
     (case cacheHit (5 * 60 * 1000) now (cache c) of
        Some assets \<Rightarrow> (Some assets, cache)
      | None \<Rightarrow>
          (case fetch (''https://api-v2.pendle.finance/core/v3'' @ ''/'' @ toString c @ ''/assets/all'') of
             Rejected \<Rightarrow> (None, cache)
           | Fulfilled response \<Rightarrow>
               if \<not> ok response then (None, cache)
               else (case body response of
                       Rejected \<Rightarrow> (None, cache)
                     | Fulfilled data \<Rightarrow>
                         (case pendle_assets data of
                            None \<Rightarrow> (None, cache)
                          | Some assets \<Rightarrow>
                              (Some assets,
                               cache(c \<mapsto> \<lparr> cache_data = assets, cache_timestamp = now \<rparr>))))))"

text \<open>
  \<^verbatim>\<open>PendleProvider.fetchImage\<close>; the promise is always fulfilled, with the first
  component; the second is the cache afterwards.
\<close>

definition PendleProvider_fetchImage ::
  "PendleCache \<Rightarrow> int \<Rightarrow> (string \<Rightarrow> string option) \<Rightarrow> (string \<Rightarrow> PendleResponse Response settled)
     \<Rightarrow> int \<Rightarrow> string \<Rightarrow> ImageResult option \<times> PendleCache" where
  "PendleProvider_fetchImage cache now pathnameOf fetch c a =
     (if c \<notin> set [1, 42161] then (None, cache)
      else (case PendleProvider_fetchPendleAssets cache now fetch c of
          (None, cache') \<Rightarrow> (None, cache')
        | (Some assets, cache') \<Rightarrow>
            (case List.find (\<lambda>x. toLowerCase (pendle_address x) = toLowerCase a) assets of
               None \<Rightarrow> (None, cache')
             | Some asset \<Rightarrow>
                 if \<not> truthy (pendle_proIcon asset) then (None, cache')
                 else (Some \<lparr> url = pendle_proIcon asset, buffer = None, provider = ''pendle'',
                              extension = getExtensionFromUrlOr ''svg'' pathnameOf
                                            (the (pendle_proIcon asset)),
                              path = None \<rparr>, cache'))))"

subsection \<open>TokenListProvider (providers/token-list-provider.ts)\<close>

text \<open>
  The fields of a token of a list that the provider reads. \<open>tokenList_bridgeInfo\<close> is
  \<^verbatim>\<open>t.extensions.bridgeInfo\<close>, \<open>None\<close> when \<^verbatim>\<open>extensions\<close> or \<^verbatim>\<open>bridgeInfo\<close> is missing;
  it maps the chain id, as a string, to the \<^verbatim>\<open>tokenAddress\<close> of its entry.
  \<open>tokenList_tokens\<close> is \<open>None\<close> when \<^verbatim>\<open>tokens\<close> is missing or no array.
\<close>

record TokenListToken =
  tokenList_chainId :: int
  tokenList_address :: string
  tokenList_logoURI :: "string option"
  tokenList_bridgeInfo :: "(string \<times> string option) list option"

record TokenList =
  tokenList_name :: string
  tokenList_tokens :: "TokenListToken list option"

type_synonym TokenListCache = "string \<rightharpoonup> TokenList CacheEntry"

definition TokenListProvider_fetchTokenList ::
  "TokenListCache \<Rightarrow> int \<Rightarrow> (string \<Rightarrow> TokenList Response settled) \<Rightarrow> string
     \<Rightarrow> TokenList option \<times> TokenListCache" where
  "TokenListProvider_fetchTokenList cache now fetch listUrl =
     (case cacheHit (1 * 60 * 1000) now (cache listUrl) of
        Some theList \<Rightarrow> (Some theList, cache)
      | None \<Rightarrow>
          (case fetch listUrl of
             Rejected \<Rightarrow> (None, cache)
           | Fulfilled response \<Rightarrow>
               if \<not> ok response then (None, cache)
               else (case body response of
                       Rejected \<Rightarrow> (None, cache)
                     | Fulfilled theList \<Rightarrow>
                         if tokenList_tokens theList = None then (None, cache)
                         else (Some theList,
                               cache(listUrl \<mapsto> \<lparr> cache_data = theList, cache_timestamp = now \<rparr>)))))"

text \<open>The predicate of \<^verbatim>\<open>tokenList.tokens.find\<close> in \<^verbatim>\<open>fetchImage\<close>.\<close>

definition tokenMatches :: "int \<Rightarrow> string \<Rightarrow> TokenListToken \<Rightarrow> bool" where
  "tokenMatches c a t =
     (if tokenList_chainId t = c \<and> toLowerCase (tokenList_address t) = toLowerCase a
         \<and> truthy (tokenList_logoURI t)
      then True
      else (case tokenList_bridgeInfo t of
              None \<Rightarrow> False
            | Some bridgeInfo \<Rightarrow>
                (case map_of bridgeInfo (toString c) of
                   None \<Rightarrow> False
                 | Some tokenAddress \<Rightarrow>
                     (case tokenAddress of
                        None \<Rightarrow> False
                      | Some bridged \<Rightarrow> toLowerCase bridged = toLowerCase a)
                     \<and> truthy (tokenList_logoURI t))))"

text \<open>
  The loop of \<^verbatim>\<open>TokenListProvider.fetchImage\<close> over the remaining list URLs, in its
  \<open>i\<close>-th turn; \<open>clock i\<close> is the reading of the clock in the \<open>i\<close>-th call of
  \<^verbatim>\<open>fetchTokenList\<close>. Reading \<^verbatim>\<open>tokens\<close> of a list that has none throws, which the
  \<^verbatim>\<open>catch\<close> around the loop turns into \<^verbatim>\<open>null\<close>.
\<close>

fun TokenListProvider_loop ::
  "TokenListCache \<Rightarrow> (nat \<Rightarrow> int) \<Rightarrow> (string \<Rightarrow> string option)
     \<Rightarrow> (string \<Rightarrow> TokenList Response settled) \<Rightarrow> string list \<Rightarrow> nat \<Rightarrow> int \<Rightarrow> string
     \<Rightarrow> ImageResult option \<times> TokenListCache" where
  "TokenListProvider_loop cache clock pathnameOf fetch [] i c a = (None, cache)"
| "TokenListProvider_loop cache clock pathnameOf fetch (listUrl # rest) i c a =
     (case TokenListProvider_fetchTokenList cache (clock i) fetch listUrl of
        (None, cache') \<Rightarrow> TokenListProvider_loop cache' clock pathnameOf fetch rest (i + 1) c a
      | (Some theList, cache') \<Rightarrow>
          (case tokenList_tokens theList of
             None \<Rightarrow> (None, cache')
           | Some listed \<Rightarrow>
               (case List.find (tokenMatches c a) listed of
                  None \<Rightarrow> TokenListProvider_loop cache' clock pathnameOf fetch rest (i + 1) c a
                | Some token \<Rightarrow>
                    if \<not> truthy (tokenList_logoURI token)
                    then TokenListProvider_loop cache' clock pathnameOf fetch rest (i + 1) c a
                    else (Some \<lparr> url = tokenList_logoURI token, buffer = None,
                                 provider = ''token-lists'',
                                 extension = getExtensionFromUrlOr ''png'' pathnameOf
                                               (the (tokenList_logoURI token)),
                                 path = None \<rparr>, cache'))))"

text \<open>
  \<^verbatim>\<open>TokenListProvider.fetchImage\<close> of a provider with the list URLs \<open>tokenListUrls\<close>;
  the promise is always fulfilled, with the first component; the second is the cache
  afterwards.
\<close>

definition TokenListProvider_fetchImage ::
  "string list \<Rightarrow> TokenListCache \<Rightarrow> (nat \<Rightarrow> int) \<Rightarrow> (string \<Rightarrow> string option)
     \<Rightarrow> (string \<Rightarrow> TokenList Response settled) \<Rightarrow> int \<Rightarrow> string
     \<Rightarrow> ImageResult option \<times> TokenListCache" where
  "TokenListProvider_fetchImage tokenListUrls cache clock pathnameOf fetch c a =
     TokenListProvider_loop cache clock pathnameOf fetch tokenListUrls 0 c a"

section \<open>The providers that the manager registers\<close>

text \<open>
  What the eight providers of the \<^verbatim>\<open>ImageProviderManager\<close> read when they are called: the
  files, the API keys, the caches, the clock, the answers of the network, the bucket, and
  for the \<^verbatim>\<open>PendlePTUnderlyingProvider\<close> the settlements of \<^verbatim>\<open>isPendlePT\<close> and
  \<^verbatim>\<open>getUnderlyingAssetAddress\<close>. \<open>env_latency\<close> gives, by provider name, the time after
  which a fetch settles. The class \<^verbatim>\<open>LocalImagesProvider\<close> declares no \<^verbatim>\<open>isAvailable\<close>;
  what the manager's call of it yields is \<open>env_localAvailable\<close>. \<open>env_tokenListUrls\<close> is
  the list of the \<^verbatim>\<open>TokenListProvider\<close>, which \<^verbatim>\<open>addTokenList\<close> extends.
\<close>

record Environment =
  env_latency :: "string \<Rightarrow> nat"
  env_pathnameOf :: "string \<Rightarrow> string option"
  env_now :: int
  env_clock :: "nat \<Rightarrow> int"
  env_localAvailable :: bool
  env_baseImagePath :: string
  env_fileSystem :: FileSystem
  env_coingeckoKey :: string
  env_coingeckoFetch :: "string \<Rightarrow> CoinGeckoData Response settled"
  env_oneInchCache :: OneInchCache
  env_oneInchFetch :: "string \<Rightarrow> OneInchJson Response settled"
  env_alchemyKey :: string
  env_alchemyFetch :: "string \<Rightarrow> string \<Rightarrow> AlchemyResponse Response settled"
  env_simDuneKey :: string
  env_simDuneFetch :: "string \<Rightarrow> SimDuneResponse Response settled"
  env_pendleCache :: PendleCache
  env_pendleFetch :: "string \<Rightarrow> PendleResponse Response settled"
  env_tokenListUrls :: "string list"
  env_tokenListCache :: TokenListCache
  env_tokenListFetch :: "string \<Rightarrow> TokenList Response settled"
  env_isPendlePT :: "int \<Rightarrow> string \<Rightarrow> bool promise"
  env_getUnderlyingAssetAddress :: "int \<Rightarrow> string \<Rightarrow> string option promise"
  env_s3 :: S3
  env_sendFails :: bool

text \<open>
  The eight provider objects that the constructor of the manager creates, each with its
  name, what its \<^verbatim>\<open>isAvailable()\<close> returns and its \<^verbatim>\<open>fetchImage\<close>; the last one has its
  callback set by the constructor.
\<close>

definition LocalImagesProvider :: "Environment \<Rightarrow> ImageProvider" where
  "LocalImagesProvider env =
     Direct ''local'' (env_localAvailable env)
       (\<lambda>c a. (env_latency env ''local'',
                Fulfilled (LocalImagesProvider_fetchImage (env_baseImagePath env)
                             (env_fileSystem env) c a)))"

definition CoinGeckoProvider :: "Environment \<Rightarrow> ImageProvider" where
  "CoinGeckoProvider env =
     Direct ''coingecko'' (env_coingeckoKey env \<noteq> [])
       (\<lambda>c a. (env_latency env ''coingecko'',
                Fulfilled (CoinGeckoProvider_fetchImage (env_coingeckoKey env)
                             (env_pathnameOf env) (env_coingeckoFetch env) c a)))"

definition OneInchProvider :: "Environment \<Rightarrow> ImageProvider" where
  "OneInchProvider env =
     Direct ''1inch'' True
       (\<lambda>c a. (env_latency env ''1inch'',
                Fulfilled (fst (OneInchProvider_fetchImage (env_oneInchCache env) (env_now env)
                                  (env_pathnameOf env) (env_oneInchFetch env) c a))))"

definition AlchemyProvider :: "Environment \<Rightarrow> ImageProvider" where
  "AlchemyProvider env =
     Direct ''alchemy'' (env_alchemyKey env \<noteq> [])
       (\<lambda>c a. (env_latency env ''alchemy'',
                Fulfilled (AlchemyProvider_fetchImage (env_alchemyKey env)
                             (env_pathnameOf env) (env_alchemyFetch env) c a)))"

definition SimDuneProvider :: "Environment \<Rightarrow> ImageProvider" where
  "SimDuneProvider env =
     Direct ''sim-dune'' (env_simDuneKey env \<noteq> [])
       (\<lambda>c a. (env_latency env ''sim-dune'',
                Fulfilled (SimDuneProvider_fetchImage (env_simDuneKey env)
                             (env_pathnameOf env) (env_simDuneFetch env) c a)))"

definition PendleProvider :: "Environment \<Rightarrow> ImageProvider" where
  "PendleProvider env =
     Direct ''pendle'' True
       (\<lambda>c a. (env_latency env ''pendle'',
                Fulfilled (fst (PendleProvider_fetchImage (env_pendleCache env) (env_now env)
                                  (env_pathnameOf env) (env_pendleFetch env) c a))))"

definition TokenListProvider :: "Environment \<Rightarrow> ImageProvider" where
  "TokenListProvider env =
     Direct ''token-lists'' True
       (\<lambda>c a. (env_latency env ''token-lists'',
                Fulfilled (fst (TokenListProvider_fetchImage (env_tokenListUrls env)
                                  (env_tokenListCache env) (env_clock env) (env_pathnameOf env)
                                  (env_tokenListFetch env) c a))))"

definition PendlePTUnderlyingProvider :: "Environment \<Rightarrow> ImageProvider" where
  "PendlePTUnderlyingProvider env =
     PendlePTUnderlying True (env_isPendlePT env) (env_getUnderlyingAssetAddress env)
       (\<lambda>c a. (env_latency env ''pendle-pt-underlying'',
                Fulfilled (getImageFromS3 (env_s3 env) (env_sendFails env) c a)))"

text \<open>
  \<^verbatim>\<open>this.providers\<close> after the constructor of the manager: Local, CoinGecko, 1inch,
  Alchemy, Sim Dune, Pendle, token lists and, last, the \<^verbatim>\<open>PendlePTUnderlyingProvider\<close>.
\<close>

definition providers :: "Environment \<Rightarrow> ImageProvider list" where
  "providers env =
     [LocalImagesProvider env, CoinGeckoProvider env, OneInchProvider env, AlchemyProvider env,
      SimDuneProvider env, PendleProvider env, TokenListProvider env,
      PendlePTUnderlyingProvider env]"

text \<open>The extensions that the switches of the remote providers let through.\<close>

definition remoteExtensions :: "string list" where
  "remoteExtensions = [''png'', ''jpg'', ''jpeg'', ''webp'', ''svg'', ''gif'']"
text \<open>Concrete providers for the examples below.\<close>

definition localResult :: ImageResult where
  "localResult = \<lparr> url = None, buffer = Some [137, 80, 78, 71], provider = ''local'',
     extension = ''png'', path = Some ''images/1/0xabc/image.png'' \<rparr>"

definition coingeckoResult :: ImageResult where
  "coingeckoResult = \<lparr> url = Some ''https://assets.example/abc.png'', buffer = None,
     provider = ''coingecko'', extension = ''png'', path = None \<rparr>"

definition slowLocal :: ImageProvider where
  "slowLocal = Direct ''local'' True (\<lambda>c a. (900, Fulfilled (Some localResult)))"

definition fastCoingecko :: ImageProvider where
  "fastCoingecko = Direct ''coingecko'' True (\<lambda>c a. (10, Fulfilled (Some coingeckoResult)))"

definition throwingProvider :: ImageProvider where
  "throwingProvider = Direct ''alchemy'' True (\<lambda>c a. (5, Rejected))"

definition underlyingOnlyCoingecko :: ImageProvider where
  "underlyingOnlyCoingecko = Direct ''coingecko'' True
     (\<lambda>c a. (10, Fulfilled (if a = ''0xunderlying'' then Some coingeckoResult else None)))"

definition storedUnderlying :: StoredImage where
  "storedUnderlying = \<lparr> stored_buffer = [1, 2, 3], stored_contentType = ''image/webp'',
     stored_extension = Some ''webp'' \<rparr>"

definition ptWithStoredUnderlying :: ImageProvider where
  "ptWithStoredUnderlying = PendlePTUnderlying True
     (\<lambda>c a. (1, Fulfilled (a = ''0xpt'')))
     (\<lambda>c a. (2, Fulfilled (Some ''0xunderlying'')))
     (\<lambda>c a. (3, Fulfilled (Some storedUnderlying)))"

definition ptOfPt :: ImageProvider where
  "ptOfPt = PendlePTUnderlying True
     (\<lambda>c a. (1, Fulfilled True))
     (\<lambda>c a. (2, Fulfilled (Some ''0xunderlying'')))
     (\<lambda>c a. (3, Fulfilled None))"


text \<open>Concrete tokens, environments and service states for the examples below.\<close>

definition downloadsFine :: TokenWorld where
  "downloadsFine = \<lparr> storageCheck = Fulfilled False, localCheck = Fulfilled None,
     localImage = Fulfilled None, migrationUpload = Fulfilled True, migrationSettledAt = 0,
     resolved = Fulfilled (Some coingeckoResult),
     imageFetch = Fulfilled \<lparr> ok = True, body = Fulfilled [1, 2, 3] \<rparr>,
     downloadUpload = Fulfilled True \<rparr>"

definition uploadFails :: TokenWorld where
  "uploadFails = downloadsFine\<lparr> downloadUpload := Fulfilled False \<rparr>"

definition urlFetchFails :: TokenWorld where
  "urlFetchFails = downloadsFine\<lparr> imageFetch := Rejected \<rparr>"

definition urlNotFound :: TokenWorld where
  "urlNotFound = downloadsFine\<lparr> imageFetch := Fulfilled \<lparr> ok = False, body = Fulfilled [] \<rparr> \<rparr>"

definition fourMissing :: "(TokenRef \<times> TokenWorld) list" where
  "fourMissing =
     [(\<lparr> ref_chainId = 1, ref_address = ''0xa1'' \<rparr>, downloadsFine),
      (\<lparr> ref_chainId = 1, ref_address = ''0xb2'' \<rparr>, urlFetchFails),
      (\<lparr> ref_chainId = 1, ref_address = ''0xc3'' \<rparr>, urlNotFound),
      (\<lparr> ref_chainId = 1, ref_address = ''0xd4'' \<rparr>, downloadsFine)]"

definition threeTokens :: "TokenInfo list" where
  "threeTokens =
     [\<lparr> address = ''0xA1'', symbol = ''AAA'', token_name = ''Token A'', decimals = 18 \<rparr>,
      \<lparr> address = ''0xb2'', symbol = ''BBB'', token_name = ''Token B'', decimals = 18 \<rparr>,
      \<lparr> address = ''0xC3'', symbol = ''CCC'', token_name = ''Token C'', decimals = 6 \<rparr>]"

definition threeMissing :: "(TokenRef \<times> TokenWorld) list" where
  "threeMissing =
     [(\<lparr> ref_chainId = 1, ref_address = ''0xa1'' \<rparr>, downloadsFine),
      (\<lparr> ref_chainId = 1, ref_address = ''0xb2'' \<rparr>, uploadFails),
      (\<lparr> ref_chainId = 1, ref_address = ''0xc3'' \<rparr>, downloadsFine)]"

definition exampleWorld :: SyncWorld where
  "exampleWorld = \<lparr> storageMode = ''s3'', hasLocalProvider = True,
     registry = Fulfilled \<lparr> ok = True, body = Fulfilled (TokenArray threeTokens) \<rparr>,
     typeErrorMessage = ''null is not an object'',
     tokenWorld = (\<lambda>i. if i = 1 then uploadFails else downloadsFine),
     now_performSync = 1000, now_duration = 5000, now_endTime = 5001 \<rparr>"

definition emptyWorld :: SyncWorld where
  "emptyWorld = exampleWorld\<lparr> registry := Fulfilled \<lparr> ok = False, body = Rejected \<rparr> \<rparr>"

definition clockSetBack :: SyncWorld where
  "clockSetBack = exampleWorld\<lparr> registry := Fulfilled \<lparr> ok = True, body = Fulfilled (TokenArray []) \<rparr>,
     now_performSync := 5000, now_duration := 1000 \<rparr>"

definition noSyncYet :: SyncService where
  "noSyncYet = \<lparr> syncStatuses = Map.empty, pending = [] \<rparr>"

definition emptyResult :: SyncResult where
  "emptyResult = \<lparr> result_chainId = 999, totalTokens = 0, existingImages = 0,
     migratedFromLocal = 0, downloadedImages = 0, failedDownloads = 0,
     duration = 4000, details = [] \<rparr>"

definition completedEmpty :: SyncStatus where
  "completedEmpty = \<lparr> chainId = 999, status = Completed, startTime = 1000,
     endTime = Some 5001,
     progress = Some \<lparr> phase = ''fetching tokens'', current = 0, total = 1 \<rparr>,
     result = Some emptyResult, error = None,
     remainingTime = Some 60000 \<rparr>"

definition afterEmptySync :: SyncService where
  "afterEmptySync = \<lparr> syncStatuses = [999 \<mapsto> completedEmpty], pending = [] \<rparr>"

definition emptyBucket :: S3 where
  "emptyBucket = \<lparr> s3Client = True, bucket = Map.empty \<rparr>"

definition migrationMetadata :: UploadMetadata where
  "migrationMetadata = \<lparr> meta_provider = ''local-migration'',
     meta_downloadDate = ''2025-01-01T00:00:00.000Z'',
     meta_originalUrl = Some ''images/1/0xabc/image.png'' \<rparr>"

definition mixedCaseTokens :: "TokenInfo list" where
  "mixedCaseTokens =
     [\<lparr> address = ''0xABC'', symbol = ''ABC'', token_name = ''Token'', decimals = 18 \<rparr>,
      \<lparr> address = ''0xabc'', symbol = ''ABC'', token_name = ''Token'', decimals = 18 \<rparr>]"

definition textFileSystem :: FileSystem where
  "textFileSystem = \<lparr> existsSync = (\<lambda>dir. True),
     readdir = (\<lambda>dir. Fulfilled [''metadata.json'', ''image.txt'']),
     readFile = (\<lambda>file. Fulfilled [104, 105]) \<rparr>"

definition pngFileSystem :: FileSystem where
  "pngFileSystem = \<lparr> existsSync = (\<lambda>dir. True),
     readdir = (\<lambda>dir. Fulfilled [''image.png'']),
     readFile = (\<lambda>file. Fulfilled [137, 80, 78, 71]) \<rparr>"
text \<open>Concrete environments of the providers for the examples below.\<close>

definition quietEnvironment :: Environment where
  "quietEnvironment = \<lparr>
     env_latency = (\<lambda>n. 10),
     env_pathnameOf = (\<lambda>u. Some ''/abc.png''),
     env_now = 1000,
     env_clock = (\<lambda>i. 1000),
     env_localAvailable = True,
     env_baseImagePath = ''images'',
     env_fileSystem = \<lparr> existsSync = (\<lambda>dir. False), readdir = (\<lambda>dir. Rejected),
                         readFile = (\<lambda>file. Rejected) \<rparr>,
     env_coingeckoKey = [],
     env_coingeckoFetch = (\<lambda>request. Rejected),
     env_oneInchCache = Map.empty,
     env_oneInchFetch = (\<lambda>request. Rejected),
     env_alchemyKey = [],
     env_alchemyFetch = (\<lambda>request param. Rejected),
     env_simDuneKey = [],
     env_simDuneFetch = (\<lambda>request. Rejected),
     env_pendleCache = Map.empty,
     env_pendleFetch = (\<lambda>request. Rejected),
     env_tokenListUrls = [''https://tokens.uniswap.org/''],
     env_tokenListCache = Map.empty,
     env_tokenListFetch = (\<lambda>request. Rejected),
     env_isPendlePT = (\<lambda>c a. (1, Fulfilled (a = ''0xpt''))),
     env_getUnderlyingAssetAddress = (\<lambda>c a. (2, Fulfilled (Some ''0xABC''))),
     env_s3 = emptyBucket,
     env_sendFails = False \<rparr>"

definition coingeckoEnvironment :: Environment where
  "coingeckoEnvironment = quietEnvironment\<lparr>
     env_coingeckoKey := ''key'',
     env_coingeckoFetch := (\<lambda>request. Fulfilled \<lparr> ok = True,
        body = Fulfilled \<lparr> image_large = Some ''https://assets.example/abc.png'' \<rparr> \<rparr>) \<rparr>"

definition pngEnvironment :: Environment where
  "pngEnvironment = coingeckoEnvironment\<lparr> env_fileSystem := pngFileSystem \<rparr>"

definition textEnvironment :: Environment where
  "textEnvironment = quietEnvironment\<lparr> env_fileSystem := textFileSystem \<rparr>"

definition textResult :: ImageResult where
  "textResult = \<lparr> url = None, buffer = Some [104, 105], provider = ''local'', extension = ''txt'',
     path = Some ''images/1/0xabc/image.txt'' \<rparr>"

definition textMigration :: UploadMetadata where
  "textMigration = \<lparr> meta_provider = ''local-migration'',
     meta_downloadDate = ''2025-01-01T00:00:00.000Z'',
     meta_originalUrl = Some ''images/1/0xabc/image.txt'' \<rparr>"

definition migratedEnvironment :: Environment where
  "migratedEnvironment = quietEnvironment\<lparr>
     env_s3 := snd (uploadImageToS3 emptyBucket False 1 ''0xABC'' [104, 105] ''txt'' textMigration) \<rparr>"
section \<open>Auxiliary facts about the fan-out\<close>

lemma providerPromise_snd:
  "snd (providerPromise p (provider_fetchImage ps p c a)) = Fulfilled (answer ps c a p, name p)"
  by (auto simp: providerPromise_def answer_def split: prod.splits settled.splits)

lemma providerPromise_fst:
  "isAvailable p \<Longrightarrow> fst (providerPromise p f) = fst f"
  by (auto simp: providerPromise_def split: prod.splits settled.splits)

lemma Promise_all_Fulfilled:
  "Promise_all (map (\<lambda>q. (t q, Fulfilled (v q))) qs) = (foldr max (map t qs) 0, Fulfilled (map v qs))"
  by (induction qs) simp_all

lemma foldr_max_ge: "x \<in> set ts \<Longrightarrow> (x::nat) \<le> foldr max ts 0"
  by (induction ts) auto

lemma firstResult_find:
  "firstResult (map (\<lambda>p. (f p, n p)) ps) =
     (case List.find (\<lambda>p. f p \<noteq> None) ps of None \<Rightarrow> None | Some p \<Rightarrow> f p)"
proof (induction ps)
  case Nil
  show ?case by simp
next
  case (Cons p ps)
  then show ?case by (cases "f p") simp_all
qed

lemma fanOut_eq:
  "Promise_all (map (\<lambda>p. providerPromise p (provider_fetchImage ps p c a)) qs) =
     (foldr max (map (\<lambda>p. fst (providerPromise p (provider_fetchImage ps p c a))) qs) 0,
      Fulfilled (map (\<lambda>p. (answer ps c a p, name p)) qs))"
proof -
  have "(\<lambda>p. providerPromise p (provider_fetchImage ps p c a)) =
        (\<lambda>p. (fst (providerPromise p (provider_fetchImage ps p c a)),
              Fulfilled (answer ps c a p, name p)))"
    by (rule ext) (simp add: prod_eq_iff providerPromise_snd)
  then show ?thesis
    using Promise_all_Fulfilled[of "\<lambda>p. fst (providerPromise p (provider_fetchImage ps p c a))"
        "\<lambda>p. (answer ps c a p, name p)" qs]
    by simp
qed

lemma fetchImage_eq:
  "fetchImage ps c a =
     (foldr max (map (\<lambda>p. fst (providerPromise p (provider_fetchImage ps p c a))) ps) 0,
      Fulfilled (case List.find (\<lambda>p. answer ps c a p \<noteq> None) ps of
                   None \<Rightarrow> None | Some p \<Rightarrow> answer ps c a p))"
  by (simp add: fetchImage_def fanOut_eq firstResult_find)

lemma fetchImageForUnderlying_eq:
  "fetchImageForUnderlying ps c a =
     (foldr max (map (\<lambda>p. fst (providerPromise p (provider_fetchImage ps p c a))) (providersForUnderlying ps)) 0,
      Fulfilled (case List.find (\<lambda>p. answer ps c a p \<noteq> None) (providersForUnderlying ps) of
                   None \<Rightarrow> None | Some p \<Rightarrow> answer ps c a p))"
  by (simp add: fanOut_eq firstResult_find)

lemma fetchImage_waits:
  assumes "p \<in> set ps" "isAvailable p"
  shows "fst (provider_fetchImage ps p c a) \<le> fst (fetchImage ps c a)"
proof -
  have "fst (providerPromise p (provider_fetchImage ps p c a))
          \<in> set (map (\<lambda>p. fst (providerPromise p (provider_fetchImage ps p c a))) ps)"
    using assms(1) by (simp add: image_iff) blast
  then have "fst (providerPromise p (provider_fetchImage ps p c a)) \<le> fst (fetchImage ps c a)"
    unfolding fetchImage_eq fst_conv by (rule foldr_max_ge)
  then show ?thesis using assms(2) by (simp add: providerPromise_fst)
qed

lemma find_least:
  assumes "i < length ps" "f (ps ! i) = Some r" "\<And>k. k < i \<Longrightarrow> f (ps ! k) = None"
  shows "(case List.find (\<lambda>p. f p \<noteq> None) ps of None \<Rightarrow> None | Some p \<Rightarrow> f p) = Some r"
  using assms
proof (induction ps arbitrary: i)
  case Nil
  then show ?case by simp
next
  case (Cons p ps)
  show ?case
  proof (cases i)
    case 0
    then show ?thesis using Cons.prems by simp
  next
    case (Suc j)
    have "f p = None" using Cons.prems(3)[of 0] Suc by simp
    moreover have "(case List.find (\<lambda>p. f p \<noteq> None) ps of None \<Rightarrow> None | Some p \<Rightarrow> f p) = Some r"
    proof (rule Cons.IH[of j])
      show "j < length ps" using Cons.prems(1) Suc by simp
      show "f (ps ! j) = Some r" using Cons.prems(2) Suc by simp
      show "\<And>k. k < j \<Longrightarrow> f (ps ! k) = None" using Cons.prems(3)[of "Suc _"] Suc by simp
    qed
    ultimately show ?thesis by simp
  qed
qed

lemma find_None_iff:
  "(case List.find (\<lambda>p. f p \<noteq> None) ps of None \<Rightarrow> None | Some p \<Rightarrow> f p) = None
     \<longleftrightarrow> (\<forall>p\<in>set ps. f p = None)"
  by (induction ps) auto

lemma name_withLatency: "name (withLatency d p) = name p"
  by (cases p) simp_all

lemma isAvailable_withLatency: "isAvailable (withLatency d p) = isAvailable p"
  by (cases p) simp_all

lemma providersForUnderlying_withLatency:
  "providersForUnderlying (map (\<lambda>p. withLatency (lat p) p) ps) =
     map (\<lambda>p. withLatency (lat p) p) (providersForUnderlying ps)"
  by (simp add: providersForUnderlying_def filter_map comp_def name_withLatency)

lemma fetchImageForUnderlying_snd:
  "snd (fetchImageForUnderlying ps c a) =
     Fulfilled (firstResult (map (\<lambda>p. (answer ps c a p, name p)) (providersForUnderlying ps)))"
  by (simp add: fanOut_eq)

lemma fetchImage_snd:
  "snd (fetchImage ps c a) = Fulfilled (firstResult (map (\<lambda>p. (answer ps c a p, name p)) ps))"
  by (simp add: fetchImage_def fanOut_eq)

lemma withLatency_values:
  "snd (provider_fetchImage (map (\<lambda>p. withLatency (lat p) p) ps) (withLatency d p) c a) =
     snd (provider_fetchImage ps p c a)"
  "snd (fetchImageForUnderlying (map (\<lambda>p. withLatency (lat p) p) ps) c a) =
     snd (fetchImageForUnderlying ps c a)"
proof (induction ps p c a and ps c a arbitrary: d rule: provider_fetchImage_fetchImageForUnderlying.induct)
  case (1 ps n available fetch cid addr)
  show ?case by simp
next
  case (2 ps cb isPendlePT getUnderlyingAssetAddress storedLookup cid addr)
  show ?case
  proof (cases "cb")
    case False
    then show ?thesis by simp
  next
    case cb: True
    obtain t1 s1 where o1: "isPendlePT cid addr = (t1, s1)" by (cases "isPendlePT cid addr")
    obtain t2 s2 where o2: "getUnderlyingAssetAddress cid addr = (t2, s2)"
      by (cases "getUnderlyingAssetAddress cid addr")
    show ?thesis
    proof (cases s1)
      case Rejected
      then show ?thesis using cb o1 by simp
    next
      case (Fulfilled isPT)
      note s1 = this
      show ?thesis
      proof (cases isPT)
        case False
        then show ?thesis using cb o1 s1 by simp
      next
        case isPT: True
        show ?thesis
        proof (cases s2)
          case Rejected
          then show ?thesis using cb o1 s1 isPT o2 by simp
        next
          case (Fulfilled u)
          note s2 = this
          show ?thesis
          proof (cases u)
            case None
            then show ?thesis using cb o1 s1 isPT o2 s2 by simp
          next
            case (Some underlyingAddress)
            note u = this
            obtain t3 s3 where o3: "storedLookup cid underlyingAddress = (t3, s3)"
              by (cases "storedLookup cid underlyingAddress")
            show ?thesis
            proof (cases "underlyingAddress = []")
              case True
              then show ?thesis using cb o1 s1 isPT o2 s2 u by simp
            next
              case ne: False
              show ?thesis
              proof (cases s3)
                case Rejected
                then show ?thesis using cb o1 s1 isPT o2 s2 u ne o3 by simp
              next
                case (Fulfilled img)
                note s3 = this
                show ?thesis
                proof (cases img)
                  case (Some existingImage)
                  then show ?thesis using cb o1 s1 isPT o2 s2 u ne o3 s3 by simp
                next
                  case None
                  have IH: "snd (fetchImageForUnderlying (map (\<lambda>p. withLatency (lat p) p) ps) cid underlyingAddress) =
                            snd (fetchImageForUnderlying ps cid underlyingAddress)"
                    using "2.IH" cb o1 s1 isPT o2 s2 u ne o3 s3 None by simp
                  obtain t4 s4 where o4: "fetchImageForUnderlying ps cid underlyingAddress = (t4, s4)"
                    by (cases "fetchImageForUnderlying ps cid underlyingAddress")
                  obtain t4' where o4': "fetchImageForUnderlying (map (\<lambda>p. withLatency (lat p) p) ps) cid underlyingAddress = (t4', s4)"
                    using IH o4 by (cases "fetchImageForUnderlying (map (\<lambda>p. withLatency (lat p) p) ps) cid underlyingAddress") simp
                  show ?thesis using cb o1 s1 isPT o2 s2 u ne o3 s3 None o4 o4'
                    by (simp split: settled.splits option.splits)
                qed
              qed
            qed
          qed
        qed
      qed
    qed
  qed
next
  case (3 ps cid addr)
  have eq: "map (\<lambda>p. (answer (map (\<lambda>p. withLatency (lat p) p) ps) cid addr (withLatency (lat p) p),
                   name (withLatency (lat p) p))) (providersForUnderlying ps) =
        map (\<lambda>p. (answer ps cid addr p, name p)) (providersForUnderlying ps)"
  proof (rule map_cong[OF refl])
    fix p assume "p \<in> set (providersForUnderlying ps)"
    from "3.IH"[OF this]
    show "(answer (map (\<lambda>p. withLatency (lat p) p) ps) cid addr (withLatency (lat p) p),
           name (withLatency (lat p) p)) = (answer ps cid addr p, name p)"
      by (simp add: answer_def name_withLatency isAvailable_withLatency)
  qed
  show ?case
    unfolding fetchImageForUnderlying_snd providersForUnderlying_withLatency map_map comp_def
    by (simp only: eq)
qed

lemma answer_withLatency:
  "answer (map (\<lambda>p. withLatency (lat p) p) ps) c a (withLatency d p) = answer ps c a p"
  by (simp add: answer_def isAvailable_withLatency withLatency_values(1))

lemma fetchImage_withLatency:
  "snd (fetchImage (map (\<lambda>p. withLatency (lat p) p) ps) c a) = snd (fetchImage ps c a)"
  by (simp add: fetchImage_snd comp_def answer_withLatency name_withLatency)

lemma providersForUnderlying_Direct:
  assumes "q \<in> set (providersForUnderlying ps)"
  shows "name q \<noteq> ''pendle-pt-underlying'' \<and>
         (\<exists>n available fetch. q = Direct n available fetch \<and>
            provider_fetchImage qs q c a = fetch c a)"
proof -
  from assms have n: "name q \<noteq> ''pendle-pt-underlying''"
    by (simp add: providersForUnderlying_def)
  then show ?thesis by (cases q) simp_all
qed

lemma direct_fetch_any_manager:
  "q \<in> set (providersForUnderlying ps) \<Longrightarrow>
     provider_fetchImage ps q c a = provider_fetchImage qs q c a"
  using providersForUnderlying_Direct[of q ps ps c a] providersForUnderlying_Direct[of q ps qs c a]
  by auto

lemma fetchImageForUnderlying_is_fetchImage:
  "fetchImageForUnderlying ps c a = fetchImage (providersForUnderlying ps) c a"
proof -
  have "map (\<lambda>p. providerPromise p (provider_fetchImage ps p c a)) (providersForUnderlying ps) =
        map (\<lambda>p. providerPromise p (provider_fetchImage (providersForUnderlying ps) p c a))
            (providersForUnderlying ps)"
    by (rule map_cong[OF refl]) (simp add: direct_fetch_any_manager[of _ ps c a "providersForUnderlying ps"])
  then show ?thesis
    by (simp only: fetchImageForUnderlying.simps fetchImage_def)
qed

lemma find_Some_member:
  "(case List.find (\<lambda>p. f p \<noteq> None) xs of None \<Rightarrow> None | Some p \<Rightarrow> f p) = Some r
     \<Longrightarrow> \<exists>p\<in>set xs. f p = Some r"
  by (induction xs) (auto split: if_splits)

lemma fetchImageForUnderlying_Some:
  assumes "snd (fetchImageForUnderlying ps c u) = Fulfilled (Some r)"
  shows "\<exists>q\<in>set (providersForUnderlying ps). answer ps c u q = Some r"
proof -
  from assms have "(case List.find (\<lambda>p. answer ps c u p \<noteq> None) (providersForUnderlying ps) of
                   None \<Rightarrow> None | Some p \<Rightarrow> answer ps c u p) = Some r"
    by (simp only: fetchImageForUnderlying_eq snd_conv settled.inject)
  then show ?thesis by (rule find_Some_member)
qed

lemma pendlePT_result:
  "\<exists>t r. provider_fetchImage ps
            (PendlePTUnderlying cb isPendlePT getUnderlyingAssetAddress storedLookup)
            cid addr = (t, Fulfilled r)
        \<and> (r = None
           \<or> (\<exists>u img. snd (getUnderlyingAssetAddress cid addr) = Fulfilled (Some u)
                 \<and> snd (storedLookup cid u) = Fulfilled (Some img)
                 \<and> r = Some (storedResult img))
           \<or> (\<exists>u q r0. snd (getUnderlyingAssetAddress cid addr) = Fulfilled (Some u)
                 \<and> q \<in> set (providersForUnderlying ps)
                 \<and> answer ps cid u q = Some r0
                 \<and> r = Some (r0\<lparr> provider := ''pendle-pt-underlying'' \<rparr>)))"
proof (cases "cb")
  case False
  then show ?thesis by simp
next
  case cb: True
  obtain t1 s1 where o1: "isPendlePT cid addr = (t1, s1)" by (cases "isPendlePT cid addr")
  obtain t2 s2 where o2: "getUnderlyingAssetAddress cid addr = (t2, s2)"
    by (cases "getUnderlyingAssetAddress cid addr")
  show ?thesis
  proof (cases "s1 = Fulfilled True \<and> (\<exists>u. s2 = Fulfilled (Some u) \<and> u \<noteq> [])")
    case False
    then show ?thesis using cb o1 o2
      by (auto split: settled.splits option.splits)
  next
    case True
    then obtain u where s1: "s1 = Fulfilled True" and s2: "s2 = Fulfilled (Some u)" and ne: "u \<noteq> []"
      by blast
    obtain t3 s3 where o3: "storedLookup cid u = (t3, s3)" by (cases "storedLookup cid u")
    obtain t4 s4 where o4: "fetchImageForUnderlying ps cid u = (t4, s4)"
      by (cases "fetchImageForUnderlying ps cid u")
    show ?thesis
    proof (cases s3)
      case Rejected
      then show ?thesis using cb o1 o2 s1 s2 ne o3 by simp
    next
      case (Fulfilled img)
      show ?thesis
      proof (cases img)
        case (Some existingImage)
        then show ?thesis using cb o1 o2 s1 s2 ne o3 Fulfilled
          by (simp add: storedResult_def)
      next
        case None
        show ?thesis
        proof (cases "\<exists>res. s4 = Fulfilled (Some res)")
          case False
          then show ?thesis using cb o1 o2 s1 s2 ne o3 Fulfilled None o4
            by (auto split: settled.splits option.splits)
        next
          case True
          then obtain res where s4: "s4 = Fulfilled (Some res)" by blast
          then have "snd (fetchImageForUnderlying ps cid u) = Fulfilled (Some res)"
            using o4 by simp
          then obtain q where q: "q \<in> set (providersForUnderlying ps)" "answer ps cid u q = Some res"
            using fetchImageForUnderlying_Some by blast
          have "provider_fetchImage ps
            (PendlePTUnderlying cb isPendlePT getUnderlyingAssetAddress storedLookup)
            cid addr = (t1 + t2 + t3 + t4, Fulfilled (Some (res\<lparr> provider := ''pendle-pt-underlying'' \<rparr>)))"
            using cb o1 o2 s1 s2 ne o3 Fulfilled None o4 s4 by simp
          then show ?thesis using q s2 o2 by auto
        qed
      qed
    qed
  qed
qed


section \<open>Provider chain: priority, fault tolerance, delegation\<close>

text \<open>
  C1. \<^verbatim>\<open>fetchImage\<close> settles only after every available provider's fetch has settled,
  and is fulfilled with the res of the earliest-registered provider whose contribution
  is not absent; the choice does not depend on how fast the providers answer.
\<close>

theorem fetchImage_priority:
  "snd (fetchImage ps cid addr) =
     Fulfilled (case List.find (\<lambda>p. answer ps cid addr p \<noteq> None) ps of
                  None \<Rightarrow> None | Some p \<Rightarrow> answer ps cid addr p)
   \<and> (\<forall>p\<in>set ps. isAvailable p \<longrightarrow>
          fst (provider_fetchImage ps p cid addr) \<le> fst (fetchImage ps cid addr))
   \<and> (\<forall>i r. i < length ps \<and> answer ps cid addr (ps ! i) = Some r
          \<and> (\<forall>k<i. answer ps cid addr (ps ! k) = None)
        \<longrightarrow> snd (fetchImage ps cid addr) = Fulfilled (Some r))
   \<and> snd (fetchImage (map (\<lambda>p. withLatency (lat p) p) ps) cid addr) =
       snd (fetchImage ps cid addr)"
proof (intro conjI allI impI ballI)
  show "snd (fetchImage ps cid addr) =
     Fulfilled (case List.find (\<lambda>p. answer ps cid addr p \<noteq> None) ps of
                  None \<Rightarrow> None | Some p \<Rightarrow> answer ps cid addr p)"
    by (simp add: fetchImage_eq)
next
  fix p assume "p \<in> set ps" "isAvailable p"
  then show "fst (provider_fetchImage ps p cid addr) \<le> fst (fetchImage ps cid addr)"
    by (rule fetchImage_waits)
next
  fix i r
  assume h: "i < length ps \<and> answer ps cid addr (ps ! i) = Some r
          \<and> (\<forall>k<i. answer ps cid addr (ps ! k) = None)"
  have "(case List.find (\<lambda>p. answer ps cid addr p \<noteq> None) ps of
           None \<Rightarrow> None | Some p \<Rightarrow> answer ps cid addr p) = Some r"
    using h by (intro find_least[of i]) simp_all
  then show "snd (fetchImage ps cid addr) = Fulfilled (Some r)"
    by (simp add: fetchImage_eq)
next
  show "snd (fetchImage (map (\<lambda>p. withLatency (lat p) p) ps) cid addr) =
       snd (fetchImage ps cid addr)"
    by (rule fetchImage_withLatency)
qed

theorem fetchImage_priority_witness:
  "snd (fetchImage [slowLocal, fastCoingecko] 1 ''0xabc'') = Fulfilled (Some localResult)
   \<and> 900 \<le> fst (fetchImage [slowLocal, fastCoingecko] 1 ''0xabc'')"
proof -
  note T = fetchImage_priority[of "[slowLocal, fastCoingecko]" 1 "''0xabc''" "\<lambda>p. 0"]
  have a: "answer [slowLocal, fastCoingecko] 1 ''0xabc'' slowLocal = Some localResult"
    by (simp add: answer_def slowLocal_def)
  from T have "snd (fetchImage [slowLocal, fastCoingecko] 1 ''0xabc'') =
     Fulfilled (case List.find (\<lambda>p. answer [slowLocal, fastCoingecko] 1 ''0xabc'' p \<noteq> None)
                       [slowLocal, fastCoingecko] of
                  None \<Rightarrow> None | Some p \<Rightarrow> answer [slowLocal, fastCoingecko] 1 ''0xabc'' p)"
    by (rule conjunct1)
  then have r: "snd (fetchImage [slowLocal, fastCoingecko] 1 ''0xabc'') = Fulfilled (Some localResult)"
    by (simp add: a)
  from T have "\<forall>p\<in>set [slowLocal, fastCoingecko]. isAvailable p \<longrightarrow>
      fst (provider_fetchImage [slowLocal, fastCoingecko] p 1 ''0xabc'')
        \<le> fst (fetchImage [slowLocal, fastCoingecko] 1 ''0xabc'')"
    by blast
  then have "isAvailable slowLocal \<longrightarrow>
      fst (provider_fetchImage [slowLocal, fastCoingecko] slowLocal 1 ''0xabc'')
        \<le> fst (fetchImage [slowLocal, fastCoingecko] 1 ''0xabc'')"
    by simp
  then have "900 \<le> fst (fetchImage [slowLocal, fastCoingecko] 1 ''0xabc'')"
    by (simp add: slowLocal_def)
  with r show ?thesis by simp
qed

text \<open>
  C4. \<^verbatim>\<open>fetchImage\<close> never rejects. A provider that throws contributes absent, as an
  unavailable one and one that returns absent do; the res is absent exactly when every
  provider contributes absent, and a provider's res is returned whenever every provider
  registered before it contributes absent, whatever the others do.
\<close>

theorem fetchImage_fault_tolerant:
  "(\<exists>t r. fetchImage ps cid addr = (t, Fulfilled r))
   \<and> (\<forall>p. answer ps cid addr p = None \<longleftrightarrow>
          (\<not> isAvailable p
           \<or> snd (provider_fetchImage ps p cid addr) = Rejected
           \<or> snd (provider_fetchImage ps p cid addr) = Fulfilled None))
   \<and> (snd (fetchImage ps cid addr) = Fulfilled None \<longleftrightarrow>
        (\<forall>p\<in>set ps. answer ps cid addr p = None))
   \<and> (\<forall>i r. i < length ps \<and> isAvailable (ps ! i)
          \<and> snd (provider_fetchImage ps (ps ! i) cid addr) = Fulfilled (Some r)
          \<and> (\<forall>k<i. answer ps cid addr (ps ! k) = None)
        \<longrightarrow> snd (fetchImage ps cid addr) = Fulfilled (Some r))"
proof (intro conjI allI impI)
  show "\<exists>t r. fetchImage ps cid addr = (t, Fulfilled r)"
    by (simp add: fetchImage_eq)
next
  fix p
  show "answer ps cid addr p = None \<longleftrightarrow>
          (\<not> isAvailable p
           \<or> snd (provider_fetchImage ps p cid addr) = Rejected
           \<or> snd (provider_fetchImage ps p cid addr) = Fulfilled None)"
    by (auto simp: answer_def split: settled.splits)
next
  show "snd (fetchImage ps cid addr) = Fulfilled None \<longleftrightarrow>
        (\<forall>p\<in>set ps. answer ps cid addr p = None)"
    by (simp only: fetchImage_eq snd_conv settled.inject find_None_iff)
next
  fix i r
  assume h: "i < length ps \<and> isAvailable (ps ! i)
          \<and> snd (provider_fetchImage ps (ps ! i) cid addr) = Fulfilled (Some r)
          \<and> (\<forall>k<i. answer ps cid addr (ps ! k) = None)"
  then have "answer ps cid addr (ps ! i) = Some r"
    by (simp add: answer_def)
  then have "(case List.find (\<lambda>p. answer ps cid addr p \<noteq> None) ps of
           None \<Rightarrow> None | Some p \<Rightarrow> answer ps cid addr p) = Some r"
    using h by (intro find_least[of i]) simp_all
  then show "snd (fetchImage ps cid addr) = Fulfilled (Some r)"
    by (simp add: fetchImage_eq)
qed

theorem fetchImage_fault_tolerant_witness:
  "snd (provider_fetchImage [throwingProvider, fastCoingecko] throwingProvider 1 ''0xabc'') = Rejected
   \<and> snd (fetchImage [throwingProvider, fastCoingecko] 1 ''0xabc'') = Fulfilled (Some coingeckoResult)"
proof -
  note T = fetchImage_fault_tolerant[of "[throwingProvider, fastCoingecko]" 1 "''0xabc''"]
  have thrown: "snd (provider_fetchImage [throwingProvider, fastCoingecko] throwingProvider 1 ''0xabc'') = Rejected"
    by (simp add: throwingProvider_def)
  from T have "\<forall>p. answer [throwingProvider, fastCoingecko] 1 ''0xabc'' p = None \<longleftrightarrow>
          (\<not> isAvailable p
           \<or> snd (provider_fetchImage [throwingProvider, fastCoingecko] p 1 ''0xabc'') = Rejected
           \<or> snd (provider_fetchImage [throwingProvider, fastCoingecko] p 1 ''0xabc'') = Fulfilled None)"
    by blast
  with thrown have absent: "answer [throwingProvider, fastCoingecko] 1 ''0xabc'' throwingProvider = None"
    by blast
  from T have "\<forall>i r. i < length [throwingProvider, fastCoingecko]
          \<and> isAvailable ([throwingProvider, fastCoingecko] ! i)
          \<and> snd (provider_fetchImage [throwingProvider, fastCoingecko]
                   ([throwingProvider, fastCoingecko] ! i) 1 ''0xabc'') = Fulfilled (Some r)
          \<and> (\<forall>k<i. answer [throwingProvider, fastCoingecko] 1 ''0xabc''
                       ([throwingProvider, fastCoingecko] ! k) = None)
        \<longrightarrow> snd (fetchImage [throwingProvider, fastCoingecko] 1 ''0xabc'') = Fulfilled (Some r)"
    by blast
  then have "1 < length [throwingProvider, fastCoingecko]
          \<and> isAvailable ([throwingProvider, fastCoingecko] ! 1)
          \<and> snd (provider_fetchImage [throwingProvider, fastCoingecko]
                   ([throwingProvider, fastCoingecko] ! 1) 1 ''0xabc'') = Fulfilled (Some coingeckoResult)
          \<and> (\<forall>k<1. answer [throwingProvider, fastCoingecko] 1 ''0xabc''
                       ([throwingProvider, fastCoingecko] ! k) = None)
        \<longrightarrow> snd (fetchImage [throwingProvider, fastCoingecko] 1 ''0xabc'') = Fulfilled (Some coingeckoResult)"
    by blast
  moreover have "isAvailable fastCoingecko"
    "snd (provider_fetchImage [throwingProvider, fastCoingecko] fastCoingecko 1 ''0xabc'') =
       Fulfilled (Some coingeckoResult)"
    by (simp_all add: fastCoingecko_def)
  ultimately have "snd (fetchImage [throwingProvider, fastCoingecko] 1 ''0xabc'') =
      Fulfilled (Some coingeckoResult)"
    using absent by simp
  with thrown show ?thesis by simp
qed

text \<open>
  C7 (amended). The delegated fan-out runs over the providers whose name is not
  \<^verbatim>\<open>pendle-pt-underlying\<close>: each of them is a direct provider, whose fetch delegates no
  further, so the fan-out is a plain \<^verbatim>\<open>fetchImage\<close> over the filtered list and the
  resolution ends after at most one delegation. The derived provider is fulfilled with
  absent, with the image already stored for the underlying asset, or with a direct
  provider's res for the underlying asset, the last two tagged \<^verbatim>\<open>pendle-pt-underlying\<close>.
\<close>

theorem pendlePT_delegation:
  "(\<forall>q\<in>set (providersForUnderlying ps). name q \<noteq> ''pendle-pt-underlying'' \<and>
        (\<exists>n available fetch. q = Direct n available fetch \<and>
           provider_fetchImage ps q cid underlying = fetch cid underlying))
   \<and> fetchImageForUnderlying ps cid underlying =
       fetchImage (providersForUnderlying ps) cid underlying
   \<and> (\<exists>t r. provider_fetchImage ps
            (PendlePTUnderlying cb isPendlePT getUnderlyingAssetAddress storedLookup)
            cid addr = (t, Fulfilled r)
        \<and> (r = None
           \<or> (\<exists>u img. snd (getUnderlyingAssetAddress cid addr) = Fulfilled (Some u)
                 \<and> snd (storedLookup cid u) = Fulfilled (Some img)
                 \<and> r = Some (storedResult img))
           \<or> (\<exists>u q r0. snd (getUnderlyingAssetAddress cid addr) = Fulfilled (Some u)
                 \<and> q \<in> set (providersForUnderlying ps)
                 \<and> answer ps cid u q = Some r0
                 \<and> r = Some (r0\<lparr> provider := ''pendle-pt-underlying'' \<rparr>))))"
proof (intro conjI ballI)
  fix q assume "q \<in> set (providersForUnderlying ps)"
  then show "name q \<noteq> ''pendle-pt-underlying''"
    and "\<exists>n available fetch. q = Direct n available fetch \<and>
           provider_fetchImage ps q cid underlying = fetch cid underlying"
    using providersForUnderlying_Direct[of q ps ps cid underlying] by blast+
next
  show "fetchImageForUnderlying ps cid underlying =
       fetchImage (providersForUnderlying ps) cid underlying"
    by (rule fetchImageForUnderlying_is_fetchImage)
next
  show "\<exists>t r. provider_fetchImage ps
            (PendlePTUnderlying cb isPendlePT getUnderlyingAssetAddress storedLookup)
            cid addr = (t, Fulfilled r)
        \<and> (r = None
           \<or> (\<exists>u img. snd (getUnderlyingAssetAddress cid addr) = Fulfilled (Some u)
                 \<and> snd (storedLookup cid u) = Fulfilled (Some img)
                 \<and> r = Some (storedResult img))
           \<or> (\<exists>u q r0. snd (getUnderlyingAssetAddress cid addr) = Fulfilled (Some u)
                 \<and> q \<in> set (providersForUnderlying ps)
                 \<and> answer ps cid u q = Some r0
                 \<and> r = Some (r0\<lparr> provider := ''pendle-pt-underlying'' \<rparr>)))"
    by (rule pendlePT_result)
qed

lemma providersForUnderlying_example:
  "providersForUnderlying [underlyingOnlyCoingecko, ptOfPt] = [underlyingOnlyCoingecko]"
  by (simp add: providersForUnderlying_def underlyingOnlyCoingecko_def ptOfPt_def)

theorem pendlePT_delegation_witness:
  "underlyingOnlyCoingecko \<in> set (providersForUnderlying [underlyingOnlyCoingecko, ptOfPt])
   \<and> name underlyingOnlyCoingecko \<noteq> ''pendle-pt-underlying''
   \<and> fetchImageForUnderlying [underlyingOnlyCoingecko, ptOfPt] 1 ''0xunderlying'' =
       (10, Fulfilled (Some coingeckoResult))
   \<and> snd (fetchImage [underlyingOnlyCoingecko, ptOfPt] 1 ''0xpt'') =
       Fulfilled (Some (coingeckoResult\<lparr> provider := ''pendle-pt-underlying'' \<rparr>))"
proof -
  note T = pendlePT_delegation[of "[underlyingOnlyCoingecko, ptOfPt]" 1 "''0xunderlying''"
      True "\<lambda>c a. (1, Fulfilled True)" "\<lambda>c a. (2, Fulfilled (Some ''0xunderlying''))"
      "\<lambda>c a. (3, Fulfilled None)" "''0xpt''"]
  have m: "underlyingOnlyCoingecko \<in> set (providersForUnderlying [underlyingOnlyCoingecko, ptOfPt])"
    by (simp add: providersForUnderlying_example)
  from T have "\<forall>q\<in>set (providersForUnderlying [underlyingOnlyCoingecko, ptOfPt]).
      name q \<noteq> ''pendle-pt-underlying''"
    by blast
  with m have n: "name underlyingOnlyCoingecko \<noteq> ''pendle-pt-underlying''"
    by blast
  from T have "fetchImageForUnderlying [underlyingOnlyCoingecko, ptOfPt] 1 ''0xunderlying'' =
       fetchImage (providersForUnderlying [underlyingOnlyCoingecko, ptOfPt]) 1 ''0xunderlying''"
    by blast
  moreover have "fetchImage [underlyingOnlyCoingecko] 1 ''0xunderlying'' =
       (10, Fulfilled (Some coingeckoResult))"
    by (simp add: fetchImage_def providerPromise_def underlyingOnlyCoingecko_def)
  ultimately have fu: "fetchImageForUnderlying [underlyingOnlyCoingecko, ptOfPt] 1 ''0xunderlying'' =
       (10, Fulfilled (Some coingeckoResult))"
    by (simp only: providersForUnderlying_example)
  have pt: "provider_fetchImage [underlyingOnlyCoingecko, ptOfPt] ptOfPt 1 ''0xpt'' =
       (16, Fulfilled (Some (coingeckoResult\<lparr> provider := ''pendle-pt-underlying'' \<rparr>)))"
    unfolding ptOfPt_def using fu[unfolded ptOfPt_def] by simp
  have "snd (fetchImage [underlyingOnlyCoingecko, ptOfPt] 1 ''0xpt'') =
       Fulfilled (Some (coingeckoResult\<lparr> provider := ''pendle-pt-underlying'' \<rparr>))"
    using pt by (simp add: fetchImage_def providerPromise_def underlyingOnlyCoingecko_def
        ptOfPt_def)
  with m n fu show ?thesis by simp
qed

theorem pendlePT_stored_counterexample:
  "snd (fetchImage [underlyingOnlyCoingecko, ptWithStoredUnderlying] 1 ''0xpt'') =
     Fulfilled (Some \<lparr> url = None, buffer = Some [1, 2, 3], provider = ''pendle-pt-underlying'',
                       extension = ''webp'', path = None \<rparr>)
   \<and> snd (fetchImageForUnderlying [underlyingOnlyCoingecko, ptWithStoredUnderlying] 1 ''0xunderlying'') =
       Fulfilled (Some coingeckoResult)
   \<and> \<lparr> url = None, buffer = Some [1, 2, 3], provider = ''pendle-pt-underlying'',
        extension = ''webp'', path = None \<rparr> \<noteq> coingeckoResult\<lparr> provider := ''pendle-pt-underlying'' \<rparr>"
proof -
  have pfu: "providersForUnderlying [underlyingOnlyCoingecko, ptWithStoredUnderlying] =
      [underlyingOnlyCoingecko]"
    by (simp add: providersForUnderlying_def underlyingOnlyCoingecko_def ptWithStoredUnderlying_def)
  have "fetchImage [underlyingOnlyCoingecko] 1 ''0xunderlying'' =
       (10, Fulfilled (Some coingeckoResult))"
    by (simp add: fetchImage_def providerPromise_def underlyingOnlyCoingecko_def)
  then have a: "snd (fetchImageForUnderlying [underlyingOnlyCoingecko, ptWithStoredUnderlying] 1 ''0xunderlying'') =
       Fulfilled (Some coingeckoResult)"
    by (simp only: fetchImageForUnderlying_is_fetchImage pfu snd_conv)
  have b: "snd (fetchImage [underlyingOnlyCoingecko, ptWithStoredUnderlying] 1 ''0xpt'') =
     Fulfilled (Some \<lparr> url = None, buffer = Some [1, 2, 3], provider = ''pendle-pt-underlying'',
                       extension = ''webp'', path = None \<rparr>)"
    by (simp add: fetchImage_def providerPromise_def underlyingOnlyCoingecko_def
        ptWithStoredUnderlying_def storedUnderlying_def truthy_def)
  have c: "\<lparr> url = None, buffer = Some [1, 2, 3], provider = ''pendle-pt-underlying'',
        extension = ''webp'', path = None \<rparr> \<noteq> coingeckoResult\<lparr> provider := ''pendle-pt-underlying'' \<rparr>"
    by (simp add: coingeckoResult_def)
  from a b c show ?thesis by simp
qed
section \<open>Sync pipeline: auxiliary facts and claims\<close>

declare migrateLoop.simps [simp del]

lemma failedDetail_simps:
  "detail_address (failedDetail t p) = ref_address t"
  "detail_status (failedDetail t p) = FailedDetail"
  by (simp_all add: failedDetail_def)

lemma migrateToken_detail:
  "detail_address (fst (migrateToken lp tw)) = ref_address (fst tw)"
  "detail_status (fst (migrateToken lp tw)) = (if snd (migrateToken lp tw) then Migrated else FailedDetail)"
  by (auto simp: migrateToken_def Let_def failedDetail_def split: settled.splits option.splits)

lemma downloadToken_detail:
  "detail_address (fst (downloadToken tw)) = ref_address (fst tw)"
  "detail_status (fst (downloadToken tw)) = (if snd (downloadToken tw) then Downloaded else FailedDetail)"
  by (auto simp: downloadToken_def Let_def failedDetail_def split: settled.splits option.splits)

lemma slice_split: "take 20 (drop i ts) @ drop (i + 20) ts = drop i ts"
proof -
  have "take 20 (drop i ts) @ drop 20 (drop i ts) = drop i ts"
    by (rule append_take_drop_id)
  moreover have "drop 20 (drop i ts) = drop (i + 20) ts"
    by (simp only: drop_drop add.commute)
  ultimately show ?thesis by (simp only:)
qed

lemma migrateLoop_counts:
  "migrated (migrateLoop lp ts i acc) =
     migrated acc + int (length (filter (\<lambda>tw. snd (migrateToken lp tw)) (drop i ts)))
   \<and> migration_failed (migrateLoop lp ts i acc) =
     migration_failed acc + int (length (filter (\<lambda>tw. \<not> snd (migrateToken lp tw)) (drop i ts)))
   \<and> mset (migration_details (migrateLoop lp ts i acc)) =
     mset (migration_details acc) + mset (map (\<lambda>tw. fst (migrateToken lp tw)) (drop i ts))"
proof (induction lp ts i acc rule: migrateLoop.induct)
  case (1 lp ts i acc)
  show ?case
  proof (cases "i < length ts")
    case False
    then show ?thesis by (simp add: migrateLoop.simps[of lp ts i acc])
  next
    case True
    let ?batch = "take 20 (drop i ts)"
    let ?acc' = "\<lparr> migrated = migrated acc
                      + int (length (filter (\<lambda>success. success) (map (\<lambda>tw. snd (migrateToken lp tw)) ?batch))),
                   migration_failed = migration_failed acc
                      + int (length (filter (\<lambda>success. \<not> success) (map (\<lambda>tw. snd (migrateToken lp tw)) ?batch))),
                   migration_details = migration_details acc
                      @ map (\<lambda>tw. fst (migrateToken lp tw)) (sort_key (\<lambda>tw. migrationSettledAt (snd tw)) ?batch) \<rparr>"
    have step: "migrateLoop lp ts i acc = migrateLoop lp ts (i + 20) ?acc'"
      using True by (simp add: migrateLoop.simps[of lp ts i acc] Let_def)
    have IH: "migrated (migrateLoop lp ts (i + 20) ?acc') =
        migrated ?acc' + int (length (filter (\<lambda>tw. snd (migrateToken lp tw)) (drop (i + 20) ts)))
      \<and> migration_failed (migrateLoop lp ts (i + 20) ?acc') =
        migration_failed ?acc' + int (length (filter (\<lambda>tw. \<not> snd (migrateToken lp tw)) (drop (i + 20) ts)))
      \<and> mset (migration_details (migrateLoop lp ts (i + 20) ?acc')) =
        mset (migration_details ?acc') + mset (map (\<lambda>tw. fst (migrateToken lp tw)) (drop (i + 20) ts))"
      using "1.IH"[OF True refl refl refl] by simp
    have split: "drop i ts = ?batch @ drop (i + 20) ts"
      by (simp only: slice_split)
    have f1: "length (filter (\<lambda>tw. snd (migrateToken lp tw)) (drop i ts)) =
        length (filter (\<lambda>success. success) (map (\<lambda>tw. snd (migrateToken lp tw)) ?batch))
        + length (filter (\<lambda>tw. snd (migrateToken lp tw)) (drop (i + 20) ts))"
      by (subst split) (simp add: filter_map comp_def)
    have f2: "length (filter (\<lambda>tw. \<not> snd (migrateToken lp tw)) (drop i ts)) =
        length (filter (\<lambda>success. \<not> success) (map (\<lambda>tw. snd (migrateToken lp tw)) ?batch))
        + length (filter (\<lambda>tw. \<not> snd (migrateToken lp tw)) (drop (i + 20) ts))"
      by (subst split) (simp add: filter_map comp_def)
    have f3: "mset (map (\<lambda>tw. fst (migrateToken lp tw)) (drop i ts)) =
        mset (map (\<lambda>tw. fst (migrateToken lp tw)) (sort_key (\<lambda>tw. migrationSettledAt (snd tw)) ?batch))
        + mset (map (\<lambda>tw. fst (migrateToken lp tw)) (drop (i + 20) ts))"
      by (subst split) simp
    show ?thesis
      unfolding step using IH f1 f2 f3 by simp
  qed
qed

lemma migrateLocalImages_counts:
  "migrated (migrateLocalImages lp ts) = int (length (filter (\<lambda>tw. snd (migrateToken lp tw)) ts))"
  "migration_failed (migrateLocalImages lp ts) = int (length (filter (\<lambda>tw. \<not> snd (migrateToken lp tw)) ts))"
  "mset (migration_details (migrateLocalImages lp ts)) = mset (map (\<lambda>tw. fst (migrateToken lp tw)) ts)"
  using migrateLoop_counts[of lp ts 0 "\<lparr> migrated = 0, migration_failed = 0, migration_details = [] \<rparr>"]
  by (simp_all add: migrateLocalImages_def)

lemma downloadLoop_counts:
  "downloaded (downloadLoop ts acc) =
     downloaded acc + int (length (filter (\<lambda>tw. snd (downloadToken tw)) ts))
   \<and> download_failed (downloadLoop ts acc) =
     download_failed acc + int (length (filter (\<lambda>tw. \<not> snd (downloadToken tw)) ts))
   \<and> download_details (downloadLoop ts acc) =
     download_details acc @ map (\<lambda>tw. fst (downloadToken tw)) ts"
  by (induction ts arbitrary: acc) simp_all

lemma downloadMissingImages_counts:
  "downloaded (downloadMissingImages ts) = int (length (filter (\<lambda>tw. snd (downloadToken tw)) ts))"
  "download_failed (downloadMissingImages ts) = int (length (filter (\<lambda>tw. \<not> snd (downloadToken tw)) ts))"
  "download_details (downloadMissingImages ts) = map (\<lambda>tw. fst (downloadToken tw)) ts"
  using downloadLoop_counts[of ts "\<lparr> downloaded = 0, download_failed = 0, download_details = [] \<rparr>"]
  by (simp_all add: downloadMissingImages_def)

lemma length_partition: "length (filter P xs) + length (filter (\<lambda>x. \<not> P x) xs) = length xs"
  by (induction xs) simp_all

lemma partition_mset:
  "mset (map f (filter P xs)) + mset (map f (filter (\<lambda>x. \<not> P x) xs)) = mset (map f xs)"
  by (induction xs) simp_all

lemma map_fst_existenceChecks: "map fst (existenceChecks w c tokens) = tokenList w c tokens"
  by (simp add: existenceChecks_def bulkCheckImagesInStorage_def comp_def)

lemma map_fst_localChecks:
  "map fst (localChecks w c tokens) = map fst (missingFromStorage w c tokens)"
  by (simp add: localChecks_def bulkCheckLocalImages_def comp_def)

lemma map_snd_enumerate_fun: "map (\<lambda>x. h (snd x)) (enumerate n xs) = map h xs"
  by (induction xs arbitrary: n) simp_all

lemma tokenList_addresses:
  "map (\<lambda>tw. ref_address (fst tw)) (tokenList w c tokens) = map (\<lambda>t. toLowerCase (address t)) tokens"
  using map_snd_enumerate_fun[of "\<lambda>t. toLowerCase (address t)" 0 tokens]
  by (simp add: tokenList_def comp_def case_prod_beta)

lemma length_tokenList: "length (tokenList w c tokens) = length tokens"
  by (simp add: tokenList_def)

lemma length_existenceChecks: "length (existenceChecks w c tokens) = length tokens"
  by (simp add: existenceChecks_def bulkCheckImagesInStorage_def length_tokenList)

lemma length_localChecks: "length (localChecks w c tokens) = length (missingFromStorage w c tokens)"
  by (simp add: localChecks_def bulkCheckLocalImages_def)

lemma existing_count:
  "existingInStorageCount w c tokens =
     int (length (filter (\<lambda>check. snd check) (existenceChecks w c tokens)))"
  using length_partition[of "\<lambda>check. snd check" "existenceChecks w c tokens"]
  by (simp add: existingInStorageCount_def missingFromStorage_def)

lemma phase_lengths:
  "int (length (filter (\<lambda>check. snd check) (existenceChecks w c tokens)))
     + int (length (hasLocalImages w c tokens))
     + int (length (stillMissingTokens w c tokens)) = int (length tokens)"
proof -
  have "length (hasLocalImages w c tokens) + length (stillMissingTokens w c tokens) =
        length (missingFromStorage w c tokens)"
    using length_partition[of "\<lambda>check. snd check" "localChecks w c tokens"]
    by (simp add: hasLocalImages_def stillMissingTokens_def length_localChecks)
  moreover have "length (filter (\<lambda>check. snd check) (existenceChecks w c tokens))
        + length (missingFromStorage w c tokens) = length tokens"
    using length_partition[of "\<lambda>check. snd check" "existenceChecks w c tokens"]
    by (simp add: missingFromStorage_def length_existenceChecks)
  ultimately show ?thesis by linarith
qed

lemma migration_total:
  "migrated (migrationResults w c tokens) + migration_failed (migrationResults w c tokens) =
     int (length (hasLocalImages w c tokens))"
  using length_partition[of "\<lambda>tw. snd (migrateToken (hasLocalProvider w) tw)" "map fst (hasLocalImages w c tokens)"]
  by (simp add: migrationResults_def migrateLocalImages_counts)

lemma download_total:
  "downloaded (downloadResults w c tokens) + download_failed (downloadResults w c tokens) =
     int (length (stillMissingTokens w c tokens))"
  using length_partition[of "\<lambda>tw. snd (downloadToken tw)" "map fst (stillMissingTokens w c tokens)"]
  by (simp add: downloadResults_def downloadMissingImages_counts)

lemma compileResult_sum:
  "existingImages (compileResult w c tokens) + migratedFromLocal (compileResult w c tokens)
     + downloadedImages (compileResult w c tokens) + failedDownloads (compileResult w c tokens)
   = totalTokens (compileResult w c tokens)"
  using phase_lengths[of w c tokens] migration_total[of w c tokens] download_total[of w c tokens]
  by (simp add: compileResult_def existing_count)

lemma migration_addresses:
  "mset (map detail_address (migration_details (migrationResults w c tokens))) =
     mset (map (\<lambda>check. ref_address (fst (fst check))) (hasLocalImages w c tokens))"
proof -
  have "mset (map detail_address (migration_details (migrationResults w c tokens))) =
        image_mset detail_address (mset (migration_details (migrationResults w c tokens)))"
    by simp
  also have "\<dots> = image_mset detail_address
        (mset (map (\<lambda>tw. fst (migrateToken (hasLocalProvider w) tw)) (map fst (hasLocalImages w c tokens))))"
    by (simp only: migrationResults_def migrateLocalImages_counts)
  also have "\<dots> = mset (map detail_address
        (map (\<lambda>tw. fst (migrateToken (hasLocalProvider w) tw)) (map fst (hasLocalImages w c tokens))))"
    by (simp only: mset_map)
  also have "map detail_address
        (map (\<lambda>tw. fst (migrateToken (hasLocalProvider w) tw)) (map fst (hasLocalImages w c tokens))) =
      map (\<lambda>check. ref_address (fst (fst check))) (hasLocalImages w c tokens)"
    by (simp add: comp_def migrateToken_detail)
  finally show ?thesis .
qed

lemma download_addresses:
  "map detail_address (download_details (downloadResults w c tokens)) =
     map (\<lambda>check. ref_address (fst (fst check))) (stillMissingTokens w c tokens)"
  by (simp add: downloadResults_def downloadMissingImages_counts comp_def downloadToken_detail)

lemma compileResult_addresses:
  "mset (map detail_address (details (compileResult w c tokens))) =
     mset (map (\<lambda>t. toLowerCase (address t)) tokens)"
proof -
  let ?a = "\<lambda>check. ref_address (fst (fst check))"
  have local: "mset (map ?a (hasLocalImages w c tokens)) + mset (map ?a (stillMissingTokens w c tokens))
      = mset (map ?a (missingFromStorage w c tokens))"
  proof -
    have "mset (map ?a (hasLocalImages w c tokens)) + mset (map ?a (stillMissingTokens w c tokens))
        = mset (map ?a (localChecks w c tokens))"
      unfolding hasLocalImages_def stillMissingTokens_def by (rule partition_mset)
    also have "map ?a (localChecks w c tokens) = map (\<lambda>tw. ref_address (fst tw)) (map fst (localChecks w c tokens))"
      by (simp add: comp_def)
    also have "\<dots> = map ?a (missingFromStorage w c tokens)"
      by (simp add: map_fst_localChecks comp_def)
    finally show ?thesis .
  qed
  have stored: "mset (map ?a (filter (\<lambda>check. snd check) (existenceChecks w c tokens)))
      + mset (map ?a (missingFromStorage w c tokens)) = mset (map ?a (existenceChecks w c tokens))"
    unfolding missingFromStorage_def by (rule partition_mset)
  have all: "map ?a (existenceChecks w c tokens) = map (\<lambda>t. toLowerCase (address t)) tokens"
  proof -
    have "map ?a (existenceChecks w c tokens) =
          map (\<lambda>tw. ref_address (fst tw)) (map fst (existenceChecks w c tokens))"
      by (simp add: comp_def)
    then show ?thesis by (simp only: map_fst_existenceChecks tokenList_addresses)
  qed
  have "mset (map detail_address (details (compileResult w c tokens))) =
        mset (map ?a (filter (\<lambda>check. snd check) (existenceChecks w c tokens)))
        + (mset (map detail_address (migration_details (migrationResults w c tokens)))
           + mset (map detail_address (download_details (downloadResults w c tokens))))"
    by (simp add: compileResult_def comp_def)
  also have "\<dots> = mset (map ?a (filter (\<lambda>check. snd check) (existenceChecks w c tokens)))
        + (mset (map ?a (hasLocalImages w c tokens)) + mset (map ?a (stillMissingTokens w c tokens)))"
    by (simp only: migration_addresses download_addresses)
  also have "\<dots> = mset (map ?a (existenceChecks w c tokens))"
    by (simp only: local stored)
  finally show ?thesis by (simp only: all)
qed

lemma progressOnly_progressUpdate: "progressOnly (progressUpdate ph cur tot)"
  by (simp add: progressOnly_def progressUpdate_def)

lemma performSync_shape:
  "\<exists>us. performSync w c = progressUpdate ''fetching tokens'' 0 1 # us \<and> pipeline us"
  by (cases "fetchTokensFromEuler (registry w)")
     (simp_all add: performSync_def terminal_def progressOnly_progressUpdate)

lemma mergeUpdate_progressOnly:
  "progressOnly u \<Longrightarrow> runningStatus st \<Longrightarrow> runningStatus (mergeUpdate st u)"
  by (simp add: progressOnly_def runningStatus_def mergeUpdate_def)

lemma mergeUpdate_terminal:
  "terminal u \<Longrightarrow> runningStatus st \<Longrightarrow> settledStatus (mergeUpdate st u)"
  by (auto simp: terminal_def runningStatus_def settledStatus_def mergeUpdate_def)

lemma running_not_settled: "runningStatus st \<Longrightarrow> \<not> settledStatus st"
  by (auto simp: runningStatus_def settledStatus_def)

lemma startSync_cases:
  "(\<exists>e. startSync s c now now' w = (Inl e, s))
   \<or> (\<exists>st. startSync s c now now' w = (Inr st, s))
   \<or> ((\<forall>st. syncStatuses s c = Some st \<longrightarrow> status st \<noteq> Running)
       \<and> (\<exists>fresh us. runningStatus fresh \<and> pipeline us
            \<and> snd (startSync s c now now' w) =
                \<lparr> syncStatuses = (syncStatuses s)(c \<mapsto> fresh), pending = pending s @ [(c, us)] \<rparr>))"
proof (cases "checkRateLimit (syncStatuses s) c now")
  case (Some e)
  then show ?thesis by (simp add: startSync_def)
next
  case None
  show ?thesis
  proof (cases "\<exists>st. syncStatuses s c = Some st \<and> status st = Running")
    case True
    then show ?thesis using None by (auto simp: startSync_def)
  next
    case False
    obtain us where us: "performSync w c = progressUpdate ''fetching tokens'' 0 1 # us" "pipeline us"
      using performSync_shape by blast
    let ?syncStatus = "\<lparr> chainId = c, status = Running, startTime = now', endTime = None,
                      progress = Some \<lparr> phase = ''initializing'', current = 0, total = 0 \<rparr>,
                      result = None, error = None,
                      remainingTime = Some (RATE_LIMIT_MINUTES * 60 * 1000) \<rparr>"
    let ?fresh = "mergeUpdate ?syncStatus (progressUpdate ''fetching tokens'' 0 1)"
    have sel: "(case syncStatuses s c of None \<Rightarrow> None
                 | Some existingStatus \<Rightarrow>
                     if status existingStatus = Running then Some existingStatus else None) = None"
      using False by (auto split: option.splits)
    have "snd (startSync s c now now' w) =
        \<lparr> syncStatuses = (syncStatuses s)(c \<mapsto> ?fresh), pending = pending s @ [(c, us)] \<rparr>"
      using None sel us(1) by (simp add: startSync_def Let_def updateSyncStatus_def)
    moreover have "runningStatus ?fresh"
      by (rule mergeUpdate_progressOnly[OF progressOnly_progressUpdate]) (simp add: runningStatus_def)
    ultimately show ?thesis using False us(2) by blast
  qed
qed

lemma invariant_initial: "invariant \<lparr> syncStatuses = Map.empty, pending = [] \<rparr>"
  by (simp add: invariant_def launched_def)

lemma invariant_startSync:
  assumes "invariant s"
  shows "invariant (snd (startSync s c now now' w))"
proof -
  consider (same) "snd (startSync s c now now' w) = s"
    | (new) fresh us where "\<forall>st. syncStatuses s c = Some st \<longrightarrow> status st \<noteq> Running"
        "runningStatus fresh" "pipeline us"
        "snd (startSync s c now now' w) =
           \<lparr> syncStatuses = (syncStatuses s)(c \<mapsto> fresh), pending = pending s @ [(c, us)] \<rparr>"
    using startSync_cases[of s c now now' w] by fastforce
  then show ?thesis
  proof cases
    case same
    then show ?thesis using assms by simp
  next
    case new
    have notin: "c \<notin> launched s"
    proof
      assume "c \<in> launched s"
      then obtain us' where m: "(c, us') \<in> set (pending s)" by (auto simp: launched_def)
      with assms have "syncStatuses s c \<noteq> None"
        unfolding invariant_def by blast
      then obtain st where st: "syncStatuses s c = Some st"
        by blast
      with assms \<open>c \<in> launched s\<close> have "runningStatus st"
        by (auto simp: invariant_def)
      with new(1) st show False by (simp add: runningStatus_def)
    qed
    let ?s' = "\<lparr> syncStatuses = (syncStatuses s)(c \<mapsto> fresh), pending = pending s @ [(c, us)] \<rparr>"
    have l: "launched ?s' = insert c (launched s)"
      by (auto simp: launched_def)
    have d: "distinct (map fst (pending ?s'))"
      using assms notin by (simp add: invariant_def launched_def)
    have p: "\<forall>c' us'. (c', us') \<in> set (pending ?s') \<longrightarrow> pipeline us' \<and> syncStatuses ?s' c' \<noteq> None"
      using assms new(3) by (auto simp: invariant_def)
    have r: "\<forall>c' st. syncStatuses ?s' c' = Some st \<longrightarrow>
           (if c' \<in> launched ?s' then runningStatus st else settledStatus st)"
    proof (intro allI impI)
      fix c' st assume h: "syncStatuses ?s' c' = Some st"
      show "if c' \<in> launched ?s' then runningStatus st else settledStatus st"
      proof (cases "c' = c")
        case True
        then show ?thesis using h new(2) l by simp
      next
        case False
        then have "syncStatuses s c' = Some st" using h by simp
        with assms have "if c' \<in> launched s then runningStatus st else settledStatus st"
          by (simp add: invariant_def)
        then show ?thesis using False l by simp
      qed
    qed
    show ?thesis unfolding new(4) invariant_def using d p r by blast
  qed
qed

lemma remove_nth_distinct:
  assumes "distinct (map fst P)" "i < length P"
  shows "distinct (map fst (take i P @ drop (Suc i) P))"
    and "fst ` set (take i P @ drop (Suc i) P) = fst ` set P - {fst (P ! i)}"
    and "set (take i P @ drop (Suc i) P) \<subseteq> set P"
proof -
  define A where "A = take i P"
  define B where "B = drop (Suc i) P"
  have P: "P = A @ P ! i # B"
    unfolding A_def B_def using assms(2) by (rule id_take_nth_drop)
  have d: "distinct (map fst (A @ P ! i # B))"
    using assms(1) P by simp
  show "distinct (map fst (take i P @ drop (Suc i) P))"
    using d unfolding A_def[symmetric] B_def[symmetric] by simp
  have "fst (P ! i) \<notin> fst ` set (A @ B)"
    using d by (simp add: image_Un)
  then have "fst ` set (A @ B) = fst ` set (A @ P ! i # B) - {fst (P ! i)}"
    by auto
  then show "fst ` set (take i P @ drop (Suc i) P) = fst ` set P - {fst (P ! i)}"
    unfolding A_def[symmetric] B_def[symmetric] using P by simp
  have "set (A @ B) \<subseteq> set (A @ P ! i # B)" by auto
  then show "set (take i P @ drop (Suc i) P) \<subseteq> set P"
    unfolding A_def[symmetric] B_def[symmetric] using P by simp
qed

lemma update_same_fst:
  assumes "i < length P" "fst (P ! i) = c"
  shows "map fst (P[i := (c, us)]) = map fst P"
proof -
  have "map fst (P[i := (c, us)]) = (map fst P)[i := c]"
    by (simp add: map_update)
  also have "\<dots> = (map fst P)[i := (map fst P) ! i]"
    using assms by simp
  also have "\<dots> = map fst P" by (rule list_update_id)
  finally show ?thesis .
qed

lemma resume_step:
  assumes "invariant s" "i < length (pending s)"
  shows "\<exists>c u us st. pending s ! i = (c, u # us) \<and> pipeline (u # us)
           \<and> syncStatuses s c = Some st \<and> runningStatus st \<and> c \<in> launched s
           \<and> resume s i =
               \<lparr> syncStatuses = (syncStatuses s)(c \<mapsto> mergeUpdate st u),
                 pending = (if us = [] then take i (pending s) @ drop (Suc i) (pending s)
                            else (pending s)[i := (c, us)]) \<rparr>"
proof -
  obtain c l where ci: "pending s ! i = (c, l)" by (cases "pending s ! i")
  have mem: "(c, l) \<in> set (pending s)"
    using assms(2) ci by (metis nth_mem)
  then have pl: "pipeline l" and ex: "syncStatuses s c \<noteq> None"
    using assms(1) unfolding invariant_def by blast+
  from pl obtain u us where l: "l = u # us" by (cases l) simp_all
  from ex obtain st where st: "syncStatuses s c = Some st" by blast
  have la: "c \<in> launched s"
    using mem by (force simp: launched_def)
  with assms(1) st have run: "runningStatus st"
    unfolding invariant_def by (metis (full_types))
  have "resume s i =
               \<lparr> syncStatuses = (syncStatuses s)(c \<mapsto> mergeUpdate st u),
                 pending = (if us = [] then take i (pending s) @ drop (Suc i) (pending s)
                            else (pending s)[i := (c, us)]) \<rparr>"
    using ci l st by (simp add: resume_def updateSyncStatus_def)
  then show ?thesis using ci l pl st run la by blast
qed

lemma invariant_resume:
  assumes "invariant s" "i < length (pending s)"
  shows "invariant (resume s i)"
proof -
  obtain c u us st where ci: "pending s ! i = (c, u # us)" and pl: "pipeline (u # us)"
    and st: "syncStatuses s c = Some st" and run: "runningStatus st" and la: "c \<in> launched s"
    and r: "resume s i =
               \<lparr> syncStatuses = (syncStatuses s)(c \<mapsto> mergeUpdate st u),
                 pending = (if us = [] then take i (pending s) @ drop (Suc i) (pending s)
                            else (pending s)[i := (c, us)]) \<rparr>"
    using resume_step[OF assms] by blast
  have dist: "distinct (map fst (pending s))"
    and pip: "\<And>c' us'. (c', us') \<in> set (pending s) \<Longrightarrow> pipeline us' \<and> syncStatuses s c' \<noteq> None"
    and stat: "\<And>c' st'. syncStatuses s c' = Some st' \<Longrightarrow>
                 (if c' \<in> launched s then runningStatus st' else settledStatus st')"
    using assms(1) unfolding invariant_def by blast+
  have fi: "fst (pending s ! i) = c" using ci by simp
  show ?thesis
  proof (cases "us = []")
    case True
    then have tu: "terminal u" using pl by simp
    let ?P = "take i (pending s) @ drop (Suc i) (pending s)"
    let ?s' = "\<lparr> syncStatuses = (syncStatuses s)(c \<mapsto> mergeUpdate st u), pending = ?P \<rparr>"
    have rs: "resume s i = ?s'" using r True by simp
    have d: "distinct (map fst ?P)"
      using remove_nth_distinct(1)[OF dist assms(2)] .
    have l: "launched ?s' = launched s - {c}"
      using remove_nth_distinct(2)[OF dist assms(2)] fi by (simp add: launched_def)
    have sub: "set ?P \<subseteq> set (pending s)"
      using remove_nth_distinct(3)[OF dist assms(2)] .
    have p: "\<forall>c' us'. (c', us') \<in> set (pending ?s') \<longrightarrow> pipeline us' \<and> syncStatuses ?s' c' \<noteq> None"
      using sub pip by auto
    have q: "\<forall>c' st'. syncStatuses ?s' c' = Some st' \<longrightarrow>
           (if c' \<in> launched ?s' then runningStatus st' else settledStatus st')"
    proof (intro allI impI)
      fix c' st' assume h: "syncStatuses ?s' c' = Some st'"
      show "if c' \<in> launched ?s' then runningStatus st' else settledStatus st'"
      proof (cases "c' = c")
        case True
        then have "st' = mergeUpdate st u" using h by simp
        then show ?thesis using True l mergeUpdate_terminal[OF tu run] by simp
      next
        case False
        then have "syncStatuses s c' = Some st'" using h by simp
        then show ?thesis using stat[of c' st'] False l by simp
      qed
    qed
    show ?thesis unfolding rs invariant_def using d p q by simp
  next
    case False
    then obtain v vs where us: "us = v # vs" by (cases us) simp_all
    have po: "progressOnly u" and pl': "pipeline us" using pl us by simp_all
    let ?P = "(pending s)[i := (c, us)]"
    let ?s' = "\<lparr> syncStatuses = (syncStatuses s)(c \<mapsto> mergeUpdate st u), pending = ?P \<rparr>"
    have rs: "resume s i = ?s'" using r False by simp
    have m: "map fst ?P = map fst (pending s)"
      using update_same_fst[OF assms(2) fi] .
    have d: "distinct (map fst ?P)" using m dist by simp
    have l: "launched ?s' = launched s"
    proof -
      have "fst ` set ?P = set (map fst ?P)" by simp
      also have "\<dots> = set (map fst (pending s))" by (simp only: m)
      finally show ?thesis by (simp add: launched_def)
    qed
    have p: "\<forall>c' us'. (c', us') \<in> set (pending ?s') \<longrightarrow> pipeline us' \<and> syncStatuses ?s' c' \<noteq> None"
    proof (intro allI impI)
      fix c' us' assume "(c', us') \<in> set (pending ?s')"
      then have "(c', us') \<in> insert (c, us) (set (pending s))"
        using set_update_subset_insert[of "pending s" i "(c, us)"] by auto
      then show "pipeline us' \<and> syncStatuses ?s' c' \<noteq> None"
        using pl' pip[of c' us'] by auto
    qed
    have q: "\<forall>c' st'. syncStatuses ?s' c' = Some st' \<longrightarrow>
           (if c' \<in> launched ?s' then runningStatus st' else settledStatus st')"
    proof (intro allI impI)
      fix c' st' assume h: "syncStatuses ?s' c' = Some st'"
      show "if c' \<in> launched ?s' then runningStatus st' else settledStatus st'"
      proof (cases "c' = c")
        case True
        then have "st' = mergeUpdate st u" using h by simp
        then show ?thesis using True l la mergeUpdate_progressOnly[OF po run] by simp
      next
        case False
        then have "syncStatuses s c' = Some st'" using h by simp
        then show ?thesis using stat[of c' st'] l by simp
      qed
    qed
    show ?thesis unfolding rs invariant_def using d p q by simp
  qed
qed

lemma reachable_invariant: "reachable s \<Longrightarrow> invariant s"
proof (induction rule: reachable.induct)
  case initial
  show ?case by (rule invariant_initial)
next
  case (start s c now now' w)
  then show ?case by (simp add: invariant_startSync)
next
  case (background s i)
  then show ?case by (simp add: invariant_resume)
qed

lemma resume_keeps_settled:
  assumes "invariant s" "i < length (pending s)" "syncStatuses s c = Some st" "status st \<noteq> Running"
  shows "syncStatuses (resume s i) c = Some st"
proof -
  obtain c' u us st' where la: "c' \<in> launched s"
    and r: "resume s i =
               \<lparr> syncStatuses = (syncStatuses s)(c' \<mapsto> mergeUpdate st' u),
                 pending = (if us = [] then take i (pending s) @ drop (Suc i) (pending s)
                            else (pending s)[i := (c', us)]) \<rparr>"
    using resume_step[OF assms(1,2)] by blast
  have "c \<notin> launched s"
  proof
    assume "c \<in> launched s"
    with assms(1,3) have "runningStatus st" unfolding invariant_def by (metis (full_types))
    with assms(4) show False by (simp add: runningStatus_def)
  qed
  with la have "c \<noteq> c'" by blast
  then show ?thesis using r assms(3) by simp
qed

lemma rateLimitMs_value: "rateLimitMs = 60000"
  by (simp add: rateLimitMs_def RATE_LIMIT_MINUTES_def)

lemma startSync_launch:
  assumes "checkRateLimit (syncStatuses s) c now = None"
    and "\<forall>st. syncStatuses s c = Some st \<longrightarrow> status st \<noteq> Running"
  shows "startSync s c now now' w =
     (Inr \<lparr> chainId = c, status = Running, startTime = now', endTime = None,
            progress = Some \<lparr> phase = ''initializing'', current = 0, total = 0 \<rparr>,
            result = None, error = None,
            remainingTime = Some (RATE_LIMIT_MINUTES * 60 * 1000) \<rparr>,
      \<lparr> syncStatuses = (syncStatuses s)(c \<mapsto>
           \<lparr> chainId = c, status = Running, startTime = now', endTime = None,
             progress = Some \<lparr> phase = ''fetching tokens'', current = 0, total = 1 \<rparr>,
             result = None, error = None,
             remainingTime = Some (RATE_LIMIT_MINUTES * 60 * 1000) \<rparr>),
        pending = pending s @ [(c, tl (performSync w c))] \<rparr>)"
proof -
  have sel: "(case syncStatuses s c of None \<Rightarrow> None
               | Some existingStatus \<Rightarrow>
                   if status existingStatus = Running then Some existingStatus else None) = None"
    using assms(2) by (auto split: option.splits)
  obtain us where us: "performSync w c = progressUpdate ''fetching tokens'' 0 1 # us"
    using performSync_shape by blast
  show ?thesis
    using assms(1) sel us
    by (simp add: startSync_def Let_def updateSyncStatus_def mergeUpdate_def progressUpdate_def)
qed

lemma checkRateLimit_limited:
  assumes "syncStatuses s c = Some st"
    and "(status st = Running \<and> ref = startTime st)
         \<or> ((status st = Completed \<or> status st = Failed) \<and> endTime st = Some ref \<and> ref \<noteq> 0)"
    and "now - ref < rateLimitMs"
  shows "\<exists>e. checkRateLimit (syncStatuses s) c now = Some e \<and> rateLimited e
            \<and> limited_chainId e = c \<and> limited_remainingTime e = rateLimitMs - (now - ref)"
  using assms by (auto simp: checkRateLimit_def relevantTime_def)

lemma checkRateLimit_passed:
  assumes "syncStatuses s c = Some st"
    and "status st = Completed \<or> status st = Failed" "endTime st = Some ref" "ref \<noteq> 0"
    and "rateLimitMs \<le> now - ref"
  shows "checkRateLimit (syncStatuses s) c now = None"
  using assms by (auto simp: checkRateLimit_def relevantTime_def)

lemma afterEmptySync_run:
  "resume (snd (startSync noSyncYet 999 1000 1000 emptyWorld)) 0 = afterEmptySync"
proof -
  have c: "checkRateLimit (syncStatuses noSyncYet) 999 1000 = None"
    by (simp add: checkRateLimit_def noSyncYet_def)
  have p: "performSync emptyWorld 999 =
      [progressUpdate ''fetching tokens'' 0 1,
       \<lparr> upd_status = Some Completed, upd_endTime = Some 5001, upd_progress = None,
         upd_result = Some emptyResult, upd_error = None \<rparr>]"
    by (simp add: performSync_def fetchTokensFromEuler_def emptyWorld_def exampleWorld_def
        emptyResult_def)
  have "snd (startSync noSyncYet 999 1000 1000 emptyWorld) =
      \<lparr> syncStatuses = [999 \<mapsto>
           \<lparr> chainId = 999, status = Running, startTime = 1000, endTime = None,
             progress = Some \<lparr> phase = ''fetching tokens'', current = 0, total = 1 \<rparr>,
             result = None, error = None, remainingTime = Some 60000 \<rparr>],
        pending = [(999, [\<lparr> upd_status = Some Completed, upd_endTime = Some 5001,
           upd_progress = None, upd_result = Some emptyResult, upd_error = None \<rparr>])] \<rparr>"
    using startSync_launch[of noSyncYet 999 1000 1000 emptyWorld] c
    by (simp add: p noSyncYet_def RATE_LIMIT_MINUTES_def)
  then show ?thesis
    by (simp add: resume_def updateSyncStatus_def mergeUpdate_def afterEmptySync_def
        completedEmpty_def)
qed

lemma reachable_afterEmptySync: "reachable afterEmptySync"
proof -
  have "reachable noSyncYet"
    unfolding noSyncYet_def by (rule reachable.initial)
  then have r: "reachable (snd (startSync noSyncYet 999 1000 1000 emptyWorld))"
    by (rule reachable.start)
  have "0 < length (pending (snd (startSync noSyncYet 999 1000 1000 emptyWorld)))"
    using startSync_launch[of noSyncYet 999 1000 1000 emptyWorld]
    by (simp add: checkRateLimit_def noSyncYet_def)
  with r have "reachable (resume (snd (startSync noSyncYet 999 1000 1000 emptyWorld)) 0)"
    by (rule reachable.background)
  then show ?thesis by (simp only: afterEmptySync_run)
qed

text \<open>
  C2. While the window of one minute, counted from the start time of a running sync or
  from the end time (a real timestamp, not 0) of a completed or failed one, has not
  elapsed, \<^verbatim>\<open>startSync\<close> returns the rate-limit signal with the remaining time and leaves
  the service as it is. Once the window of a completed or failed sync has elapsed, it
  returns a fresh running status in phase \<^verbatim>\<open>initializing\<close>, stores a running status for
  the chain and launches one \<^verbatim>\<open>performSync\<close>.
\<close>

theorem startSync_rate_limit:
  "(syncStatuses s c = Some st
      \<and> ((status st = Running \<and> ref = startTime st)
         \<or> ((status st = Completed \<or> status st = Failed) \<and> endTime st = Some ref \<and> ref \<noteq> 0))
      \<and> now - ref < rateLimitMs
    \<longrightarrow> (\<exists>e. startSync s c now now' w = (Inl e, s) \<and> rateLimited e \<and> limited_chainId e = c
            \<and> limited_remainingTime e = rateLimitMs - (now - ref)
            \<and> 0 < limited_remainingTime e))
   \<and> (syncStatuses s c = Some st
      \<and> (status st = Completed \<or> status st = Failed) \<and> endTime st = Some ref \<and> ref \<noteq> 0
      \<and> rateLimitMs \<le> now - ref
    \<longrightarrow> (\<exists>fresh s'. startSync s c now now' w = (Inr fresh, s')
            \<and> chainId fresh = c \<and> status fresh = Running \<and> startTime fresh = now'
            \<and> endTime fresh = None
            \<and> progress fresh = Some \<lparr> phase = ''initializing'', current = 0, total = 0 \<rparr>
            \<and> result fresh = None \<and> error fresh = None
            \<and> (\<exists>stored. syncStatuses s' c = Some stored \<and> status stored = Running
                  \<and> startTime stored = now' \<and> result stored = None \<and> error stored = None)
            \<and> (\<forall>c'. c' \<noteq> c \<longrightarrow> syncStatuses s' c' = syncStatuses s c')
            \<and> pending s' = pending s @ [(c, tl (performSync w c))]))"
proof (intro conjI impI)
  assume h: "syncStatuses s c = Some st
      \<and> ((status st = Running \<and> ref = startTime st)
         \<or> ((status st = Completed \<or> status st = Failed) \<and> endTime st = Some ref \<and> ref \<noteq> 0))
      \<and> now - ref < rateLimitMs"
  then obtain e where e: "checkRateLimit (syncStatuses s) c now = Some e" "rateLimited e"
      "limited_chainId e = c" "limited_remainingTime e = rateLimitMs - (now - ref)"
    using checkRateLimit_limited[of s c st ref now] by blast
  have "startSync s c now now' w = (Inl e, s)"
    using e(1) by (simp add: startSync_def)
  moreover have "0 < limited_remainingTime e" using e(4) h by simp
  ultimately show "\<exists>e. startSync s c now now' w = (Inl e, s) \<and> rateLimited e \<and> limited_chainId e = c
            \<and> limited_remainingTime e = rateLimitMs - (now - ref)
            \<and> 0 < limited_remainingTime e"
    using e by blast
next
  assume h: "syncStatuses s c = Some st
      \<and> (status st = Completed \<or> status st = Failed) \<and> endTime st = Some ref \<and> ref \<noteq> 0
      \<and> rateLimitMs \<le> now - ref"
  then have c: "checkRateLimit (syncStatuses s) c now = None"
    using checkRateLimit_passed[of s c st ref now] by blast
  have nr: "\<forall>st'. syncStatuses s c = Some st' \<longrightarrow> status st' \<noteq> Running"
    using h by auto
  show "\<exists>fresh s'. startSync s c now now' w = (Inr fresh, s')
            \<and> chainId fresh = c \<and> status fresh = Running \<and> startTime fresh = now'
            \<and> endTime fresh = None
            \<and> progress fresh = Some \<lparr> phase = ''initializing'', current = 0, total = 0 \<rparr>
            \<and> result fresh = None \<and> error fresh = None
            \<and> (\<exists>stored. syncStatuses s' c = Some stored \<and> status stored = Running
                  \<and> startTime stored = now' \<and> result stored = None \<and> error stored = None)
            \<and> (\<forall>c'. c' \<noteq> c \<longrightarrow> syncStatuses s' c' = syncStatuses s c')
            \<and> pending s' = pending s @ [(c, tl (performSync w c))]"
    unfolding startSync_launch[OF c nr, of now' w] by simp
qed

theorem startSync_rate_limit_witness:
  "(\<exists>e. startSync afterEmptySync 999 65000 65000 exampleWorld = (Inl e, afterEmptySync)
        \<and> limited_remainingTime e = 1)
   \<and> (\<exists>fresh s'. startSync afterEmptySync 999 65002 65003 exampleWorld = (Inr fresh, s')
        \<and> status fresh = Running \<and> startTime fresh = 65003
        \<and> progress fresh = Some \<lparr> phase = ''initializing'', current = 0, total = 0 \<rparr>)"
proof -
  have st: "syncStatuses afterEmptySync 999 = Some completedEmpty"
    by (simp add: afterEmptySync_def)
  have f: "status completedEmpty = Completed" "endTime completedEmpty = Some 5001"
    by (simp_all add: completedEmpty_def)
  note T1 = startSync_rate_limit[of afterEmptySync 999 completedEmpty 5001 65000 65000 exampleWorld]
  note T2 = startSync_rate_limit[of afterEmptySync 999 completedEmpty 5001 65002 65003 exampleWorld]
  have "\<exists>e. startSync afterEmptySync 999 65000 65000 exampleWorld = (Inl e, afterEmptySync)
        \<and> rateLimited e \<and> limited_chainId e = 999
        \<and> limited_remainingTime e = rateLimitMs - (65000 - 5001)
        \<and> 0 < limited_remainingTime e"
    using T1 st f by (simp add: rateLimitMs_value)
  then have a: "\<exists>e. startSync afterEmptySync 999 65000 65000 exampleWorld = (Inl e, afterEmptySync)
        \<and> limited_remainingTime e = 1"
    by (auto simp: rateLimitMs_value)
  have b: "\<exists>fresh s'. startSync afterEmptySync 999 65002 65003 exampleWorld = (Inr fresh, s')
        \<and> status fresh = Running \<and> startTime fresh = 65003
        \<and> progress fresh = Some \<lparr> phase = ''initializing'', current = 0, total = 0 \<rparr>"
    using T2 st f by (simp add: rateLimitMs_value) blast
  from a b show ?thesis by blast
qed

text \<open>
  C3. In every state the service can reach, the status of a chain is running exactly
  while its \<^verbatim>\<open>performSync\<close> is pending; otherwise it is completed or failed. It is
  completed exactly when a result is attached; a failed status has an error message and
  no result; and background work never changes a completed or failed status.
\<close>

theorem terminal_state_exclusive:
  "reachable s \<and> syncStatuses s c = Some st \<longrightarrow>
     (status st = Running \<longleftrightarrow> c \<in> launched s)
     \<and> (status st = Completed \<longleftrightarrow> result st \<noteq> None)
     \<and> (status st = Failed \<longrightarrow> error st \<noteq> None \<and> result st = None)
     \<and> (status st = Completed \<longrightarrow> error st = None)
     \<and> (status st \<noteq> Running \<longrightarrow>
          (status st = Completed \<or> status st = Failed)
          \<and> (\<forall>i<length (pending s). syncStatuses (resume s i) c = Some st))"
proof (intro impI)
  assume h: "reachable s \<and> syncStatuses s c = Some st"
  then have inv: "invariant s" by (simp add: reachable_invariant)
  then have k: "if c \<in> launched s then runningStatus st else settledStatus st"
    using h unfolding invariant_def by blast
  have keep: "status st \<noteq> Running \<longrightarrow> (\<forall>i<length (pending s). syncStatuses (resume s i) c = Some st)"
    using resume_keeps_settled[OF inv] h by blast
  show "(status st = Running \<longleftrightarrow> c \<in> launched s)
     \<and> (status st = Completed \<longleftrightarrow> result st \<noteq> None)
     \<and> (status st = Failed \<longrightarrow> error st \<noteq> None \<and> result st = None)
     \<and> (status st = Completed \<longrightarrow> error st = None)
     \<and> (status st \<noteq> Running \<longrightarrow>
          (status st = Completed \<or> status st = Failed)
          \<and> (\<forall>i<length (pending s). syncStatuses (resume s i) c = Some st))"
  proof (cases "c \<in> launched s")
    case True
    then have "runningStatus st" using k by simp
    then show ?thesis using True by (simp add: runningStatus_def)
  next
    case False
    then have "settledStatus st" using k by simp
    then show ?thesis using False keep by (auto simp: settledStatus_def)
  qed
qed

theorem terminal_state_exclusive_witness:
  "reachable afterEmptySync \<and> syncStatuses afterEmptySync 999 = Some completedEmpty
   \<and> status completedEmpty = Completed \<and> result completedEmpty \<noteq> None
   \<and> error completedEmpty = None"
proof -
  have r: "reachable afterEmptySync" by (rule reachable_afterEmptySync)
  have st: "syncStatuses afterEmptySync 999 = Some completedEmpty"
    by (simp add: afterEmptySync_def)
  have c: "status completedEmpty = Completed" by (simp add: completedEmpty_def)
  from terminal_state_exclusive[of afterEmptySync 999 completedEmpty] r st
  have "(status completedEmpty = Completed \<longleftrightarrow> result completedEmpty \<noteq> None)
        \<and> (status completedEmpty = Completed \<longrightarrow> error completedEmpty = None)"
    by blast
  with c have "result completedEmpty \<noteq> None \<and> error completedEmpty = None" by blast
  with r st c show ?thesis by blast
qed

lemma mset_eq_length_filter:
  assumes "mset xs = mset ys"
  shows "length (filter P xs) = length (filter P ys)"
proof -
  have "length (filter P xs) = size (filter_mset P (mset xs))"
    by (simp only: mset_filter[symmetric] size_mset)
  also have "\<dots> = size (filter_mset P (mset ys))" by (simp only: assms)
  also have "\<dots> = length (filter P ys)"
    by (simp only: mset_filter[symmetric] size_mset)
  finally show ?thesis .
qed

lemma migration_status_count:
  "length (filter (\<lambda>d. detail_status d = X) (migration_details (migrationResults w c tokens))) =
   length (filter (\<lambda>tw. (if snd (migrateToken (hasLocalProvider w) tw) then Migrated else FailedDetail) = X)
             (map fst (hasLocalImages w c tokens)))"
proof -
  have "mset (migration_details (migrationResults w c tokens)) =
        mset (map (\<lambda>tw. fst (migrateToken (hasLocalProvider w) tw)) (map fst (hasLocalImages w c tokens)))"
    by (simp only: migrationResults_def migrateLocalImages_counts)
  then have "length (filter (\<lambda>d. detail_status d = X) (migration_details (migrationResults w c tokens))) =
        length (filter (\<lambda>d. detail_status d = X)
           (map (\<lambda>tw. fst (migrateToken (hasLocalProvider w) tw)) (map fst (hasLocalImages w c tokens))))"
    by (rule mset_eq_length_filter)
  then show ?thesis
    by (simp add: filter_map comp_def migrateToken_detail)
qed

lemma download_status_count:
  "length (filter (\<lambda>d. detail_status d = X) (download_details (downloadResults w c tokens))) =
   length (filter (\<lambda>tw. (if snd (downloadToken tw) then Downloaded else FailedDetail) = X)
             (map fst (stillMissingTokens w c tokens)))"
  by (simp add: downloadResults_def downloadMissingImages_counts filter_map comp_def
      downloadToken_detail)

lemma if_status_eq:
  "((if b then Migrated else FailedDetail) = Migrated) = b"
  "((if b then Migrated else FailedDetail) = FailedDetail) = (\<not> b)"
  "((if b then Migrated else FailedDetail) = Exists) = False"
  "((if b then Migrated else FailedDetail) = Downloaded) = False"
  "((if b then Downloaded else FailedDetail) = Downloaded) = b"
  "((if b then Downloaded else FailedDetail) = FailedDetail) = (\<not> b)"
  "((if b then Downloaded else FailedDetail) = Exists) = False"
  "((if b then Downloaded else FailedDetail) = Migrated) = False"
  by simp_all

lemma details_filter:
  "length (filter (\<lambda>d. detail_status d = X) (details (compileResult w c tokens))) =
     (if X = Exists then length (filter (\<lambda>check. snd check) (existenceChecks w c tokens)) else 0)
     + length (filter (\<lambda>d. detail_status d = X) (migration_details (migrationResults w c tokens)))
     + length (filter (\<lambda>d. detail_status d = X) (download_details (downloadResults w c tokens)))"
  by (simp add: compileResult_def filter_map comp_def)

lemma compileResult_by_status:
  "existingImages (compileResult w c tokens) =
     int (length (filter (\<lambda>d. detail_status d = Exists) (details (compileResult w c tokens))))"
  "migratedFromLocal (compileResult w c tokens) =
     int (length (filter (\<lambda>d. detail_status d = Migrated) (details (compileResult w c tokens))))"
  "downloadedImages (compileResult w c tokens) =
     int (length (filter (\<lambda>d. detail_status d = Downloaded) (details (compileResult w c tokens))))"
  "failedDownloads (compileResult w c tokens) =
     int (length (filter (\<lambda>d. detail_status d = FailedDetail) (details (compileResult w c tokens))))"
proof -
  show "existingImages (compileResult w c tokens) =
     int (length (filter (\<lambda>d. detail_status d = Exists) (details (compileResult w c tokens))))"
    unfolding details_filter migration_status_count download_status_count if_status_eq
    by (simp add: compileResult_def existing_count)
  show "migratedFromLocal (compileResult w c tokens) =
     int (length (filter (\<lambda>d. detail_status d = Migrated) (details (compileResult w c tokens))))"
    unfolding details_filter migration_status_count download_status_count if_status_eq
    by (simp add: compileResult_def migrationResults_def migrateLocalImages_counts)
  show "downloadedImages (compileResult w c tokens) =
     int (length (filter (\<lambda>d. detail_status d = Downloaded) (details (compileResult w c tokens))))"
    unfolding details_filter migration_status_count download_status_count if_status_eq
    by (simp add: compileResult_def downloadResults_def downloadMissingImages_counts)
  show "failedDownloads (compileResult w c tokens) =
     int (length (filter (\<lambda>d. detail_status d = FailedDetail) (details (compileResult w c tokens))))"
    unfolding details_filter migration_status_count download_status_count if_status_eq
    by (simp add: compileResult_def migrationResults_def migrateLocalImages_counts
        downloadResults_def downloadMissingImages_counts)
qed

lemma performSync_nonempty:
  assumes "fetchTokensFromEuler (registry w) = TokenArray tokens" "tokens \<noteq> []"
  shows "performSync w c =
      [progressUpdate ''fetching tokens'' 0 1,
       progressUpdate (''checking '' @ storageMode w @ '' storage'') 0 (int (length tokens)),
       progressUpdate ''checking local source images'' 0
         (int (length (missingFromStorage w c tokens))),
       progressUpdate ''migrating local source images'' 0
         (int (length (hasLocalImages w c tokens))),
       progressUpdate ''downloading missing images'' 0
         (int (length (stillMissingTokens w c tokens))),
       \<lparr> upd_status = Some Completed, upd_endTime = Some (now_endTime w),
         upd_progress = Some \<lparr> phase = ''completed'', current = int (length tokens),
                                total = int (length tokens) \<rparr>,
         upd_result = Some (compileResult w c tokens), upd_error = None \<rparr>]"
  using assms by (simp add: performSync_def)

lemma performSync_empty:
  assumes "registry w = Rejected
     \<or> (\<exists>response. registry w = Fulfilled response
           \<and> (\<not> ok response \<or> body response = Rejected \<or> body response = Fulfilled (TokenArray [])))"
  shows "performSync w c =
      [progressUpdate ''fetching tokens'' 0 1,
       \<lparr> upd_status = Some Completed, upd_endTime = Some (now_endTime w), upd_progress = None,
         upd_result = Some \<lparr> result_chainId = c, totalTokens = 0, existingImages = 0,
           migratedFromLocal = 0, downloadedImages = 0, failedDownloads = 0,
           duration = now_duration w - now_performSync w, details = [] \<rparr>,
         upd_error = None \<rparr>]"
proof -
  have "fetchTokensFromEuler (registry w) = TokenArray []"
    using assms by (auto simp: fetchTokensFromEuler_def)
  then show ?thesis by (simp add: performSync_def)
qed

lemma migrateToken_success:
  "snd (migrateToken lp tw) \<longleftrightarrow>
     lp \<and> (\<exists>img buf. localImage (snd tw) = Fulfilled (Some img) \<and> buffer img = Some buf)
        \<and> migrationUpload (snd tw) = Fulfilled True"
  by (auto simp: migrateToken_def Let_def split: settled.splits option.splits)

lemma downloadImageBuffer_Some:
  "downloadImageBuffer fetched \<noteq> None \<longleftrightarrow>
     (\<exists>response arrayBuffer. fetched = Fulfilled response \<and> ok response
        \<and> body response = Fulfilled arrayBuffer)"
  by (auto simp: downloadImageBuffer_def split: settled.splits)

lemma downloadToken_success:
  "snd (downloadToken tw) \<longleftrightarrow>
     (\<exists>img. resolved (snd tw) = Fulfilled (Some img)
        \<and> (buffer img \<noteq> None
           \<or> (truthy (url img)
              \<and> (\<exists>response arrayBuffer. imageFetch (snd tw) = Fulfilled response \<and> ok response
                    \<and> body response = Fulfilled arrayBuffer))))
     \<and> downloadUpload (snd tw) = Fulfilled True"
  unfolding downloadImageBuffer_Some[symmetric]
  by (auto simp: downloadToken_def Let_def split: settled.splits option.splits)

lemma downloadToken_url_fails:
  assumes "resolved (snd tw) = Fulfilled (Some img)" "buffer img = None"
    and "imageFetch (snd tw) = Rejected
         \<or> (\<exists>response. imageFetch (snd tw) = Fulfilled response
               \<and> (\<not> ok response \<or> body response = Rejected))"
  shows "downloadToken tw = (failedDetail (fst tw) (Some (provider img)), False)"
proof -
  from assms(3) have "downloadImageBuffer (imageFetch (snd tw)) = None"
    by (auto simp: downloadImageBuffer_def)
  with assms(1,2) show ?thesis
    by (simp add: downloadToken_def Let_def)
qed

text \<open>
  C5. In a migration or a download, every token of the list gets the detail of its own
  outcome, whatever happens to the others, and the counters count the tokens that
  succeeded and the tokens that failed. A token fails when the local image or the
  provider chain yields nothing, when the upload returns false, or when one of these
  calls throws; a token whose result carries a URL and no buffer also fails when the
  fetch of that URL is rejected, answers with a status that is not a success, or has a
  body that cannot be read, and its detail then names the provider. A sync over a list
  that is not empty always ends completed, and its \<^verbatim>\<open>failedDownloads\<close> is the number of
  tokens that failed, which is the number of details tagged \<^verbatim>\<open>failed\<close>.
\<close>

theorem partial_batch_resilience:
  "mset (migration_details (migrateLocalImages lp ts)) = mset (map (\<lambda>tw. fst (migrateToken lp tw)) ts)
   \<and> migrated (migrateLocalImages lp ts) = int (length (filter (\<lambda>tw. snd (migrateToken lp tw)) ts))
   \<and> migration_failed (migrateLocalImages lp ts) =
       int (length (filter (\<lambda>tw. \<not> snd (migrateToken lp tw)) ts))
   \<and> download_details (downloadMissingImages ts) = map (\<lambda>tw. fst (downloadToken tw)) ts
   \<and> downloaded (downloadMissingImages ts) = int (length (filter (\<lambda>tw. snd (downloadToken tw)) ts))
   \<and> download_failed (downloadMissingImages ts) =
       int (length (filter (\<lambda>tw. \<not> snd (downloadToken tw)) ts))
   \<and> detail_address (fst (migrateToken lp tw)) = ref_address (fst tw)
   \<and> detail_status (fst (migrateToken lp tw)) =
       (if snd (migrateToken lp tw) then Migrated else FailedDetail)
   \<and> detail_address (fst (downloadToken tw)) = ref_address (fst tw)
   \<and> detail_status (fst (downloadToken tw)) =
       (if snd (downloadToken tw) then Downloaded else FailedDetail)
   \<and> (snd (migrateToken lp tw) \<longleftrightarrow>
        lp \<and> (\<exists>img buf. localImage (snd tw) = Fulfilled (Some img) \<and> buffer img = Some buf)
           \<and> migrationUpload (snd tw) = Fulfilled True)
   \<and> (snd (downloadToken tw) \<longleftrightarrow>
        (\<exists>img. resolved (snd tw) = Fulfilled (Some img)
           \<and> (buffer img \<noteq> None
              \<or> (truthy (url img)
                 \<and> (\<exists>response arrayBuffer. imageFetch (snd tw) = Fulfilled response
                       \<and> ok response \<and> body response = Fulfilled arrayBuffer))))
        \<and> downloadUpload (snd tw) = Fulfilled True)
   \<and> (resolved (snd tw) = Fulfilled (Some img) \<and> buffer img = None
        \<and> (imageFetch (snd tw) = Rejected
           \<or> (\<exists>response. imageFetch (snd tw) = Fulfilled response
                 \<and> (\<not> ok response \<or> body response = Rejected)))
      \<longrightarrow> downloadToken tw = (failedDetail (fst tw) (Some (provider img)), False))
   \<and> (fetchTokensFromEuler (registry w) = TokenArray tokens \<and> tokens \<noteq> [] \<longrightarrow>
        upd_status (last (performSync w c)) = Some Completed
        \<and> upd_result (last (performSync w c)) = Some (compileResult w c tokens)
        \<and> failedDownloads (compileResult w c tokens) =
            int (length (filter (\<lambda>tw. \<not> snd (migrateToken (hasLocalProvider w) tw))
                           (map fst (hasLocalImages w c tokens))))
            + int (length (filter (\<lambda>tw. \<not> snd (downloadToken tw))
                             (map fst (stillMissingTokens w c tokens))))
        \<and> failedDownloads (compileResult w c tokens) =
            int (length (filter (\<lambda>d. detail_status d = FailedDetail)
                           (details (compileResult w c tokens)))))"
proof (intro conjI impI)
  show "mset (migration_details (migrateLocalImages lp ts)) = mset (map (\<lambda>tw. fst (migrateToken lp tw)) ts)"
    by (rule migrateLocalImages_counts)
  show "migrated (migrateLocalImages lp ts) = int (length (filter (\<lambda>tw. snd (migrateToken lp tw)) ts))"
    by (rule migrateLocalImages_counts)
  show "migration_failed (migrateLocalImages lp ts) =
       int (length (filter (\<lambda>tw. \<not> snd (migrateToken lp tw)) ts))"
    by (rule migrateLocalImages_counts)
  show "download_details (downloadMissingImages ts) = map (\<lambda>tw. fst (downloadToken tw)) ts"
    by (rule downloadMissingImages_counts)
  show "downloaded (downloadMissingImages ts) = int (length (filter (\<lambda>tw. snd (downloadToken tw)) ts))"
    by (rule downloadMissingImages_counts)
  show "download_failed (downloadMissingImages ts) =
       int (length (filter (\<lambda>tw. \<not> snd (downloadToken tw)) ts))"
    by (rule downloadMissingImages_counts)
  show "detail_address (fst (migrateToken lp tw)) = ref_address (fst tw)"
    by (rule migrateToken_detail)
  show "detail_status (fst (migrateToken lp tw)) =
       (if snd (migrateToken lp tw) then Migrated else FailedDetail)"
    by (rule migrateToken_detail)
  show "detail_address (fst (downloadToken tw)) = ref_address (fst tw)"
    by (rule downloadToken_detail)
  show "detail_status (fst (downloadToken tw)) =
       (if snd (downloadToken tw) then Downloaded else FailedDetail)"
    by (rule downloadToken_detail)
  show "snd (migrateToken lp tw) \<longleftrightarrow>
        lp \<and> (\<exists>img buf. localImage (snd tw) = Fulfilled (Some img) \<and> buffer img = Some buf)
           \<and> migrationUpload (snd tw) = Fulfilled True"
    by (rule migrateToken_success)
  show "snd (downloadToken tw) \<longleftrightarrow>
        (\<exists>img. resolved (snd tw) = Fulfilled (Some img)
           \<and> (buffer img \<noteq> None
              \<or> (truthy (url img)
                 \<and> (\<exists>response arrayBuffer. imageFetch (snd tw) = Fulfilled response
                       \<and> ok response \<and> body response = Fulfilled arrayBuffer))))
        \<and> downloadUpload (snd tw) = Fulfilled True"
    by (rule downloadToken_success)
next
  assume "resolved (snd tw) = Fulfilled (Some img) \<and> buffer img = None
        \<and> (imageFetch (snd tw) = Rejected
           \<or> (\<exists>response. imageFetch (snd tw) = Fulfilled response
                 \<and> (\<not> ok response \<or> body response = Rejected)))"
  then show "downloadToken tw = (failedDetail (fst tw) (Some (provider img)), False)"
    using downloadToken_url_fails[of tw img] by blast
next
  assume h: "fetchTokensFromEuler (registry w) = TokenArray tokens \<and> tokens \<noteq> []"
  then have p: "performSync w c =
      [progressUpdate ''fetching tokens'' 0 1,
       progressUpdate (''checking '' @ storageMode w @ '' storage'') 0 (int (length tokens)),
       progressUpdate ''checking local source images'' 0
         (int (length (missingFromStorage w c tokens))),
       progressUpdate ''migrating local source images'' 0
         (int (length (hasLocalImages w c tokens))),
       progressUpdate ''downloading missing images'' 0
         (int (length (stillMissingTokens w c tokens))),
       \<lparr> upd_status = Some Completed, upd_endTime = Some (now_endTime w),
         upd_progress = Some \<lparr> phase = ''completed'', current = int (length tokens),
                                total = int (length tokens) \<rparr>,
         upd_result = Some (compileResult w c tokens), upd_error = None \<rparr>]"
    using performSync_nonempty[of w tokens c] by blast
  show "upd_status (last (performSync w c)) = Some Completed"
    unfolding p by simp
  show "upd_result (last (performSync w c)) = Some (compileResult w c tokens)"
    unfolding p by simp
  show "failedDownloads (compileResult w c tokens) =
            int (length (filter (\<lambda>tw. \<not> snd (migrateToken (hasLocalProvider w) tw))
                           (map fst (hasLocalImages w c tokens))))
            + int (length (filter (\<lambda>tw. \<not> snd (downloadToken tw))
                             (map fst (stillMissingTokens w c tokens))))"
    by (simp add: compileResult_def migrationResults_def migrateLocalImages_counts
        downloadResults_def downloadMissingImages_counts)
  show "failedDownloads (compileResult w c tokens) =
            int (length (filter (\<lambda>d. detail_status d = FailedDetail)
                           (details (compileResult w c tokens))))"
    by (rule compileResult_by_status)
qed

lemma exampleWorld_tokens:
  "fetchTokensFromEuler (registry exampleWorld) = TokenArray threeTokens \<and> threeTokens \<noteq> []"
  by (simp add: fetchTokensFromEuler_def exampleWorld_def threeTokens_def)

lemma lower_examples:
  "toLowerCase ''0xA1'' = ''0xa1''" "toLowerCase ''0xb2'' = ''0xb2''" "toLowerCase ''0xC3'' = ''0xc3''"
  by (simp_all add: toLowerCase_def lowerChar_def)

lemma exampleWorld_tokenList:
  "tokenList exampleWorld 1 threeTokens = threeMissing"
  by (simp add: tokenList_def threeTokens_def threeMissing_def exampleWorld_def lower_examples)

lemma exampleWorld_stillMissing:
  "hasLocalImages exampleWorld 1 threeTokens = []"
  "map fst (stillMissingTokens exampleWorld 1 threeTokens) = threeMissing"
proof -
  have e: "existenceChecks exampleWorld 1 threeTokens = map (\<lambda>tw. (tw, False)) threeMissing"
    by (simp add: existenceChecks_def exampleWorld_tokenList bulkCheckImagesInStorage_def
        threeMissing_def downloadsFine_def uploadFails_def)
  have m: "missingFromStorage exampleWorld 1 threeTokens = map (\<lambda>tw. (tw, False)) threeMissing"
    by (simp add: missingFromStorage_def e)
  have l: "localChecks exampleWorld 1 threeTokens = map (\<lambda>tw. (tw, False)) threeMissing"
    by (simp add: localChecks_def m bulkCheckLocalImages_def comp_def)
       (simp add: threeMissing_def downloadsFine_def uploadFails_def exampleWorld_def)
  show "hasLocalImages exampleWorld 1 threeTokens = []"
    by (simp add: hasLocalImages_def l)
  show "map fst (stillMissingTokens exampleWorld 1 threeTokens) = threeMissing"
    by (simp add: stillMissingTokens_def l comp_def)
qed

lemma downloadToken_examples:
  "snd (downloadToken (t, downloadsFine))" "\<not> snd (downloadToken (t, uploadFails))"
  by (simp_all add: downloadToken_def downloadsFine_def uploadFails_def coingeckoResult_def
      truthy_def downloadImageBuffer_def)

lemma urlFetchFails_resolved:
  "resolved urlFetchFails = Fulfilled (Some coingeckoResult)" "buffer coingeckoResult = None"
  "imageFetch urlFetchFails = Rejected"
  "resolved urlNotFound = Fulfilled (Some coingeckoResult)"
  "\<exists>response. imageFetch urlNotFound = Fulfilled response \<and> \<not> ok response"
  by (simp_all add: urlFetchFails_def urlNotFound_def downloadsFine_def coingeckoResult_def)

theorem partial_batch_resilience_witness:
  "fetchTokensFromEuler (registry exampleWorld) = TokenArray threeTokens \<and> threeTokens \<noteq> []
   \<and> download_failed (downloadMissingImages threeMissing) = 1
   \<and> downloaded (downloadMissingImages threeMissing) = 2
   \<and> failedDownloads (compileResult exampleWorld 1 threeTokens) = 1
   \<and> upd_status (last (performSync exampleWorld 1)) = Some Completed
   \<and> resolved urlFetchFails = Fulfilled (Some coingeckoResult) \<and> buffer coingeckoResult = None
   \<and> imageFetch urlFetchFails = Rejected
   \<and> (\<exists>response. imageFetch urlNotFound = Fulfilled response \<and> \<not> ok response)
   \<and> download_failed (downloadMissingImages fourMissing) = 2
   \<and> downloaded (downloadMissingImages fourMissing) = 2
   \<and> map detail_status (download_details (downloadMissingImages fourMissing)) =
       [Downloaded, FailedDetail, FailedDetail, Downloaded]
   \<and> map detail_provider (download_details (downloadMissingImages fourMissing)) =
       [Some ''coingecko'', Some ''coingecko'', Some ''coingecko'', Some ''coingecko'']"
proof -
  note T = partial_batch_resilience[of True threeMissing "hd threeMissing" coingeckoResult
      exampleWorld threeTokens 1]
  have a: "download_failed (downloadMissingImages threeMissing) = 1"
    using T by (simp add: threeMissing_def downloadToken_examples)
  have b: "downloaded (downloadMissingImages threeMissing) = 2"
    using T by (simp add: threeMissing_def downloadToken_examples)
  from T exampleWorld_tokens
  have c: "upd_status (last (performSync exampleWorld 1)) = Some Completed"
    and d: "failedDownloads (compileResult exampleWorld 1 threeTokens) =
            int (length (filter (\<lambda>tw. \<not> snd (migrateToken (hasLocalProvider exampleWorld) tw))
                           (map fst (hasLocalImages exampleWorld 1 threeTokens))))
            + int (length (filter (\<lambda>tw. \<not> snd (downloadToken tw))
                             (map fst (stillMissingTokens exampleWorld 1 threeTokens))))"
    by blast+
  have e: "failedDownloads (compileResult exampleWorld 1 threeTokens) = 1"
    unfolding d exampleWorld_stillMissing
    by (simp add: threeMissing_def downloadToken_examples)
  have f1: "downloadToken (t, urlFetchFails) = (failedDetail t (Some ''coingecko''), False)" for t
  proof -
    have "resolved (snd (t, urlFetchFails)) = Fulfilled (Some coingeckoResult)
        \<and> buffer coingeckoResult = None
        \<and> (imageFetch (snd (t, urlFetchFails)) = Rejected
           \<or> (\<exists>response. imageFetch (snd (t, urlFetchFails)) = Fulfilled response
                 \<and> (\<not> ok response \<or> body response = Rejected)))"
      using urlFetchFails_resolved by auto
    with partial_batch_resilience[of True fourMissing "(t, urlFetchFails)" coingeckoResult
        exampleWorld threeTokens 1]
    have "downloadToken (t, urlFetchFails) =
        (failedDetail (fst (t, urlFetchFails)) (Some (provider coingeckoResult)), False)"
      by blast
    then show ?thesis by (simp add: coingeckoResult_def)
  qed
  have f2: "downloadToken (t, urlNotFound) = (failedDetail t (Some ''coingecko''), False)" for t
  proof -
    have "resolved (snd (t, urlNotFound)) = Fulfilled (Some coingeckoResult)
        \<and> buffer coingeckoResult = None
        \<and> (imageFetch (snd (t, urlNotFound)) = Rejected
           \<or> (\<exists>response. imageFetch (snd (t, urlNotFound)) = Fulfilled response
                 \<and> (\<not> ok response \<or> body response = Rejected)))"
      using urlFetchFails_resolved by auto
    with partial_batch_resilience[of True fourMissing "(t, urlNotFound)" coingeckoResult
        exampleWorld threeTokens 1]
    have "downloadToken (t, urlNotFound) =
        (failedDetail (fst (t, urlNotFound)) (Some (provider coingeckoResult)), False)"
      by blast
    then show ?thesis by (simp add: coingeckoResult_def)
  qed
  have f0: "fst (downloadToken (t, downloadsFine)) =
      \<lparr> detail_address = ref_address t, detail_status = Downloaded,
        detail_provider = Some ''coingecko'' \<rparr>" for t
    by (simp add: downloadToken_def downloadsFine_def coingeckoResult_def truthy_def
        downloadImageBuffer_def)
  note U = partial_batch_resilience[of True fourMissing "hd fourMissing" coingeckoResult
      exampleWorld threeTokens 1]
  have g: "download_failed (downloadMissingImages fourMissing) = 2"
    using U by (simp add: fourMissing_def downloadToken_examples f1 f2)
  have h: "downloaded (downloadMissingImages fourMissing) = 2"
    using U by (simp add: fourMissing_def downloadToken_examples f1 f2)
  have dd: "download_details (downloadMissingImages fourMissing) =
      map (\<lambda>tw. fst (downloadToken tw)) fourMissing"
    using U by blast
  have i: "map detail_status (download_details (downloadMissingImages fourMissing)) =
       [Downloaded, FailedDetail, FailedDetail, Downloaded]"
    unfolding dd by (simp add: fourMissing_def f0 f1 f2 failedDetail_def)
  have j: "map detail_provider (download_details (downloadMissingImages fourMissing)) =
       [Some ''coingecko'', Some ''coingecko'', Some ''coingecko'', Some ''coingecko'']"
    unfolding dd by (simp add: fourMissing_def f0 f1 f2 failedDetail_def)
  from exampleWorld_tokens a b c e urlFetchFails_resolved g h i j show ?thesis by blast
qed

text \<open>
  C6 (amended). When the fetch of the token registry is rejected, answers with a status
  that is not a success, cannot be read as JSON or yields an empty list, the only update
  that \<^verbatim>\<open>performSync\<close> makes after the fetch is the completed one, with a result whose
  counters are all 0 and whose detail list is empty; no error is recorded. The duration
  of the result is the reading of the clock when the result is built minus the reading
  at the start of \<^verbatim>\<open>performSync\<close>: it is not negative exactly when the second reading is
  not before the first.
\<close>

theorem empty_registry_completes:
  "(registry w = Rejected
     \<or> (\<exists>response. registry w = Fulfilled response
           \<and> (\<not> ok response \<or> body response = Rejected \<or> body response = Fulfilled (TokenArray []))))
   \<longrightarrow>
     performSync w c =
       [progressUpdate ''fetching tokens'' 0 1,
        \<lparr> upd_status = Some Completed, upd_endTime = Some (now_endTime w), upd_progress = None,
          upd_result = Some \<lparr> result_chainId = c, totalTokens = 0, existingImages = 0,
            migratedFromLocal = 0, downloadedImages = 0, failedDownloads = 0,
            duration = now_duration w - now_performSync w, details = [] \<rparr>,
          upd_error = None \<rparr>]
     \<and> (\<exists>r. upd_result (last (performSync w c)) = Some r
           \<and> duration r = now_duration w - now_performSync w
           \<and> (0 \<le> duration r) = (now_performSync w \<le> now_duration w))
     \<and> (\<forall>s now now'. checkRateLimit (syncStatuses s) c now = None
            \<and> (\<forall>st. syncStatuses s c = Some st \<longrightarrow> status st \<noteq> Running)
          \<longrightarrow> (\<exists>st'. syncStatuses (resume (snd (startSync s c now now' w)) (length (pending s))) c
                         = Some st'
                  \<and> status st' = Completed \<and> error st' = None
                  \<and> endTime st' = Some (now_endTime w)
                  \<and> result st' = Some \<lparr> result_chainId = c, totalTokens = 0, existingImages = 0,
                       migratedFromLocal = 0, downloadedImages = 0, failedDownloads = 0,
                       duration = now_duration w - now_performSync w, details = [] \<rparr>))"
proof (intro impI conjI allI)
  assume h: "registry w = Rejected
     \<or> (\<exists>response. registry w = Fulfilled response
           \<and> (\<not> ok response \<or> body response = Rejected \<or> body response = Fulfilled (TokenArray [])))"
  show p: "performSync w c =
       [progressUpdate ''fetching tokens'' 0 1,
        \<lparr> upd_status = Some Completed, upd_endTime = Some (now_endTime w), upd_progress = None,
          upd_result = Some \<lparr> result_chainId = c, totalTokens = 0, existingImages = 0,
            migratedFromLocal = 0, downloadedImages = 0, failedDownloads = 0,
            duration = now_duration w - now_performSync w, details = [] \<rparr>,
          upd_error = None \<rparr>]"
    using h by (rule performSync_empty)
  show "\<exists>r. upd_result (last (performSync w c)) = Some r
           \<and> duration r = now_duration w - now_performSync w
           \<and> (0 \<le> duration r) = (now_performSync w \<le> now_duration w)"
    unfolding p by simp
  fix s :: SyncService and now now' :: int
  assume a: "checkRateLimit (syncStatuses s) c now = None
            \<and> (\<forall>st. syncStatuses s c = Some st \<longrightarrow> status st \<noteq> Running)"
  have l: "snd (startSync s c now now' w) =
      \<lparr> syncStatuses = (syncStatuses s)(c \<mapsto>
           \<lparr> chainId = c, status = Running, startTime = now', endTime = None,
             progress = Some \<lparr> phase = ''fetching tokens'', current = 0, total = 1 \<rparr>,
             result = None, error = None,
             remainingTime = Some (RATE_LIMIT_MINUTES * 60 * 1000) \<rparr>),
        pending = pending s @ [(c, tl (performSync w c))] \<rparr>"
    using startSync_launch[of s c now now' w] a by simp
  show "\<exists>st'. syncStatuses (resume (snd (startSync s c now now' w)) (length (pending s))) c
                         = Some st'
                  \<and> status st' = Completed \<and> error st' = None
                  \<and> endTime st' = Some (now_endTime w)
                  \<and> result st' = Some \<lparr> result_chainId = c, totalTokens = 0, existingImages = 0,
                       migratedFromLocal = 0, downloadedImages = 0, failedDownloads = 0,
                       duration = now_duration w - now_performSync w, details = [] \<rparr>"
    unfolding l p by (simp add: resume_def updateSyncStatus_def mergeUpdate_def)
qed

theorem empty_registry_completes_witness:
  "(\<exists>response. registry emptyWorld = Fulfilled response \<and> \<not> ok response)
   \<and> performSync emptyWorld 999 =
       [progressUpdate ''fetching tokens'' 0 1,
        \<lparr> upd_status = Some Completed, upd_endTime = Some 5001, upd_progress = None,
          upd_result = Some emptyResult, upd_error = None \<rparr>]
   \<and> 0 \<le> duration emptyResult"
proof -
  have h: "\<exists>response. registry emptyWorld = Fulfilled response \<and> \<not> ok response"
    by (simp add: emptyWorld_def exampleWorld_def)
  then have "registry emptyWorld = Rejected
     \<or> (\<exists>response. registry emptyWorld = Fulfilled response
           \<and> (\<not> ok response \<or> body response = Rejected \<or> body response = Fulfilled (TokenArray [])))"
    by blast
  with empty_registry_completes[of emptyWorld 999]
  have "performSync emptyWorld 999 =
       [progressUpdate ''fetching tokens'' 0 1,
        \<lparr> upd_status = Some Completed, upd_endTime = Some (now_endTime emptyWorld), upd_progress = None,
          upd_result = Some \<lparr> result_chainId = 999, totalTokens = 0, existingImages = 0,
            migratedFromLocal = 0, downloadedImages = 0, failedDownloads = 0,
            duration = now_duration emptyWorld - now_performSync emptyWorld, details = [] \<rparr>,
          upd_error = None \<rparr>]"
    by blast
  then have p: "performSync emptyWorld 999 =
       [progressUpdate ''fetching tokens'' 0 1,
        \<lparr> upd_status = Some Completed, upd_endTime = Some 5001, upd_progress = None,
          upd_result = Some emptyResult, upd_error = None \<rparr>]"
    by (simp add: emptyWorld_def exampleWorld_def emptyResult_def)
  have "0 \<le> duration emptyResult" by (simp add: emptyResult_def)
  with h p show ?thesis by blast
qed

theorem negative_duration_counterexample:
  "registry clockSetBack = Fulfilled \<lparr> ok = True, body = Fulfilled (TokenArray []) \<rparr>
   \<and> performSync clockSetBack 999 =
       [progressUpdate ''fetching tokens'' 0 1,
        \<lparr> upd_status = Some Completed, upd_endTime = Some 5001, upd_progress = None,
          upd_result = Some \<lparr> result_chainId = 999, totalTokens = 0, existingImages = 0,
            migratedFromLocal = 0, downloadedImages = 0, failedDownloads = 0,
            duration = - 4000, details = [] \<rparr>,
          upd_error = None \<rparr>]
   \<and> (\<exists>r. upd_status (last (performSync clockSetBack 999)) = Some Completed
          \<and> upd_result (last (performSync clockSetBack 999)) = Some r
          \<and> \<not> 0 \<le> duration r)"
proof -
  have r: "registry clockSetBack = Fulfilled \<lparr> ok = True, body = Fulfilled (TokenArray []) \<rparr>"
    by (simp add: clockSetBack_def exampleWorld_def)
  then have "registry clockSetBack = Rejected
     \<or> (\<exists>response. registry clockSetBack = Fulfilled response
           \<and> (\<not> ok response \<or> body response = Rejected
              \<or> body response = Fulfilled (TokenArray [])))"
    by simp
  then have "performSync clockSetBack 999 =
       [progressUpdate ''fetching tokens'' 0 1,
        \<lparr> upd_status = Some Completed, upd_endTime = Some (now_endTime clockSetBack),
          upd_progress = None,
          upd_result = Some \<lparr> result_chainId = 999, totalTokens = 0, existingImages = 0,
            migratedFromLocal = 0, downloadedImages = 0, failedDownloads = 0,
            duration = now_duration clockSetBack - now_performSync clockSetBack, details = [] \<rparr>,
          upd_error = None \<rparr>]"
    by (rule performSync_empty)
  then have p: "performSync clockSetBack 999 =
       [progressUpdate ''fetching tokens'' 0 1,
        \<lparr> upd_status = Some Completed, upd_endTime = Some 5001, upd_progress = None,
          upd_result = Some \<lparr> result_chainId = 999, totalTokens = 0, existingImages = 0,
            migratedFromLocal = 0, downloadedImages = 0, failedDownloads = 0,
            duration = - 4000, details = [] \<rparr>,
          upd_error = None \<rparr>]"
    by (simp add: clockSetBack_def exampleWorld_def)
  have "\<exists>r. upd_status (last (performSync clockSetBack 999)) = Some Completed
          \<and> upd_result (last (performSync clockSetBack 999)) = Some r
          \<and> \<not> 0 \<le> duration r"
    unfolding p by simp
  with r p show ?thesis by blast
qed

text \<open>
  C10. A sync over a token list that is not empty ends completed, with a result whose four
  counters add up to \<^verbatim>\<open>totalTokens\<close>, the length of the list; each counter is the number
  of details with its tag, and the details hold one entry for each token of the list,
  under its lowercased address.
\<close>

theorem sync_result_accounting:
  "fetchTokensFromEuler (registry w) = TokenArray tokens \<and> tokens \<noteq> [] \<longrightarrow>
     (\<exists>r. upd_status (last (performSync w c)) = Some Completed
        \<and> upd_result (last (performSync w c)) = Some r
        \<and> filter (\<lambda>u. upd_status u \<noteq> None) (performSync w c) = [last (performSync w c)]
        \<and> existingImages r + migratedFromLocal r + downloadedImages r + failedDownloads r
            = totalTokens r
        \<and> totalTokens r = int (length tokens)
        \<and> length (details r) = length tokens
        \<and> mset (map detail_address (details r)) = mset (map (\<lambda>t. toLowerCase (address t)) tokens)
        \<and> existingImages r = int (length (filter (\<lambda>d. detail_status d = Exists) (details r)))
        \<and> migratedFromLocal r = int (length (filter (\<lambda>d. detail_status d = Migrated) (details r)))
        \<and> downloadedImages r = int (length (filter (\<lambda>d. detail_status d = Downloaded) (details r)))
        \<and> failedDownloads r = int (length (filter (\<lambda>d. detail_status d = FailedDetail) (details r))))"
proof
  assume h: "fetchTokensFromEuler (registry w) = TokenArray tokens \<and> tokens \<noteq> []"
  let ?r = "compileResult w c tokens"
  have p: "performSync w c =
      [progressUpdate ''fetching tokens'' 0 1,
       progressUpdate (''checking '' @ storageMode w @ '' storage'') 0 (int (length tokens)),
       progressUpdate ''checking local source images'' 0
         (int (length (missingFromStorage w c tokens))),
       progressUpdate ''migrating local source images'' 0
         (int (length (hasLocalImages w c tokens))),
       progressUpdate ''downloading missing images'' 0
         (int (length (stillMissingTokens w c tokens))),
       \<lparr> upd_status = Some Completed, upd_endTime = Some (now_endTime w),
         upd_progress = Some \<lparr> phase = ''completed'', current = int (length tokens),
                                total = int (length tokens) \<rparr>,
         upd_result = Some ?r, upd_error = None \<rparr>]"
    using performSync_nonempty[of w tokens c] h by blast
  have l: "length (details ?r) = length tokens"
  proof -
    have "length (details ?r) = size (mset (map detail_address (details ?r)))" by simp
    also have "\<dots> = size (mset (map (\<lambda>t. toLowerCase (address t)) tokens))"
      by (simp only: compileResult_addresses)
    finally show ?thesis by simp
  qed
  have "upd_status (last (performSync w c)) = Some Completed
        \<and> upd_result (last (performSync w c)) = Some ?r
        \<and> filter (\<lambda>u. upd_status u \<noteq> None) (performSync w c) = [last (performSync w c)]"
    unfolding p by (simp add: progressUpdate_def)
  moreover have "totalTokens ?r = int (length tokens)"
    by (simp add: compileResult_def)
  ultimately show "\<exists>r. upd_status (last (performSync w c)) = Some Completed
        \<and> upd_result (last (performSync w c)) = Some r
        \<and> filter (\<lambda>u. upd_status u \<noteq> None) (performSync w c) = [last (performSync w c)]
        \<and> existingImages r + migratedFromLocal r + downloadedImages r + failedDownloads r
            = totalTokens r
        \<and> totalTokens r = int (length tokens)
        \<and> length (details r) = length tokens
        \<and> mset (map detail_address (details r)) = mset (map (\<lambda>t. toLowerCase (address t)) tokens)
        \<and> existingImages r = int (length (filter (\<lambda>d. detail_status d = Exists) (details r)))
        \<and> migratedFromLocal r = int (length (filter (\<lambda>d. detail_status d = Migrated) (details r)))
        \<and> downloadedImages r = int (length (filter (\<lambda>d. detail_status d = Downloaded) (details r)))
        \<and> failedDownloads r = int (length (filter (\<lambda>d. detail_status d = FailedDetail) (details r)))"
    using compileResult_sum[of w c tokens] l compileResult_addresses[of w c tokens]
      compileResult_by_status[of w c tokens]
    by blast
qed

theorem sync_result_accounting_witness:
  "fetchTokensFromEuler (registry exampleWorld) = TokenArray threeTokens \<and> threeTokens \<noteq> []
   \<and> (\<exists>r. upd_result (last (performSync exampleWorld 1)) = Some r
         \<and> existingImages r + migratedFromLocal r + downloadedImages r + failedDownloads r = 3
         \<and> length (details r) = 3)"
proof -
  from sync_result_accounting[of exampleWorld threeTokens 1] exampleWorld_tokens
  obtain r where r: "upd_result (last (performSync exampleWorld 1)) = Some r"
      "existingImages r + migratedFromLocal r + downloadedImages r + failedDownloads r = totalTokens r"
      "totalTokens r = int (length threeTokens)" "length (details r) = length threeTokens"
    by blast
  have "length threeTokens = 3" by (simp add: threeTokens_def)
  with r have "existingImages r + migratedFromLocal r + downloadedImages r + failedDownloads r = 3
         \<and> length (details r) = 3"
    by simp
  with r(1) exampleWorld_tokens show ?thesis by blast
qed

section \<open>Storage keys and provider results: auxiliary facts and claims\<close>

declare natToString.simps [simp del]

lemma storageKey_case: "toLowerCase a = toLowerCase b \<Longrightarrow> storageKey c a = storageKey c b"
  by (simp add: storageKey_def)

lemma upload_succeeds:
  "fst (uploadImageToS3 s3 f c a buf ext md) \<longleftrightarrow> s3Client s3 \<and> \<not> f"
  by (simp add: uploadImageToS3_def)

lemma upload_bucket:
  assumes "s3Client s3" "\<not> f"
  shows "s3Client (snd (uploadImageToS3 s3 f c a buf ext md))"
    and "\<exists>obj. Body obj = buf \<and>
           bucket (snd (uploadImageToS3 s3 f c a buf ext md)) = (bucket s3)(storageKey c a \<mapsto> obj)"
proof -
  show "s3Client (snd (uploadImageToS3 s3 f c a buf ext md))"
    using assms by (simp add: uploadImageToS3_def)
  have "Body (putCommand buf ext md) = buf" by (simp add: putCommand_def)
  moreover have "bucket (snd (uploadImageToS3 s3 f c a buf ext md)) =
      (bucket s3)(storageKey c a \<mapsto> putCommand buf ext md)"
    using assms by (simp add: uploadImageToS3_def)
  ultimately show "\<exists>obj. Body obj = buf \<and>
           bucket (snd (uploadImageToS3 s3 f c a buf ext md)) = (bucket s3)(storageKey c a \<mapsto> obj)"
    by blast
qed

lemma upload_then_read:
  assumes "fst (uploadImageToS3 s3 f c a buf ext md)"
  shows "checkImageExistsInS3 (snd (uploadImageToS3 s3 f c a buf ext md)) False c a"
    and "\<exists>img. getImageFromS3 (snd (uploadImageToS3 s3 f c a buf ext md)) False c a = Some img
           \<and> stored_buffer img = buf"
proof -
  from assms have cl: "s3Client s3" "\<not> f" by (simp_all add: upload_succeeds)
  obtain obj where obj: "Body obj = buf"
    "bucket (snd (uploadImageToS3 s3 f c a buf ext md)) = (bucket s3)(storageKey c a \<mapsto> obj)"
    using upload_bucket(2)[OF cl] by blast
  note c' = upload_bucket(1)[OF cl, of c a buf ext md]
  show "checkImageExistsInS3 (snd (uploadImageToS3 s3 f c a buf ext md)) False c a"
    by (simp add: checkImageExistsInS3_def c' obj(2))
  show "\<exists>img. getImageFromS3 (snd (uploadImageToS3 s3 f c a buf ext md)) False c a = Some img
           \<and> stored_buffer img = buf"
    by (simp add: getImageFromS3_def c' obj)
qed

lemma upload_twice_dom:
  assumes "fst (uploadImageToS3 s3 f c a buf ext md)"
  shows "dom (bucket (snd (uploadImageToS3 (snd (uploadImageToS3 s3 f c a buf ext md))
                            False c a buf' ext' md')))
           = insert (storageKey c a) (dom (bucket s3))"
proof -
  from assms have cl: "s3Client s3" "\<not> f" by (simp_all add: upload_succeeds)
  obtain obj where obj:
    "bucket (snd (uploadImageToS3 s3 f c a buf ext md)) = (bucket s3)(storageKey c a \<mapsto> obj)"
    using upload_bucket(2)[OF cl] by blast
  note c' = upload_bucket(1)[OF cl, of c a buf ext md]
  obtain obj' where obj':
    "bucket (snd (uploadImageToS3 (snd (uploadImageToS3 s3 f c a buf ext md)) False c a buf' ext' md'))
       = (bucket (snd (uploadImageToS3 s3 f c a buf ext md)))(storageKey c a \<mapsto> obj')"
    using upload_bucket(2)[OF c', of False] by blast
  show ?thesis unfolding obj' obj by simp
qed

lemma existenceEntry_ref:
  assumes "i < length tokens"
  shows "fst (existenceEntry w c tokens i) =
           \<lparr> ref_chainId = c, ref_address = toLowerCase (address (tokens ! i)) \<rparr>"
proof -
  have "fst (fst (existenceChecks w c tokens ! i)) = fst (tokenList w c tokens ! i)"
    using assms by (simp add: existenceChecks_def bulkCheckImagesInStorage_def tokenList_def)
  also have "\<dots> = \<lparr> ref_chainId = c, ref_address = toLowerCase (address (tokens ! i)) \<rparr>"
    using assms by (simp add: tokenList_def nth_enumerate_eq)
  finally show ?thesis by (simp add: existenceEntry_def)
qed

lemma existenceEntry_exists:
  assumes "i < length tokens"
  shows "snd (existenceEntry w c tokens i) =
           (case storageCheck (tokenWorld w i) of Fulfilled e \<Rightarrow> e | Rejected \<Rightarrow> False)"
  using assms
  by (simp add: existenceEntry_def existenceChecks_def bulkCheckImagesInStorage_def tokenList_def
      nth_enumerate_eq)

text \<open>
  C8. Two addresses that differ only in letter case have the same lowercased form, hence
  the same storage key; the existence check, the read and the write give the same answer
  for both, an image written under one casing is found and read under the other, and
  writing under both leaves one object. In the bulk check of \<^verbatim>\<open>performSync\<close> the entries
  of two such tokens name the same chain and the same lowercased address, so two missing
  ones are the same entry, and they agree on \<^verbatim>\<open>exists\<close> when both answers come from one
  state of the bucket.
\<close>

theorem storage_key_case_insensitive:
  "(toLowerCase a = toLowerCase b \<longrightarrow>
      storageKey c a = storageKey c b
      \<and> storageKey c a = toString c @ ''/'' @ toLowerCase a @ ''/image''
      \<and> checkImageExistsInS3 s3 f c a = checkImageExistsInS3 s3 f c b
      \<and> getImageFromS3 s3 f c a = getImageFromS3 s3 f c b
      \<and> uploadImageToS3 s3 f c a buf ext md = uploadImageToS3 s3 f c b buf ext md
      \<and> (fst (uploadImageToS3 s3 f c a buf ext md) \<longrightarrow>
            checkImageExistsInS3 (snd (uploadImageToS3 s3 f c a buf ext md)) False c b
            \<and> (\<exists>img. getImageFromS3 (snd (uploadImageToS3 s3 f c a buf ext md)) False c b = Some img
                  \<and> stored_buffer img = buf)
            \<and> dom (bucket (snd (uploadImageToS3 (snd (uploadImageToS3 s3 f c a buf ext md))
                                   False c b buf' ext' md')))
                = insert (storageKey c a) (dom (bucket s3))))
   \<and> (i < length tokens \<and> j < length tokens
        \<and> toLowerCase (address (tokens ! i)) = toLowerCase (address (tokens ! j)) \<longrightarrow>
      fst (existenceEntry w c tokens i) = fst (existenceEntry w c tokens j)
      \<and> (\<not> snd (existenceEntry w c tokens i) \<and> \<not> snd (existenceEntry w c tokens j) \<longrightarrow>
            existenceEntry w c tokens i = existenceEntry w c tokens j)
      \<and> (storageCheck (tokenWorld w i) =
             Fulfilled (checkImageExistsInS3 s3 False c (toLowerCase (address (tokens ! i))))
          \<and> storageCheck (tokenWorld w j) =
             Fulfilled (checkImageExistsInS3 s3 False c (toLowerCase (address (tokens ! j)))) \<longrightarrow>
            existenceEntry w c tokens i = existenceEntry w c tokens j))"
proof (intro conjI impI)
  assume h: "toLowerCase a = toLowerCase b"
  then have k: "storageKey c a = storageKey c b" by (rule storageKey_case)
  show "storageKey c a = storageKey c b" by (rule k)
  show "storageKey c a = toString c @ ''/'' @ toLowerCase a @ ''/image''"
    by (simp add: storageKey_def)
  show "checkImageExistsInS3 s3 f c a = checkImageExistsInS3 s3 f c b"
    by (simp add: checkImageExistsInS3_def k)
  show "getImageFromS3 s3 f c a = getImageFromS3 s3 f c b"
    by (simp add: getImageFromS3_def k)
  show u: "uploadImageToS3 s3 f c a buf ext md = uploadImageToS3 s3 f c b buf ext md"
    by (simp add: uploadImageToS3_def k)
  assume ok: "fst (uploadImageToS3 s3 f c a buf ext md)"
  then have okb: "fst (uploadImageToS3 s3 f c b buf ext md)" using u by simp
  show "checkImageExistsInS3 (snd (uploadImageToS3 s3 f c a buf ext md)) False c b"
    using upload_then_read(1)[OF okb] u by simp
  show "\<exists>img. getImageFromS3 (snd (uploadImageToS3 s3 f c a buf ext md)) False c b = Some img
          \<and> stored_buffer img = buf"
    using upload_then_read(2)[OF okb] u by simp
  show "dom (bucket (snd (uploadImageToS3 (snd (uploadImageToS3 s3 f c a buf ext md))
                                   False c b buf' ext' md')))
                = insert (storageKey c a) (dom (bucket s3))"
  proof -
    have "uploadImageToS3 (snd (uploadImageToS3 s3 f c a buf ext md)) False c b buf' ext' md' =
          uploadImageToS3 (snd (uploadImageToS3 s3 f c a buf ext md)) False c a buf' ext' md'"
      by (simp add: uploadImageToS3_def k)
    then show ?thesis using upload_twice_dom[OF ok] by simp
  qed
next
  assume h: "i < length tokens \<and> j < length tokens
        \<and> toLowerCase (address (tokens ! i)) = toLowerCase (address (tokens ! j))"
  then show r: "fst (existenceEntry w c tokens i) = fst (existenceEntry w c tokens j)"
    by (simp add: existenceEntry_ref)
  show "existenceEntry w c tokens i = existenceEntry w c tokens j"
    if "\<not> snd (existenceEntry w c tokens i) \<and> \<not> snd (existenceEntry w c tokens j)"
    using that r by (simp add: prod_eq_iff)
  show "existenceEntry w c tokens i = existenceEntry w c tokens j"
    if "storageCheck (tokenWorld w i) =
             Fulfilled (checkImageExistsInS3 s3 False c (toLowerCase (address (tokens ! i))))
          \<and> storageCheck (tokenWorld w j) =
             Fulfilled (checkImageExistsInS3 s3 False c (toLowerCase (address (tokens ! j))))"
  proof -
    have k: "toLowerCase (address (tokens ! i)) = toLowerCase (address (tokens ! j))"
      using h by blast
    have e: "checkImageExistsInS3 s3 False c (toLowerCase (address (tokens ! i))) =
             checkImageExistsInS3 s3 False c (toLowerCase (address (tokens ! j)))"
      by (simp only: k)
    from that have a: "storageCheck (tokenWorld w i) =
             Fulfilled (checkImageExistsInS3 s3 False c (toLowerCase (address (tokens ! i))))"
      and b: "storageCheck (tokenWorld w j) =
             Fulfilled (checkImageExistsInS3 s3 False c (toLowerCase (address (tokens ! j))))"
      by blast+
    have "snd (existenceEntry w c tokens i) =
            (case storageCheck (tokenWorld w i) of Fulfilled e \<Rightarrow> e | Rejected \<Rightarrow> False)"
      using h existenceEntry_exists by blast
    then have si: "snd (existenceEntry w c tokens i) =
        checkImageExistsInS3 s3 False c (toLowerCase (address (tokens ! i)))"
      by (simp only: a settled.case)
    have "snd (existenceEntry w c tokens j) =
            (case storageCheck (tokenWorld w j) of Fulfilled e \<Rightarrow> e | Rejected \<Rightarrow> False)"
      using h existenceEntry_exists by blast
    then have sj: "snd (existenceEntry w c tokens j) =
        checkImageExistsInS3 s3 False c (toLowerCase (address (tokens ! j)))"
      by (simp only: b settled.case)
    have "snd (existenceEntry w c tokens i) = snd (existenceEntry w c tokens j)"
      by (simp only: si sj e)
    with r show ?thesis by (simp add: prod_eq_iff)
  qed
qed

lemma lower_ABC: "toLowerCase ''0xABC'' = ''0xabc''" "toLowerCase ''0xabc'' = ''0xabc''"
  by (simp_all add: toLowerCase_def lowerChar_def)

theorem storage_key_case_insensitive_witness:
  "toLowerCase ''0xABC'' = toLowerCase ''0xabc''
   \<and> fst (uploadImageToS3 emptyBucket False 1 ''0xABC'' [1, 2, 3] ''png'' migrationMetadata)
   \<and> checkImageExistsInS3
        (snd (uploadImageToS3 emptyBucket False 1 ''0xABC'' [1, 2, 3] ''png'' migrationMetadata))
        False 1 ''0xabc''
   \<and> existenceEntry exampleWorld 1 mixedCaseTokens 0 = existenceEntry exampleWorld 1 mixedCaseTokens 1"
proof -
  note T = storage_key_case_insensitive[of "''0xABC''" "''0xabc''" 1 emptyBucket False
      "[1, 2, 3]" "''png''" migrationMetadata "[]" "''png''" migrationMetadata
      0 mixedCaseTokens 1 exampleWorld]
  have l: "toLowerCase ''0xABC'' = toLowerCase ''0xabc''"
    by (simp add: lower_ABC)
  have u: "fst (uploadImageToS3 emptyBucket False 1 ''0xABC'' [1, 2, 3] ''png'' migrationMetadata)"
    by (simp add: uploadImageToS3_def emptyBucket_def)
  from T l u have a: "checkImageExistsInS3
        (snd (uploadImageToS3 emptyBucket False 1 ''0xABC'' [1, 2, 3] ''png'' migrationMetadata))
        False 1 ''0xabc''"
    by blast
  have t: "0 < length mixedCaseTokens \<and> 1 < length mixedCaseTokens
        \<and> toLowerCase (address (mixedCaseTokens ! 0)) = toLowerCase (address (mixedCaseTokens ! 1))"
    by (simp add: mixedCaseTokens_def lower_ABC)
  have m: "\<not> snd (existenceEntry exampleWorld 1 mixedCaseTokens 0)
         \<and> \<not> snd (existenceEntry exampleWorld 1 mixedCaseTokens 1)"
    by (simp add: existenceEntry_exists mixedCaseTokens_def exampleWorld_def downloadsFine_def
        uploadFails_def)
  from T t m have b: "existenceEntry exampleWorld 1 mixedCaseTokens 0 =
      existenceEntry exampleWorld 1 mixedCaseTokens 1"
    by blast
  from l u a b show ?thesis by blast
qed

lemma toString_1: "toString 1 = ''1''"
proof -
  have "natToString (Suc 0) = [digitChar (Suc 0)]"
    by (subst natToString.simps) simp
  then show ?thesis by (simp add: toString_def digitChar_def)
qed

lemma getExtensionFromUrl_closed:
  "getExtensionFromUrl pathnameOf u \<in> set [''png'', ''jpg'', ''jpeg'', ''webp'', ''svg'']"
proof (cases "pathnameOf u")
  case None
  then show ?thesis by (simp add: getExtensionFromUrl_def)
next
  case (Some pathname)
  show ?thesis
  proof (cases "pop (split CHR ''.'' pathname)")
    case None
    then show ?thesis using Some by (simp add: getExtensionFromUrl_def)
  next
    case (Some e)
    show ?thesis
    proof (cases "toLowerCase e \<in> set [''png'', ''jpg'', ''jpeg'', ''webp'', ''svg'']")
      case True
      then show ?thesis
        using \<open>pathnameOf u = Some pathname\<close> Some
        by (simp only: getExtensionFromUrl_def option.case if_True)
    next
      case False
      then have "getExtensionFromUrl pathnameOf u = ''png''"
        using \<open>pathnameOf u = Some pathname\<close> Some
        by (simp only: getExtensionFromUrl_def option.case if_False)
      then show ?thesis by simp
    qed
  qed
qed

lemma closed_subset:
  "x \<in> set [''png'', ''jpg'', ''jpeg'', ''webp'', ''svg''] \<Longrightarrow> x \<in> set closedExtensions"
  by (auto simp: closedExtensions_def)

lemma local_result:
  assumes "LocalImagesProvider_fetchImage base fs c a = Some r"
  shows "url r = None \<and> buffer r \<noteq> None \<and> provider r = ''local'' \<and> extension r \<noteq> []
     \<and> (\<exists>files imageFile.
           readdir fs (join [base, toString c, toLowerCase a]) = Fulfilled files
           \<and> List.find (\<lambda>file. startsWith file ''image.'') files = Some imageFile
           \<and> pop (split CHR ''.'' imageFile) = Some (extension r))"
proof -
  let ?dir = "join [base, toString c, toLowerCase a]"
  from assms have ex: "existsSync fs ?dir"
    by (simp add: LocalImagesProvider_fetchImage_def Let_def split: if_splits)
  from assms ex obtain files where files: "readdir fs ?dir = Fulfilled files"
    by (cases "readdir fs ?dir") (simp_all add: LocalImagesProvider_fetchImage_def Let_def)
  from assms ex files obtain imageFile where
    f: "List.find (\<lambda>file. startsWith file ''image.'') files = Some imageFile"
    by (cases "List.find (\<lambda>file. startsWith file ''image.'') files")
       (simp_all add: LocalImagesProvider_fetchImage_def Let_def)
  from assms ex files f obtain ext where e: "pop (split CHR ''.'' imageFile) = Some ext"
    by (cases "pop (split CHR ''.'' imageFile)")
       (simp_all add: LocalImagesProvider_fetchImage_def Let_def)
  from assms ex files f e have ne: "ext \<noteq> []"
    by (simp add: LocalImagesProvider_fetchImage_def Let_def split: if_splits)
  from assms ex files f e ne obtain contents where
    "readFile fs (join [?dir, imageFile]) = Fulfilled contents"
    by (cases "readFile fs (join [?dir, imageFile])")
       (simp_all add: LocalImagesProvider_fetchImage_def Let_def)
  with assms ex files f e ne have
    "r = \<lparr> url = None, buffer = Some contents, provider = ''local'', extension = ext,
           path = Some (join [?dir, imageFile]) \<rparr>"
    by (simp add: LocalImagesProvider_fetchImage_def Let_def)
  then show ?thesis using files f e ne by simp
qed

lemma coingecko_result:
  assumes "CoinGeckoProvider_fetchImage apiKey pathnameOf fetch c a = Some r"
  shows "truthy (url r) \<and> buffer r = None \<and> provider r = ''coingecko''
     \<and> (\<exists>u. url r = Some u \<and> extension r = getExtensionFromUrl pathnameOf u)"
  using assms
  by (auto simp: CoinGeckoProvider_fetchImage_def truthy_def
      split: if_splits option.splits settled.splits)

lemma getExtensionFromUrlOr_remote:
  assumes "fallback \<in> set remoteExtensions"
  shows "getExtensionFromUrlOr fallback pathnameOf u \<in> set remoteExtensions"
proof (cases "pathnameOf u")
  case None
  then show ?thesis using assms by (simp add: getExtensionFromUrlOr_def)
next
  case (Some pathname)
  show ?thesis
  proof (cases "pop (split CHR ''.'' pathname)")
    case None
    then show ?thesis using Some assms by (simp add: getExtensionFromUrlOr_def)
  next
    case (Some e)
    show ?thesis
    proof (cases "toLowerCase e \<in> set [''png'', ''jpg'', ''jpeg'', ''webp'', ''svg'', ''gif'']")
      case True
      then have "getExtensionFromUrlOr fallback pathnameOf u = toLowerCase e"
        using \<open>pathnameOf u = Some pathname\<close> Some
        by (simp only: getExtensionFromUrlOr_def option.case if_True)
      then show ?thesis using True by (simp only: remoteExtensions_def)
    next
      case False
      then have "getExtensionFromUrlOr fallback pathnameOf u = fallback"
        using \<open>pathnameOf u = Some pathname\<close> Some
        by (simp only: getExtensionFromUrlOr_def option.case if_False)
      then show ?thesis using assms by simp
    qed
  qed
qed

lemma fallback_remote: "''png'' \<in> set remoteExtensions" "''svg'' \<in> set remoteExtensions"
  by (simp_all add: remoteExtensions_def)

lemma remote_closed: "x \<in> set remoteExtensions \<Longrightarrow> x \<in> set closedExtensions"
  by (auto simp: remoteExtensions_def closedExtensions_def)

lemma remote_nonempty: "x \<in> set remoteExtensions \<Longrightarrow> x \<noteq> []"
  by (auto simp: remoteExtensions_def)

lemma coingecko_remote:
  assumes "CoinGeckoProvider_fetchImage apiKey pathnameOf fetch c a = Some r"
  shows "truthy (url r) \<and> buffer r = None \<and> provider r = ''coingecko''
     \<and> extension r \<in> set remoteExtensions"
proof -
  from coingecko_result[OF assms] obtain u where
    t: "truthy (url r)" "buffer r = None" "provider r = ''coingecko''"
    and e: "extension r = getExtensionFromUrl pathnameOf u"
    by blast
  have "getExtensionFromUrl pathnameOf u \<in> set [''png'', ''jpg'', ''jpeg'', ''webp'', ''svg'']"
    by (rule getExtensionFromUrl_closed)
  then have "extension r \<in> set remoteExtensions"
    unfolding e remoteExtensions_def by auto
  with t show ?thesis by blast
qed

lemma oneInch_remote:
  assumes "fst (OneInchProvider_fetchImage cache now pathnameOf fetch c a) = Some r"
  shows "truthy (url r) \<and> buffer r = None \<and> provider r = ''1inch''
     \<and> extension r \<in> set remoteExtensions"
  using assms getExtensionFromUrlOr_remote[OF fallback_remote(1), of pathnameOf]
  by (auto simp: OneInchProvider_fetchImage_def Let_def split: if_splits option.splits prod.splits)

lemma alchemy_remote:
  assumes "AlchemyProvider_fetchImage apiKey pathnameOf fetch c a = Some r"
  shows "truthy (url r) \<and> buffer r = None \<and> provider r = ''alchemy''
     \<and> extension r \<in> set remoteExtensions"
  using assms getExtensionFromUrlOr_remote[OF fallback_remote(1), of pathnameOf]
  by (auto simp: AlchemyProvider_fetchImage_def split: if_splits option.splits settled.splits)

lemma simDune_remote:
  assumes "SimDuneProvider_fetchImage apiKey pathnameOf fetch c a = Some r"
  shows "truthy (url r) \<and> buffer r = None \<and> provider r = ''sim-dune''
     \<and> extension r \<in> set remoteExtensions"
  using assms getExtensionFromUrlOr_remote[OF fallback_remote(1), of pathnameOf]
  by (auto simp: SimDuneProvider_fetchImage_def Let_def split: if_splits option.splits settled.splits SimDuneData.splits list.splits)

lemma pendle_remote:
  assumes "fst (PendleProvider_fetchImage cache now pathnameOf fetch c a) = Some r"
  shows "truthy (url r) \<and> buffer r = None \<and> provider r = ''pendle''
     \<and> extension r \<in> set remoteExtensions"
  using assms getExtensionFromUrlOr_remote[OF fallback_remote(2), of pathnameOf]
  by (auto simp: PendleProvider_fetchImage_def split: if_splits option.splits prod.splits)

lemma tokenList_loop_remote:
  "fst (TokenListProvider_loop cache clock pathnameOf fetch urls i c a) = Some r \<Longrightarrow>
     truthy (url r) \<and> buffer r = None \<and> provider r = ''token-lists''
     \<and> extension r \<in> set remoteExtensions"
proof (induction urls arbitrary: cache i)
  case Nil
  then show ?case by simp
next
  case (Cons listUrl rest)
  obtain fetched cache' where f:
    "TokenListProvider_fetchTokenList cache (clock i) fetch listUrl = (fetched, cache')"
    by (cases "TokenListProvider_fetchTokenList cache (clock i) fetch listUrl")
  show ?case
  proof (cases "fst (TokenListProvider_loop cache clock pathnameOf fetch (listUrl # rest) i c a)
                = fst (TokenListProvider_loop cache' clock pathnameOf fetch rest (i + 1) c a)")
    case True
    with Cons.prems have "fst (TokenListProvider_loop cache' clock pathnameOf fetch rest (i + 1) c a) = Some r"
      by simp
    then show ?thesis by (rule Cons.IH)
  next
    case False
    with f Cons.prems show ?thesis
      using getExtensionFromUrlOr_remote[OF fallback_remote(1), of pathnameOf]
      by (auto split: option.splits if_splits)
  qed
qed

lemma tokenList_remote:
  assumes "fst (TokenListProvider_fetchImage urls cache clock pathnameOf fetch c a) = Some r"
  shows "truthy (url r) \<and> buffer r = None \<and> provider r = ''token-lists''
     \<and> extension r \<in> set remoteExtensions"
  using assms unfolding TokenListProvider_fetchImage_def by (rule tokenList_loop_remote)

lemma providersForUnderlying_providers:
  "providersForUnderlying (providers env) =
     [LocalImagesProvider env, CoinGeckoProvider env, OneInchProvider env, AlchemyProvider env,
      SimDuneProvider env, PendleProvider env, TokenListProvider env]"
  by (simp add: providersForUnderlying_def providers_def LocalImagesProvider_def
      CoinGeckoProvider_def OneInchProvider_def AlchemyProvider_def SimDuneProvider_def
      PendleProvider_def TokenListProvider_def PendlePTUnderlyingProvider_def)

lemma local_fetched:
  assumes "snd (provider_fetchImage ps (LocalImagesProvider env) c a) = Fulfilled (Some r)"
  shows "LocalImagesProvider_fetchImage (env_baseImagePath env) (env_fileSystem env) c a = Some r"
  using assms by (simp add: LocalImagesProvider_def)

lemma remote_fetched:
  assumes "q \<in> set [CoinGeckoProvider env, OneInchProvider env, AlchemyProvider env,
                    SimDuneProvider env, PendleProvider env, TokenListProvider env]"
    and "snd (provider_fetchImage ps q c a) = Fulfilled (Some r)"
  shows "name q \<in> set [''coingecko'', ''1inch'', ''alchemy'', ''sim-dune'', ''pendle'', ''token-lists'']
     \<and> provider r = name q \<and> truthy (url r) \<and> buffer r = None
     \<and> extension r \<in> set remoteExtensions"
proof -
  from assms(1) consider
      "q = CoinGeckoProvider env" | "q = OneInchProvider env" | "q = AlchemyProvider env"
    | "q = SimDuneProvider env" | "q = PendleProvider env" | "q = TokenListProvider env"
    by auto
  then show ?thesis
  proof cases
    case 1
    with assms(2) have "CoinGeckoProvider_fetchImage (env_coingeckoKey env)
        (env_pathnameOf env) (env_coingeckoFetch env) c a = Some r"
      by (simp add: CoinGeckoProvider_def)
    from coingecko_remote[OF this] show ?thesis using 1 by (simp add: CoinGeckoProvider_def)
  next
    case 2
    with assms(2) have "fst (OneInchProvider_fetchImage (env_oneInchCache env) (env_now env)
        (env_pathnameOf env) (env_oneInchFetch env) c a) = Some r"
      by (simp add: OneInchProvider_def)
    from oneInch_remote[OF this] show ?thesis using 2 by (simp add: OneInchProvider_def)
  next
    case 3
    with assms(2) have "AlchemyProvider_fetchImage (env_alchemyKey env)
        (env_pathnameOf env) (env_alchemyFetch env) c a = Some r"
      by (simp add: AlchemyProvider_def)
    from alchemy_remote[OF this] show ?thesis using 3 by (simp add: AlchemyProvider_def)
  next
    case 4
    with assms(2) have "SimDuneProvider_fetchImage (env_simDuneKey env)
        (env_pathnameOf env) (env_simDuneFetch env) c a = Some r"
      by (simp add: SimDuneProvider_def)
    from simDune_remote[OF this] show ?thesis using 4 by (simp add: SimDuneProvider_def)
  next
    case 5
    with assms(2) have "fst (PendleProvider_fetchImage (env_pendleCache env) (env_now env)
        (env_pathnameOf env) (env_pendleFetch env) c a) = Some r"
      by (simp add: PendleProvider_def)
    from pendle_remote[OF this] show ?thesis using 5 by (simp add: PendleProvider_def)
  next
    case 6
    with assms(2) have "fst (TokenListProvider_fetchImage (env_tokenListUrls env)
        (env_tokenListCache env) (env_clock env) (env_pathnameOf env)
        (env_tokenListFetch env) c a) = Some r"
      by (simp add: TokenListProvider_def)
    from tokenList_remote[OF this] show ?thesis using 6 by (simp add: TokenListProvider_def)
  qed
qed

lemma answer_fetched:
  "answer ps c a q = Some r \<Longrightarrow> snd (provider_fetchImage ps q c a) = Fulfilled (Some r)"
  by (auto simp: answer_def split: if_splits settled.splits)

lemma name_registered:
  "name (LocalImagesProvider env) = ''local''"
  "name (PendlePTUnderlyingProvider env) = ''pendle-pt-underlying''"
  by (simp_all add: LocalImagesProvider_def PendlePTUnderlyingProvider_def)

lemma pendlePT_registered:
  assumes "snd (provider_fetchImage (providers env') (PendlePTUnderlyingProvider env) c a)
             = Fulfilled (Some r)"
  shows "provider r = ''pendle-pt-underlying''
     \<and> ((\<exists>u img. getImageFromS3 (env_s3 env) (env_sendFails env) c u = Some img
             \<and> r = storedResult img)
        \<or> (\<exists>u r0. LocalImagesProvider_fetchImage (env_baseImagePath env') (env_fileSystem env') c u
                      = Some r0
             \<and> r = r0\<lparr> provider := ''pendle-pt-underlying'' \<rparr>)
        \<or> (truthy (url r) \<and> buffer r = None \<and> extension r \<in> set remoteExtensions))"
proof -
  let ?lookup = "\<lambda>c a. (env_latency env ''pendle-pt-underlying'',
                         Fulfilled (getImageFromS3 (env_s3 env) (env_sendFails env) c a))"
  from pendlePT_result[of "providers env'" True "env_isPendlePT env"
      "env_getUnderlyingAssetAddress env" ?lookup c a]
  obtain t r' where
    f: "provider_fetchImage (providers env') (PendlePTUnderlyingProvider env) c a = (t, Fulfilled r')"
    and alt: "r' = None
       \<or> (\<exists>u img. snd (env_getUnderlyingAssetAddress env c a) = Fulfilled (Some u)
             \<and> snd (?lookup c u) = Fulfilled (Some img) \<and> r' = Some (storedResult img))
       \<or> (\<exists>u q r0. snd (env_getUnderlyingAssetAddress env c a) = Fulfilled (Some u)
             \<and> q \<in> set (providersForUnderlying (providers env'))
             \<and> answer (providers env') c u q = Some r0
             \<and> r' = Some (r0\<lparr> provider := ''pendle-pt-underlying'' \<rparr>))"
    unfolding PendlePTUnderlyingProvider_def by blast
  from f assms have r': "r' = Some r" by simp
  from alt r' consider
      (stored) u img where "getImageFromS3 (env_s3 env) (env_sendFails env) c u = Some img"
        "r = storedResult img"
    | (delegated) u q r0 where "q \<in> set (providersForUnderlying (providers env'))"
        "answer (providers env') c u q = Some r0"
        "r = r0\<lparr> provider := ''pendle-pt-underlying'' \<rparr>"
    by auto
  then show ?thesis
  proof cases
    case stored
    then show ?thesis by (auto simp: storedResult_def)
  next
    case delegated
    note fetched = answer_fetched[OF delegated(2)]
    from delegated(1) consider
        "q = LocalImagesProvider env'"
      | "q \<in> set [CoinGeckoProvider env', OneInchProvider env', AlchemyProvider env',
                   SimDuneProvider env', PendleProvider env', TokenListProvider env']"
      unfolding providersForUnderlying_providers by auto
    then show ?thesis
    proof cases
      case 1
      with fetched have "LocalImagesProvider_fetchImage (env_baseImagePath env')
          (env_fileSystem env') c u = Some r0"
        using local_fetched by blast
      with delegated(3) show ?thesis by auto
    next
      case 2
      from remote_fetched[OF 2 fetched] delegated(3) show ?thesis by simp
    qed
  qed
qed

lemma storedResult_shape:
  "url (storedResult img) = None \<and> buffer (storedResult img) \<noteq> None
   \<and> extension (storedResult img) \<noteq> []"
  by (auto simp: storedResult_def truthy_def split: option.splits)

text \<open>
  C9 (amended). Take any of the eight providers that the manager registers, and any result
  that its \<^verbatim>\<open>fetchImage\<close> returns; for the \<^verbatim>\<open>PendlePTUnderlyingProvider\<close> the
  delegated calls may find the files, caches and network in another state \<open>env'\<close>. The
  result is tagged with the name of the provider. Exactly one of \<^verbatim>\<open>url\<close> and \<^verbatim>\<open>buffer\<close>
  is populated, and the extension is not empty. A result that carries a URL has an
  extension among png, jpg, jpeg, webp, svg and gif, which all lie in the closed set; the
  results of CoinGecko, 1inch, Alchemy, Sim Dune, Pendle and the token lists all carry a
  URL. A result of the Local provider carries a buffer, and its extension is what follows
  the last dot of the name of the file found on disk. A result of the
  \<^verbatim>\<open>PendlePTUnderlyingProvider\<close> that carries a buffer is the image stored in the bucket
  for the underlying asset, with the extension stored with it or png, or the result of
  the Local provider for the underlying asset under the new provider name.
\<close>

theorem provider_result_shape:
  assumes "p \<in> set (providers env)"
    and "snd (provider_fetchImage (providers env') p c a) = Fulfilled (Some r)"
  shows "provider r = name p
     \<and> ((truthy (url r) \<and> buffer r = None) \<or> (url r = None \<and> buffer r \<noteq> None))
     \<and> extension r \<noteq> []
     \<and> (truthy (url r) \<longrightarrow> extension r \<in> set remoteExtensions \<and> extension r \<in> set closedExtensions)
     \<and> (name p \<in> set [''coingecko'', ''1inch'', ''alchemy'', ''sim-dune'', ''pendle'', ''token-lists'']
          \<longrightarrow> truthy (url r))
     \<and> (name p = ''local'' \<longrightarrow>
          url r = None
          \<and> (\<exists>files imageFile.
                readdir (env_fileSystem env) (join [env_baseImagePath env, toString c, toLowerCase a])
                  = Fulfilled files
                \<and> List.find (\<lambda>file. startsWith file ''image.'') files = Some imageFile
                \<and> pop (split CHR ''.'' imageFile) = Some (extension r)))
     \<and> (name p = ''pendle-pt-underlying'' \<and> url r = None \<longrightarrow>
          (\<exists>u img. getImageFromS3 (env_s3 env) (env_sendFails env) c u = Some img
              \<and> r = storedResult img)
          \<or> (\<exists>u r0. LocalImagesProvider_fetchImage (env_baseImagePath env') (env_fileSystem env') c u
                       = Some r0
              \<and> r = r0\<lparr> provider := ''pendle-pt-underlying'' \<rparr>))"
proof -
  from assms(1) consider
      (local) "p = LocalImagesProvider env"
    | (remote) "p \<in> set [CoinGeckoProvider env, OneInchProvider env, AlchemyProvider env,
                         SimDuneProvider env, PendleProvider env, TokenListProvider env]"
    | (pt) "p = PendlePTUnderlyingProvider env"
    unfolding providers_def by auto
  then show ?thesis
  proof cases
    case local
    with assms(2) have "LocalImagesProvider_fetchImage (env_baseImagePath env)
        (env_fileSystem env) c a = Some r"
      using local_fetched by blast
    from local_result[OF this] show ?thesis
      unfolding local name_registered by (simp add: truthy_def)
  next
    case remote
    from remote_fetched[OF remote assms(2)]
    have n: "name p \<in> set [''coingecko'', ''1inch'', ''alchemy'', ''sim-dune'', ''pendle'', ''token-lists'']"
      and s: "provider r = name p" "truthy (url r)" "buffer r = None"
        "extension r \<in> set remoteExtensions"
      by blast+
    from n have "name p \<noteq> ''local''" "name p \<noteq> ''pendle-pt-underlying''" by auto
    with s remote_closed[OF s(4)] remote_nonempty[OF s(4)] show ?thesis by simp
  next
    case pt
    from assms(2) have "snd (provider_fetchImage (providers env') (PendlePTUnderlyingProvider env) c a)
             = Fulfilled (Some r)"
      unfolding pt .
    from pendlePT_registered[OF this]
    have pr: "provider r = ''pendle-pt-underlying''"
      and alt: "(\<exists>u img. getImageFromS3 (env_s3 env) (env_sendFails env) c u = Some img
             \<and> r = storedResult img)
        \<or> (\<exists>u r0. LocalImagesProvider_fetchImage (env_baseImagePath env') (env_fileSystem env') c u
                      = Some r0
             \<and> r = r0\<lparr> provider := ''pendle-pt-underlying'' \<rparr>)
        \<or> (truthy (url r) \<and> buffer r = None \<and> extension r \<in> set remoteExtensions)"
      by blast+
    from alt consider
        (stored) u img where "getImageFromS3 (env_s3 env) (env_sendFails env) c u = Some img"
          "r = storedResult img"
      | (passedLocal) u r0 where
          "LocalImagesProvider_fetchImage (env_baseImagePath env') (env_fileSystem env') c u = Some r0"
          "r = r0\<lparr> provider := ''pendle-pt-underlying'' \<rparr>"
      | (passedRemote) "truthy (url r)" "buffer r = None" "extension r \<in> set remoteExtensions"
      by (elim disjE exE conjE) blast+
    then show ?thesis
    proof cases
      case stored
      have sh: "url r = None" "buffer r \<noteq> None" "extension r \<noteq> []"
        unfolding stored(2) using storedResult_shape[of img] by blast+
      then have "\<not> truthy (url r)" by (simp add: truthy_def)
      with sh pr stored show ?thesis
        unfolding pt name_registered by auto
    next
      case passedLocal
      from local_result[OF passedLocal(1)]
      have "url r0 = None" "buffer r0 \<noteq> None" "extension r0 \<noteq> []" by blast+
      then have sh: "url r = None" "buffer r \<noteq> None" "extension r \<noteq> []"
        unfolding passedLocal(2) by simp_all
      then have "\<not> truthy (url r)" by (simp add: truthy_def)
      with sh pr passedLocal show ?thesis
        unfolding pt name_registered by auto
    next
      case passedRemote
      then have "url r \<noteq> None" by (auto simp: truthy_def split: option.splits)
      with passedRemote pr remote_closed[OF passedRemote(3)] remote_nonempty[OF passedRemote(3)]
      show ?thesis
        unfolding pt name_registered by auto
    qed
  qed
qed

lemma answer_local:
  "answer ps c a (LocalImagesProvider env) =
     (if env_localAvailable env
      then LocalImagesProvider_fetchImage (env_baseImagePath env) (env_fileSystem env) c a
      else None)"
  by (simp add: answer_def LocalImagesProvider_def)

lemma answer_coingecko:
  "answer ps c a (CoinGeckoProvider env) =
     (if env_coingeckoKey env \<noteq> []
      then CoinGeckoProvider_fetchImage (env_coingeckoKey env) (env_pathnameOf env)
             (env_coingeckoFetch env) c a
      else None)"
  by (simp add: answer_def CoinGeckoProvider_def)

lemma pendlePT_passes_on:
  assumes "env_isPendlePT env c a = (t1, Fulfilled True)"
    and "env_getUnderlyingAssetAddress env c a = (t2, Fulfilled (Some u))" "u \<noteq> []"
    and "getImageFromS3 (env_s3 env) (env_sendFails env) c u = None"
    and "snd (fetchImageForUnderlying ps c u) = Fulfilled (Some r0)"
  shows "snd (provider_fetchImage ps (PendlePTUnderlyingProvider env) c a) =
           Fulfilled (Some (r0\<lparr> provider := ''pendle-pt-underlying'' \<rparr>))"
proof -
  obtain t4 where "fetchImageForUnderlying ps c u = (t4, Fulfilled (Some r0))"
    using assms(5) by (cases "fetchImageForUnderlying ps c u") simp
  with assms(1-4) show ?thesis
    unfolding PendlePTUnderlyingProvider_def by simp
qed

lemma pendlePT_returns_stored:
  assumes "env_isPendlePT env c a = (t1, Fulfilled True)"
    and "env_getUnderlyingAssetAddress env c a = (t2, Fulfilled (Some u))" "u \<noteq> []"
    and "getImageFromS3 (env_s3 env) (env_sendFails env) c u = Some img"
  shows "snd (provider_fetchImage ps (PendlePTUnderlyingProvider env) c a) =
           Fulfilled (Some (storedResult img))"
  using assms unfolding PendlePTUnderlyingProvider_def by (simp add: storedResult_def)

lemma local_png:
  "LocalImagesProvider_fetchImage ''images'' pngFileSystem 1 ''0xABC'' = Some localResult"
  by (simp add: LocalImagesProvider_fetchImage_def Let_def pngFileSystem_def toString_1 lower_ABC
      startsWith_def pop_def localResult_def)

lemma local_text:
  "LocalImagesProvider_fetchImage ''images'' textFileSystem 1 ''0xABC'' = Some textResult"
  by (simp add: LocalImagesProvider_fetchImage_def Let_def textFileSystem_def toString_1 lower_ABC
      startsWith_def pop_def textResult_def)

lemma coingecko_png:
  "CoinGeckoProvider_fetchImage ''key'' (\<lambda>u. Some ''/abc.png'')
     (\<lambda>request. Fulfilled \<lparr> ok = True,
        body = Fulfilled \<lparr> image_large = Some ''https://assets.example/abc.png'' \<rparr> \<rparr>)
     1 a = Some coingeckoResult"
  by (simp add: CoinGeckoProvider_fetchImage_def chainIdToCoingeckoId_def truthy_def
      getExtensionFromUrl_def pop_def toLowerCase_def lowerChar_def coingeckoResult_def)

lemma env_fields:
  "env_localAvailable quietEnvironment" "env_baseImagePath quietEnvironment = ''images''"
  "env_fileSystem quietEnvironment =
     \<lparr> existsSync = (\<lambda>dir. False), readdir = (\<lambda>dir. Rejected), readFile = (\<lambda>file. Rejected) \<rparr>"
  "env_coingeckoKey quietEnvironment = []"
  "env_pathnameOf quietEnvironment = (\<lambda>u. Some ''/abc.png'')"
  "env_isPendlePT quietEnvironment = (\<lambda>c a. (1, Fulfilled (a = ''0xpt'')))"
  "env_getUnderlyingAssetAddress quietEnvironment = (\<lambda>c a. (2, Fulfilled (Some ''0xABC'')))"
  "env_s3 quietEnvironment = emptyBucket" "\<not> env_sendFails quietEnvironment"
  by (simp_all add: quietEnvironment_def)

lemma no_stored: "getImageFromS3 emptyBucket False c u = None"
  by (simp add: getImageFromS3_def emptyBucket_def)

lemma png_local:
  "snd (provider_fetchImage ps (LocalImagesProvider pngEnvironment) 1 ''0xABC'')
     = Fulfilled (Some localResult)"
  by (simp add: LocalImagesProvider_def pngEnvironment_def coingeckoEnvironment_def env_fields
      local_png)

lemma png_coingecko:
  "snd (provider_fetchImage ps (CoinGeckoProvider pngEnvironment) 1 ''0xABC'')
     = Fulfilled (Some coingeckoResult)"
  by (simp add: CoinGeckoProvider_def pngEnvironment_def coingeckoEnvironment_def env_fields
      coingecko_png)

lemma coingecko_underlying:
  "snd (fetchImageForUnderlying (providers coingeckoEnvironment) 1 ''0xABC'')
     = Fulfilled (Some coingeckoResult)"
proof -
  have l: "answer (providers coingeckoEnvironment) 1 ''0xABC'' (LocalImagesProvider coingeckoEnvironment)
      = None"
    by (simp add: answer_local coingeckoEnvironment_def env_fields
        LocalImagesProvider_fetchImage_def Let_def)
  have g: "answer (providers coingeckoEnvironment) 1 ''0xABC'' (CoinGeckoProvider coingeckoEnvironment)
      = Some coingeckoResult"
    by (simp add: answer_coingecko coingeckoEnvironment_def env_fields coingecko_png)
  show ?thesis
    by (simp only: fetchImageForUnderlying_eq providersForUnderlying_providers snd_conv)
       (simp add: l g)
qed

lemma coingecko_pt:
  "snd (provider_fetchImage (providers coingeckoEnvironment)
          (PendlePTUnderlyingProvider coingeckoEnvironment) 1 ''0xpt'')
     = Fulfilled (Some (coingeckoResult\<lparr> provider := ''pendle-pt-underlying'' \<rparr>))"
proof (rule pendlePT_passes_on)
  show "env_isPendlePT coingeckoEnvironment 1 ''0xpt'' = (1, Fulfilled True)"
    by (simp add: coingeckoEnvironment_def env_fields)
  show "env_getUnderlyingAssetAddress coingeckoEnvironment 1 ''0xpt'' = (2, Fulfilled (Some ''0xABC''))"
    by (simp add: coingeckoEnvironment_def env_fields)
  show "''0xABC'' \<noteq> []" by simp
  show "getImageFromS3 (env_s3 coingeckoEnvironment) (env_sendFails coingeckoEnvironment) 1 ''0xABC''
      = None"
    by (simp add: coingeckoEnvironment_def env_fields no_stored)
  show "snd (fetchImageForUnderlying (providers coingeckoEnvironment) 1 ''0xABC'')
      = Fulfilled (Some coingeckoResult)"
    by (rule coingecko_underlying)
qed

lemma text_underlying:
  "snd (fetchImageForUnderlying (providers textEnvironment) 1 ''0xABC'')
     = Fulfilled (Some textResult)"
proof -
  have l: "answer (providers textEnvironment) 1 ''0xABC'' (LocalImagesProvider textEnvironment)
      = Some textResult"
    by (simp add: answer_local textEnvironment_def env_fields local_text)
  show ?thesis
    by (simp only: fetchImageForUnderlying_eq providersForUnderlying_providers snd_conv)
       (simp add: l)
qed

lemma text_pt:
  "snd (provider_fetchImage (providers textEnvironment)
          (PendlePTUnderlyingProvider textEnvironment) 1 ''0xpt'')
     = Fulfilled (Some (textResult\<lparr> provider := ''pendle-pt-underlying'' \<rparr>))"
proof (rule pendlePT_passes_on)
  show "env_isPendlePT textEnvironment 1 ''0xpt'' = (1, Fulfilled True)"
    by (simp add: textEnvironment_def env_fields)
  show "env_getUnderlyingAssetAddress textEnvironment 1 ''0xpt'' = (2, Fulfilled (Some ''0xABC''))"
    by (simp add: textEnvironment_def env_fields)
  show "''0xABC'' \<noteq> []" by simp
  show "getImageFromS3 (env_s3 textEnvironment) (env_sendFails textEnvironment) 1 ''0xABC'' = None"
    by (simp add: textEnvironment_def env_fields no_stored)
  show "snd (fetchImageForUnderlying (providers textEnvironment) 1 ''0xABC'')
      = Fulfilled (Some textResult)"
    by (rule text_underlying)
qed

lemma migrated_stored:
  "getImageFromS3 (env_s3 migratedEnvironment) (env_sendFails migratedEnvironment) 1 ''0xABC'' =
     Some \<lparr> stored_buffer = [104, 105], stored_contentType = ''application/octet-stream'',
            stored_extension = Some ''txt'' \<rparr>"
  by (simp add: migratedEnvironment_def env_fields uploadImageToS3_def emptyBucket_def
      getImageFromS3_def putCommand_def textMigration_def truthy_def getMimeType_def
      toLowerCase_def lowerChar_def)

lemma migrated_pt:
  "snd (provider_fetchImage (providers migratedEnvironment)
          (PendlePTUnderlyingProvider migratedEnvironment) 1 ''0xpt'')
     = Fulfilled (Some \<lparr> url = None, buffer = Some [104, 105], provider = ''pendle-pt-underlying'',
                         extension = ''txt'', path = None \<rparr>)"
proof -
  have "snd (provider_fetchImage (providers migratedEnvironment)
          (PendlePTUnderlyingProvider migratedEnvironment) 1 ''0xpt'')
     = Fulfilled (Some (storedResult \<lparr> stored_buffer = [104, 105],
          stored_contentType = ''application/octet-stream'', stored_extension = Some ''txt'' \<rparr>))"
  proof (rule pendlePT_returns_stored)
    show "env_isPendlePT migratedEnvironment 1 ''0xpt'' = (1, Fulfilled True)"
      by (simp add: migratedEnvironment_def env_fields)
    show "env_getUnderlyingAssetAddress migratedEnvironment 1 ''0xpt'' = (2, Fulfilled (Some ''0xABC''))"
      by (simp add: migratedEnvironment_def env_fields)
    show "''0xABC'' \<noteq> []" by simp
    show "getImageFromS3 (env_s3 migratedEnvironment) (env_sendFails migratedEnvironment) 1 ''0xABC'' =
       Some \<lparr> stored_buffer = [104, 105], stored_contentType = ''application/octet-stream'',
            stored_extension = Some ''txt'' \<rparr>"
      by (rule migrated_stored)
  qed
  then show ?thesis by (simp add: storedResult_def truthy_def)
qed

lemma text_local:
  "snd (provider_fetchImage ps (LocalImagesProvider textEnvironment) 1 ''0xABC'')
     = Fulfilled (Some textResult)"
  by (simp add: LocalImagesProvider_def textEnvironment_def env_fields local_text)

lemma registered:
  "LocalImagesProvider env \<in> set (providers env)"
  "CoinGeckoProvider env \<in> set (providers env)"
  "PendlePTUnderlyingProvider env \<in> set (providers env)"
  by (simp_all add: providers_def)

theorem provider_result_shape_witness:
  "LocalImagesProvider pngEnvironment \<in> set (providers pngEnvironment)
   \<and> snd (provider_fetchImage (providers pngEnvironment) (LocalImagesProvider pngEnvironment)
            1 ''0xABC'') = Fulfilled (Some localResult)
   \<and> url localResult = None \<and> buffer localResult \<noteq> None \<and> extension localResult \<noteq> []
   \<and> CoinGeckoProvider pngEnvironment \<in> set (providers pngEnvironment)
   \<and> snd (provider_fetchImage (providers pngEnvironment) (CoinGeckoProvider pngEnvironment)
            1 ''0xABC'') = Fulfilled (Some coingeckoResult)
   \<and> truthy (url coingeckoResult) \<and> buffer coingeckoResult = None
   \<and> extension coingeckoResult \<in> set closedExtensions
   \<and> PendlePTUnderlyingProvider coingeckoEnvironment \<in> set (providers coingeckoEnvironment)
   \<and> snd (provider_fetchImage (providers coingeckoEnvironment)
            (PendlePTUnderlyingProvider coingeckoEnvironment) 1 ''0xpt'')
        = Fulfilled (Some (coingeckoResult\<lparr> provider := ''pendle-pt-underlying'' \<rparr>))
   \<and> buffer (coingeckoResult\<lparr> provider := ''pendle-pt-underlying'' \<rparr>) = None
   \<and> extension (coingeckoResult\<lparr> provider := ''pendle-pt-underlying'' \<rparr>) \<in> set closedExtensions"
proof -
  note L = provider_result_shape[of "LocalImagesProvider pngEnvironment" pngEnvironment
      pngEnvironment 1 "''0xABC''" localResult, OF registered(1) png_local]
  note G = provider_result_shape[of "CoinGeckoProvider pngEnvironment" pngEnvironment
      pngEnvironment 1 "''0xABC''" coingeckoResult, OF registered(2) png_coingecko]
  note P = provider_result_shape[of "PendlePTUnderlyingProvider coingeckoEnvironment"
      coingeckoEnvironment coingeckoEnvironment 1 "''0xpt''"
      "coingeckoResult\<lparr> provider := ''pendle-pt-underlying'' \<rparr>",
      OF registered(3) coingecko_pt]
  from L have l: "url localResult = None \<and> buffer localResult \<noteq> None \<and> extension localResult \<noteq> []"
    by (auto simp: name_registered truthy_def)
  have gn: "name (CoinGeckoProvider pngEnvironment) = ''coingecko''"
    by (simp add: CoinGeckoProvider_def)
  from G have g: "truthy (url coingeckoResult) \<and> buffer coingeckoResult = None
      \<and> extension coingeckoResult \<in> set closedExtensions"
    unfolding gn by (auto simp: truthy_def)
  have u: "truthy (url (coingeckoResult\<lparr> provider := ''pendle-pt-underlying'' \<rparr>))"
    by (simp add: coingeckoResult_def truthy_def)
  with P have p: "buffer (coingeckoResult\<lparr> provider := ''pendle-pt-underlying'' \<rparr>) = None
      \<and> extension (coingeckoResult\<lparr> provider := ''pendle-pt-underlying'' \<rparr>)
           \<in> set closedExtensions"
    by (auto simp: truthy_def)
  from l g p registered png_local[of "providers pngEnvironment"]
    png_coingecko[of "providers pngEnvironment"] coingecko_pt
  show ?thesis by blast
qed

theorem local_extension_counterexample:
  "LocalImagesProvider_fetchImage ''images'' textFileSystem 1 ''0xABC'' =
     Some \<lparr> url = None, buffer = Some [104, 105], provider = ''local'', extension = ''txt'',
            path = Some ''images/1/0xabc/image.txt'' \<rparr>
   \<and> ''txt'' \<notin> set closedExtensions
   \<and> LocalImagesProvider textEnvironment \<in> set (providers textEnvironment)
   \<and> snd (provider_fetchImage (providers textEnvironment) (LocalImagesProvider textEnvironment)
            1 ''0xABC'')
        = Fulfilled (Some \<lparr> url = None, buffer = Some [104, 105], provider = ''local'',
                            extension = ''txt'', path = Some ''images/1/0xabc/image.txt'' \<rparr>)
   \<and> PendlePTUnderlyingProvider textEnvironment \<in> set (providers textEnvironment)
   \<and> snd (provider_fetchImage (providers textEnvironment)
            (PendlePTUnderlyingProvider textEnvironment) 1 ''0xpt'')
        = Fulfilled (Some \<lparr> url = None, buffer = Some [104, 105],
                            provider = ''pendle-pt-underlying'', extension = ''txt'',
                            path = Some ''images/1/0xabc/image.txt'' \<rparr>)
   \<and> PendlePTUnderlyingProvider migratedEnvironment \<in> set (providers migratedEnvironment)
   \<and> snd (provider_fetchImage (providers migratedEnvironment)
            (PendlePTUnderlyingProvider migratedEnvironment) 1 ''0xpt'')
        = Fulfilled (Some \<lparr> url = None, buffer = Some [104, 105],
                            provider = ''pendle-pt-underlying'', extension = ''txt'',
                            path = None \<rparr>)"
proof -
  have a: "LocalImagesProvider_fetchImage ''images'' textFileSystem 1 ''0xABC'' =
     Some \<lparr> url = None, buffer = Some [104, 105], provider = ''local'', extension = ''txt'',
            path = Some ''images/1/0xabc/image.txt'' \<rparr>"
    using local_text by (simp add: textResult_def)
  have b: "''txt'' \<notin> set closedExtensions"
    by (simp add: closedExtensions_def)
  have c: "snd (provider_fetchImage (providers textEnvironment) (LocalImagesProvider textEnvironment)
            1 ''0xABC'')
        = Fulfilled (Some \<lparr> url = None, buffer = Some [104, 105], provider = ''local'',
                            extension = ''txt'', path = Some ''images/1/0xabc/image.txt'' \<rparr>)"
    using text_local[of "providers textEnvironment"] by (simp add: textResult_def)
  have d: "snd (provider_fetchImage (providers textEnvironment)
            (PendlePTUnderlyingProvider textEnvironment) 1 ''0xpt'')
        = Fulfilled (Some \<lparr> url = None, buffer = Some [104, 105],
                            provider = ''pendle-pt-underlying'', extension = ''txt'',
                            path = Some ''images/1/0xabc/image.txt'' \<rparr>)"
    using text_pt by (simp add: textResult_def)
  from a b c d migrated_pt registered show ?thesis by blast
qed

end
